theory Spec2Isabelle
  imports Main "HOL-Library.Word"
begin

unbundle bit_operations_syntax

chapter \<open>The model\<close>

section \<open>The concurrency guard of the scanner (scanner/main.go)\<close>

text \<open>
  main.go keeps three package variables: \<open>scanMutex\<close>, \<open>isScanning\<close> and
  \<open>lastScanTime\<close>. Every access to the flag and the time stamp happens with the
  mutex held, so each critical section is one atomic step of the model. Besides the two
  variables the state counts the calls of \<open>runScan\<close> that were issued (by the
  \<open>/trigger\<close> handler's \<open>go runScan()\<close>, by the cron job or by \<open>main\<close>) and
  have not reached their first critical section, and the calls that have set the flag and
  whose deferred function has not run yet: the scan runs in progress.

  \<open>lastScanTime\<close> is a \<open>time.Time\<close>; its zero value is \<open>None\<close>, and
  \<open>time.Now()\<close> is the argument of the step that runs the deferred function.
\<close>

record sys =
  isScanning :: bool
  lastScanTime :: "nat option"
  calls :: nat
  runs :: nat

definition initial :: sys where
  "initial = \<lparr>isScanning = False, lastScanTime = None, calls = 0, runs = 0\<rparr>"

datatype http_method = GET | POST

datatype trigger_response = method_not_allowed | already_running | started

text \<open>The handler of \<open>/trigger\<close>: anything but POST is refused; the flag is read under
  the mutex; when it is set the answer is \<open>already_running\<close> and nothing else happens,
  otherwise \<open>go runScan()\<close> issues a call and the answer is \<open>started\<close>.\<close>

definition trigger :: "http_method \<Rightarrow> sys \<Rightarrow> trigger_response \<times> sys" where
  "trigger m s =
     (if m \<noteq> POST then (method_not_allowed, s)
      else if isScanning s then (already_running, s)
      else (started, s\<lparr>calls := calls s + 1\<rparr>))"

text \<open>\<open>main\<close> and the cron job call \<open>runScan\<close> directly.\<close>

definition call_runScan :: "sys \<Rightarrow> sys" where
  "call_runScan s = s\<lparr>calls := calls s + 1\<rparr>"

datatype entry = skipped | entered

text \<open>The first critical section of \<open>runScan\<close>: with the flag set the call logs
  "Scan already in progress, skipping..." and returns; otherwise it sets the flag.\<close>

definition runScan_enter :: "sys \<Rightarrow> entry \<times> sys" where
  "runScan_enter s =
     (if isScanning s then (skipped, s\<lparr>calls := calls s - 1\<rparr>)
      else (entered, s\<lparr>isScanning := True, calls := calls s - 1, runs := runs s + 1\<rparr>))"

text \<open>The deferred function of \<open>runScan\<close>, run when the scan body returns.\<close>

definition runScan_exit :: "nat \<Rightarrow> sys \<Rightarrow> sys" where
  "runScan_exit now s = s\<lparr>isScanning := False, lastScanTime := Some now, runs := runs s - 1\<rparr>"

text \<open>The states the process can be in: any interleaving of requests, scheduled calls,
  calls reaching their first critical section and running scans completing.\<close>

inductive reachable :: "sys \<Rightarrow> bool" where
  start: "reachable initial"
| request: "reachable s \<Longrightarrow> reachable (snd (trigger m s))"
| schedule: "reachable s \<Longrightarrow> reachable (call_runScan s)"
| enter: "reachable s \<Longrightarrow> 0 < calls s \<Longrightarrow> reachable (snd (runScan_enter s))"
| complete: "reachable s \<Longrightarrow> 0 < runs s \<Longrightarrow> reachable (runScan_exit now s)"

section \<open>Strings\<close>

text \<open>
  A Go string is a sequence of bytes: \<open>string\<close>, a list of 8-bit characters.
  \<open>strings.HasPrefix\<close> and \<open>strings.HasSuffix\<close> compare bytes.
\<close>

definition HasPrefix :: "string \<Rightarrow> string \<Rightarrow> bool" where
  "HasPrefix s p = (length p \<le> length s \<and> take (length p) s = p)"

definition HasSuffix :: "string \<Rightarrow> string \<Rightarrow> bool" where
  "HasSuffix s p = (length p \<le> length s \<and> drop (length s - length p) s = p)"

text \<open>
  \<open>strings.TrimSpace\<close> removes the leading and the trailing white space "as defined by
  Unicode": the runes U+0009 to U+000D, U+0020, U+0085, U+00A0, U+1680, U+2000 to U+200A,
  U+2028, U+2029, U+202F, U+205F and U+3000. On bytes these are the following UTF-8
  sequences. A sequence of the list stands at the start (at the end) of a string exactly
  when decoding the first (the last) rune yields that white-space rune, and no sequence of
  the list is a proper suffix of another, so trimming runes is trimming these sequences.
\<close>

definition space_runes :: "string list" where
  "space_runes =
    [[CHR 0x09], [CHR 0x0A], [CHR 0x0B], [CHR 0x0C], [CHR 0x0D], [CHR 0x20],
     [CHR 0xC2, CHR 0x85], [CHR 0xC2, CHR 0xA0],
     [CHR 0xE1, CHR 0x9A, CHR 0x80],
     [CHR 0xE2, CHR 0x80, CHR 0x80], [CHR 0xE2, CHR 0x80, CHR 0x81],
     [CHR 0xE2, CHR 0x80, CHR 0x82], [CHR 0xE2, CHR 0x80, CHR 0x83],
     [CHR 0xE2, CHR 0x80, CHR 0x84], [CHR 0xE2, CHR 0x80, CHR 0x85],
     [CHR 0xE2, CHR 0x80, CHR 0x86], [CHR 0xE2, CHR 0x80, CHR 0x87],
     [CHR 0xE2, CHR 0x80, CHR 0x88], [CHR 0xE2, CHR 0x80, CHR 0x89],
     [CHR 0xE2, CHR 0x80, CHR 0x8A],
     [CHR 0xE2, CHR 0x80, CHR 0xA8], [CHR 0xE2, CHR 0x80, CHR 0xA9],
     [CHR 0xE2, CHR 0x80, CHR 0xAF], [CHR 0xE2, CHR 0x81, CHR 0x9F],
     [CHR 0xE3, CHR 0x80, CHR 0x80]]"

text \<open>The number of bytes of the white-space rune a string starts (ends) with, 0 when
  it starts (ends) with none.\<close>

definition leading_space :: "string \<Rightarrow> nat" where
  "leading_space s = (case find (HasPrefix s) space_runes of None \<Rightarrow> 0 | Some t \<Rightarrow> length t)"

definition trailing_space :: "string \<Rightarrow> nat" where
  "trailing_space s = (case find (HasSuffix s) space_runes of None \<Rightarrow> 0 | Some t \<Rightarrow> length t)"

function TrimLeftSpace :: "string \<Rightarrow> string" where
  "TrimLeftSpace s =
     (if leading_space s = 0 then s else TrimLeftSpace (drop (leading_space s) s))"
  by pat_completeness auto
termination
proof (relation "measure length")
  show "wf (measure length)" by simp
next
  fix s :: string
  assume "leading_space s \<noteq> 0"
  moreover have "leading_space s \<le> length s"
    by (auto simp: leading_space_def HasPrefix_def split: option.splits simp: find_Some_iff)
  ultimately show "(drop (leading_space s) s, s) \<in> measure length" by simp
qed

function TrimRightSpace :: "string \<Rightarrow> string" where
  "TrimRightSpace s =
     (if trailing_space s = 0 then s else TrimRightSpace (take (length s - trailing_space s) s))"
  by pat_completeness auto
termination
proof (relation "measure length")
  show "wf (measure length)" by simp
next
  fix s :: string
  assume "trailing_space s \<noteq> 0"
  moreover have "trailing_space s \<le> length s"
    by (auto simp: trailing_space_def HasSuffix_def split: option.splits simp: find_Some_iff)
  ultimately show "(take (length s - trailing_space s) s, s) \<in> measure length" by simp
qed

declare TrimLeftSpace.simps [simp del] TrimRightSpace.simps [simp del]

definition TrimSpace :: "string \<Rightarrow> string" where
  "TrimSpace s = TrimRightSpace (TrimLeftSpace s)"

section \<open>Service fingerprinting (scanner/scanner/fingerprint.go)\<close>

subsection \<open>sanitizeBanner\<close>

text \<open>
  The loop \<open>for _, r := range s\<close> of sanitizeBanner visits the runes of the string. A
  byte below 0x80 is a rune of its own; every other rune (a multi-byte sequence, or the
  replacement rune Go yields for a byte that starts no valid sequence) is at least 0x80,
  consists of bytes from 0x80 on and is dropped by the loop. So the loop is this filter on
  the bytes: printable ASCII is kept, line feed, carriage return and tab become a space,
  everything else is dropped.
\<close>

fun sanitize_runes :: "string \<Rightarrow> string" where
  "sanitize_runes [] = []"
| "sanitize_runes (r # s) =
     (if 32 \<le> (of_char r :: nat) \<and> (of_char r :: nat) < 127 then r # sanitize_runes s
      else if r = CHR 0x0A \<or> r = CHR 0x0D \<or> r = CHR 0x09 then CHR '' '' # sanitize_runes s
      else sanitize_runes s)"

definition sanitizeBanner :: "string \<Rightarrow> string" where
  "sanitizeBanner s =
     (let out = sanitize_runes (TrimSpace s);
          out = (if length out > 512 then take 512 out @ ''...'' else out)
      in TrimSpace out)"

text \<open>Notions the proofs about sanitizeBanner use: the printable ASCII characters,
  trimming of spaces alone, the truncation step on its own, and a banner of a control
  byte, a space and 512 letters.\<close>

definition printable :: "char \<Rightarrow> bool" where
  "printable r = (32 \<le> (of_char r :: nat) \<and> (of_char r :: nat) < 127)"

definition trim :: "string \<Rightarrow> string" where
  "trim s = rev (dropWhile (\<lambda>c. c = CHR '' '') (rev (dropWhile (\<lambda>c. c = CHR '' '') s)))"

definition ellipsis :: "string \<Rightarrow> string" where
  "ellipsis out = (if length out > 512 then take 512 out @ ''...'' else out)"

definition padded :: string where
  "padded = CHR 0x01 # CHR '' '' # replicate 512 (CHR ''a'')"

section \<open>Address expansion (scanner/scanner/tcp.go) and Go's net package\<close>

text \<open>
  \<open>expandCIDR\<close> calls \<open>net.ParseCIDR\<close>, \<open>IP.Mask\<close>, \<open>IPNet.Contains\<close> and
  \<open>IP.String\<close> of Go's standard library. The first three are modelled here as the
  library implements them, on byte slices: a \<open>net.IP\<close> is a list of bytes of length 4
  or 16, the \<open>nil\<close> slice is the empty list.
\<close>

type_synonym byte = "8 word"
type_synonym IP = "byte list"
type_synonym IPMask = "byte list"

record IPNet =
  net_IP :: IP
  net_Mask :: IPMask

text \<open>\<open>IP.To4\<close>: a 4-byte slice is returned as it is, an IPv4-mapped 16-byte address
  gives its last four bytes, anything else \<open>nil\<close>.\<close>

definition v4InV6Prefix :: "byte list" where
  "v4InV6Prefix = [0, 0, 0, 0, 0, 0, 0, 0, 0, 0, 0xff, 0xff]"

definition To4 :: "IP \<Rightarrow> IP" where
  "To4 ip =
     (if length ip = 4 then ip
      else if length ip = 16 \<and> take 10 ip = replicate 10 0 \<and> ip ! 10 = 0xff \<and> ip ! 11 = 0xff
        then drop 12 ip
      else [])"

text \<open>\<open>IP.Mask\<close>: mask and address are brought to the same length where one is the
  IPv4 form of the other; the result is the bytewise AND, \<open>nil\<close> when the lengths differ.\<close>

definition allFF :: "byte list \<Rightarrow> bool" where
  "allFF b = list_all (\<lambda>c. c = 0xff) b"

definition Mask :: "IP \<Rightarrow> IPMask \<Rightarrow> IP" where
  "Mask ip msk =
     (let msk = (if length msk = 16 \<and> length ip = 4 \<and> allFF (take 12 msk)
                 then drop 12 msk else msk);
          ip = (if length msk = 4 \<and> length ip = 16 \<and> take 12 ip = v4InV6Prefix
                then drop 12 ip else ip)
      in if length ip \<noteq> length msk then [] else map2 (AND) ip msk)"

text \<open>\<open>net.CIDRMask(ones, bits)\<close>: the loop over the \<open>bits / 8\<close> bytes of the mask, \<open>n\<close>
  counting the ones still to be written.\<close>

fun CIDRMask_bytes :: "nat \<Rightarrow> nat \<Rightarrow> byte list" where
  "CIDRMask_bytes 0 n = []"
| "CIDRMask_bytes (Suc l) n =
     (if 8 \<le> n then 0xff # CIDRMask_bytes l (n - 8)
      else NOT (drop_bit n 0xff) # CIDRMask_bytes l 0)"

definition CIDRMask :: "int \<Rightarrow> int \<Rightarrow> IPMask" where
  "CIDRMask ones bits =
     (if bits \<noteq> 32 \<and> bits \<noteq> 128 then []
      else if ones < 0 \<or> ones > bits then []
      else CIDRMask_bytes (nat (bits div 8)) (nat ones))"

text \<open>\<open>IPNet.Contains\<close> and its helper \<open>networkNumberAndMask\<close>.\<close>

definition networkNumberAndMask :: "IPNet \<Rightarrow> IP \<times> IPMask" where
  "networkNumberAndMask n =
     (if To4 (net_IP n) = [] \<and> length (net_IP n) \<noteq> 16 then ([], [])
      else
        let ip = (if To4 (net_IP n) = [] then net_IP n else To4 (net_IP n));
            m = net_Mask n
        in if length m = 4 then (if length ip \<noteq> 4 then ([], []) else (ip, m))
           else if length m = 16 then (ip, if length ip = 4 then drop 12 m else m)
           else ([], []))"

definition Contains :: "IPNet \<Rightarrow> IP \<Rightarrow> bool" where
  "Contains n ip =
     (let (nn, m) = networkNumberAndMask n;
          ip = (if To4 ip \<noteq> [] then To4 ip else ip)
      in if length ip \<noteq> length nn then False
         else map2 (AND) nn m = map2 (AND) ip m)"

text \<open>\<open>inc\<close> of tcp.go: the bytes are incremented from the last one, as long as the
  incremented byte wrapped around to 0. \<open>inc_rev\<close> is the loop, on the reversed slice.\<close>

fun inc_rev :: "byte list \<Rightarrow> byte list" where
  "inc_rev [] = []"
| "inc_rev (b # bs) = (if b + 1 > 0 then (b + 1) # bs else (b + 1) # inc_rev bs)"

definition inc :: "IP \<Rightarrow> IP" where
  "inc ip = rev (inc_rev (rev ip))"

text \<open>
  The text of a CIDR is represented by what \<open>netip.ParseAddr\<close> and the decimal parser
  read from it: the address bytes (4 for dotted-quad text, 16 for IPv6 text, IPv4-mapped
  text such as \<open>::ffff:10.0.0.0\<close> included) and the number after the slash. A text that
  does not parse is a \<open>cidr\<close> whose address has another length or whose prefix length
  is out of range. \<open>ParseCIDR\<close> returns the address in 16-byte form and the network.
  The errors of the scanners are one type: the parse error of a CIDR, the error of
  \<open>ScanPort\<close> without addresses, the error of a context that is done (\<open>ctx.Err()\<close>), and
  the errors of \<open>scanNetworkPort\<close>.
\<close>

datatype error =
    ParseError
  | no_valid_IPs_to_scan
  | context_error
  | failed_to_create_whitelist_file
  | failed_to_write_whitelist
  | failed_to_create_blacklist_file
  | failed_to_get_stdout_pipe
  | failed_to_get_stderr_pipe
  | failed_to_start_zmap
  | zmap_failed string

record cidr =
  addr :: IP
  ones :: int

definition As16 :: "IP \<Rightarrow> IP" where
  "As16 a = (if length a = 4 then v4InV6Prefix @ a else a)"

definition ParseCIDR :: "cidr \<Rightarrow> error + IP \<times> IPNet" where
  "ParseCIDR c =
     (let bits = 8 * int (length (addr c)) in
      if (length (addr c) \<noteq> 4 \<and> length (addr c) \<noteq> 16) \<or> ones c < 0 \<or> bits < ones c
      then Inl ParseError
      else
        let m = CIDRMask (ones c) bits; addr16 = As16 (addr c)
        in Inr (addr16, \<lparr>net_IP = Mask addr16 m, net_Mask = m\<rparr>))"

text \<open>
  The loop of \<open>expandCIDR\<close>,
  \<open>for ip := ip.Mask(ipnet.Mask); ipnet.Contains(ip); inc(ip) { ips = append(ips, ip.String()) }\<close>.
  It has no bound of its own, so it is a partial function: \<open>None\<close> is the loop that
  never exits. \<open>IP.String\<close> is a parameter of the model.
\<close>

partial_function (option) expand_loop :: "(IP \<Rightarrow> string) \<Rightarrow> IPNet \<Rightarrow> IP \<Rightarrow> string list \<Rightarrow> string list option" where
  "expand_loop String ipnet ip ips =
     (if Contains ipnet ip then expand_loop String ipnet (inc ip) (ips @ [String ip])
      else Some ips)"

declare expand_loop.simps [code]

text \<open>\<open>expandCIDR\<close>: a parse error is returned to the caller; a list of more than
  two addresses loses its first and its last element (\<open>ips[1 : len(ips)-1]\<close>).\<close>

definition expandCIDR :: "(IP \<Rightarrow> string) \<Rightarrow> cidr \<Rightarrow> (error + string list) option" where
  "expandCIDR String c =
     (case ParseCIDR c of
        Inl e \<Rightarrow> Some (Inl e)
      | Inr (ip, ipnet) \<Rightarrow>
          (case expand_loop String ipnet (Mask ip (net_Mask ipnet)) [] of
             None \<Rightarrow> None
           | Some ips \<Rightarrow>
               Some (Inr (if 2 < length ips then take (length ips - 2) (drop 1 ips) else ips))))"

text \<open>Go renders an IPv4 address (4 bytes, or 16 bytes IPv4-mapped) in dotted decimal.
  \<open>dotted\<close> is \<open>IP.String\<close> on these addresses; it is used where a concrete
  rendering is needed, and gives the empty string for every other slice, which
  \<open>IP.String\<close> does not.\<close>

function decimal :: "nat \<Rightarrow> string" where
  "decimal n =
     (if n < 10 then [char_of (48 + n)] else decimal (n div 10) @ [char_of (48 + n mod 10)])"
  by pat_completeness auto
termination
  by (relation "measure id") auto

declare decimal.simps [simp del]

definition dotted :: "IP \<Rightarrow> string" where
  "dotted ip =
     (case To4 ip of
        [a, b, c, d] \<Rightarrow>
          decimal (unat a) @ ''.'' @ decimal (unat b) @ ''.'' @ decimal (unat c) @ ''.'' @
          decimal (unat d)
      | _ \<Rightarrow> [])"

subsection \<open>Notions used to state the properties of the expansion\<close>

text \<open>The number an address stands for (big-endian), the mask, the masked base address
  and the network of a CIDR as \<open>ParseCIDR\<close> computes them, the CIDRs that parse, those
  among them whose range lies within one IPv4 space (every IPv4 CIDR, and the IPv6 CIDRs
  with a prefix of at least 96 bits), the number of addresses of the range, the
  \<open>k\<close>-th address counted from the base, and the list of all of them.\<close>

fun ipval :: "byte list \<Rightarrow> nat" where
  "ipval [] = 0"
| "ipval (b # bs) = unat b * 256 ^ length bs + ipval bs"

definition netmask :: "cidr \<Rightarrow> IPMask" where
  "netmask c = CIDRMask_bytes (length (addr c)) (nat (ones c))"

definition base :: "cidr \<Rightarrow> IP" where
  "base c = map2 (AND) (addr c) (netmask c)"

definition network :: "cidr \<Rightarrow> IPNet" where
  "network c = \<lparr>net_IP = base c, net_Mask = netmask c\<rparr>"

definition valid :: "cidr \<Rightarrow> bool" where
  "valid c = ((length (addr c) = 4 \<or> length (addr c) = 16) \<and> 0 \<le> ones c \<and>
              ones c \<le> 8 * int (length (addr c)))"

definition narrow :: "cidr \<Rightarrow> bool" where
  "narrow c = (valid c \<and> (length (addr c) = 4 \<or> 96 \<le> ones c))"

definition size_of :: "cidr \<Rightarrow> nat" where
  "size_of c = 2 ^ (8 * length (addr c) - nat (ones c))"

definition nth_addr :: "cidr \<Rightarrow> nat \<Rightarrow> IP" where
  "nth_addr c k = (inc ^^ k) (base c)"

definition addresses :: "cidr \<Rightarrow> IP list" where
  "addresses c = map (nth_addr c) [0..<size_of c]"

subsection \<open>More of Go's strings package\<close>

text \<open>\<open>strings.Index\<close> (\<open>None\<close> for -1), \<open>strings.Contains\<close> and
  \<open>strings.SplitN\<close> with a separator that is not empty (the code passes \<open>"-"\<close>): at
  most \<open>n\<close> pieces, the last one the unsplit rest; no piece at all for \<open>n = 0\<close>.\<close>

fun Index :: "string \<Rightarrow> string \<Rightarrow> nat option" where
  "Index [] sep = (if sep = [] then Some 0 else None)"
| "Index (c # s) sep =
     (if HasPrefix (c # s) sep then Some 0 else map_option Suc (Index s sep))"

definition ContainsStr :: "string \<Rightarrow> string \<Rightarrow> bool" where
  "ContainsStr s substr = (Index s substr \<noteq> None)"

fun SplitN :: "string \<Rightarrow> string \<Rightarrow> nat \<Rightarrow> string list" where
  "SplitN s sep 0 = []"
| "SplitN s sep (Suc n) =
     (if n = 0 then [s]
      else case Index s sep of
             None \<Rightarrow> [s]
           | Some i \<Rightarrow> take i s # SplitN (drop (i + length sep) s) sep n)"

subsection \<open>The network, as a probe sees it\<close>

text \<open>
  A probe dials, possibly writes requests, and reads. What it reads depends on the peer,
  so the network is a parameter: \<open>dial\<close> gives, for an address, a port and the choice of
  TLS, either \<open>None\<close> (the dial failed) or the peer. A peer answers the requests written
  so far with the chunks of bytes that arrive before the deadline and with the error that
  ends the reading: \<open>EOF\<close> when the peer closed the connection, \<open>DeadlineExceeded\<close> otherwise.
  \<open>Read\<close> is one \<open>conn.Read(buf)\<close> with a buffer of \<open>k\<close> bytes, \<open>ReadString\<close> is
  \<open>bufio.Reader.ReadString\<close>: the bytes up to and including the delimiter, or all bytes
  and the error.
\<close>

datatype io_error = NoError | EOF | DeadlineExceeded

record conn =
  chunks :: "string list"
  final :: io_error

type_synonym peer = "string list \<Rightarrow> conn"

definition Read :: "conn \<Rightarrow> nat \<Rightarrow> string" where
  "Read c k = (case chunks c of [] \<Rightarrow> [] | d # _ \<Rightarrow> take k d)"

definition ReadString :: "conn \<Rightarrow> char \<Rightarrow> string \<times> io_error" where
  "ReadString c delim =
     (let s = concat (chunks c) in
      if delim \<in> set s then (takeWhile (\<lambda>x. x \<noteq> delim) s @ [delim], NoError)
      else (s, final c))"

subsection \<open>Parameters of the model\<close>

text \<open>
  Functions of Go's library are parameters:
  \<^item> \<open>FindStringSubmatch p s\<close> is \<open>regexp.MustCompile(p).FindStringSubmatch(s)\<close> for
    the six patterns the code compiles: the match and its groups, the empty list when
    nothing matches. The patterns are
    \<open>(?i)Server:\s*([^\r\n]+)\<close>, \<open>HTTP/[\d.]+\s+(\d+)\<close>, \<open>(?i)<title>([^<]+)</title>\<close>,
    \<open>redis_version:(\S+)\<close>, \<open>(\d+\.\d+(?:\.\d+)?(?:[.-]\w+)?)\<close> and
    \<open>v(\d+\.\d+(?:\.\d+)?)\<close>.
  \<^item> \<open>ToLower\<close> is \<open>strings.ToLower\<close>.
  \<^item> \<open>Unmarshal\<close> is \<open>json.Unmarshal\<close> of the output of zgrab2 into a
    \<open>ZgrabResult\<close>, and \<open>Unmarshal_HTTPResult\<close> to \<open>Unmarshal_map\<close> are
    \<open>json.Unmarshal\<close> of the result of a module into the type \<open>parseZgrabResult\<close>
    asks for; \<open>None\<close> is the error.

  The types that zgrab2's output is decoded into are records with the fields of the Go
  structs, a pointer is an option, and so is a map or a slice that the code compares with
  \<open>nil\<close>. A map with string keys is a list of pairs that is read with \<open>map_of\<close>.
\<close>

datatype pattern =
  ServerHeader | StatusCode | Title | RedisVersion | VersionNumber | VersionWithV

datatype val = VString string | VInt int | VBool bool | VStrings "string list"
  | VMap "(string \<times> val) list"

record ServiceInfo =
  ServiceName :: string
  ServiceVersion :: string
  Banner :: string
  Fingerprint :: "(string \<times> val) list option"

record ZgrabModule =
  Status :: string
  Protocol :: string
  Timestamp :: string
  Result :: string
  Error :: string

text \<open>\<open>Data\<close> is a \<open>map[string]*ZgrabModule\<close>: the JSON value \<open>null\<close> of a key is the
  \<open>nil\<close> pointer.\<close>

record ZgrabResult =
  result_IP :: string
  Domain :: string
  Data :: "(string \<times> ZgrabModule option) list"

record DistinguishedName =
  CommonName :: "string list"
  Organization :: "string list"
  OrganizationalUnit :: "string list"
  Country :: "string list"

record SubjectAltNames =
  DNSNames :: "string list"
  IPAddrs :: "string list"

record ParsedCert =
  Subject :: "DistinguishedName option"
  Issuer :: "DistinguishedName option"
  SerialNumber :: string
  ValidityNotBefore :: string
  ValidityNotAfter :: string
  SignatureAlgorithm :: string
  SubjectAltNames :: "SubjectAltNames option"

record Certificate =
  Raw :: string
  Parsed :: "ParsedCert option"

record ServerCertificates =
  Certificate :: "Certificate option"
  Chain :: "Certificate option list option"

record ServerHello =
  hello_Version :: "16 word"
  CipherSuite :: "16 word"

record HandshakeLog =
  ServerCertificates :: "ServerCertificates option"
  ServerHello :: "ServerHello option"

record TLSLog =
  HandshakeLog :: "HandshakeLog option"

record HTTPResponse =
  http_StatusCode :: int
  StatusLine :: string
  Headers :: "(string \<times> string) list option"
  Body :: string
  BodySHA256 :: string
  ContentLength :: int
  http_Protocol :: "(string \<times> val) list option"

record HTTPResult =
  Response :: "HTTPResponse option"

record SMTPResult =
  smtp_Banner :: string
  EHLO :: string
  HELO :: string
  smtp_StartTLS :: string
  smtp_TLS :: "TLSLog option"

record FTPResult =
  ftp_Banner :: string
  AuthTLS :: string
  ftp_TLS :: "TLSLog option"

record SSHServerID =
  ssh_Raw :: string
  ssh_Version :: string
  SoftwareVersion :: string
  Comment :: string

record SSHResult =
  ServerID :: "SSHServerID option"
  AlgorithmSelection :: "(string \<times> val) list option"

record MySQLResult =
  ProtocolVersion :: int
  ServerVersion :: string
  ConnectionID :: "32 word"
  AuthPluginName :: string
  mysql_TLS :: "TLSLog option"

record PostgresResult =
  SupportedVersions :: string
  ProtocolError :: string
  StartupError :: string
  IsSSL :: bool
  postgres_TLS :: "TLSLog option"

record RedisResult =
  Ping :: string
  Info :: string
  AuthRequired :: bool

record IMAPResult =
  imap_Banner :: string
  imap_StartTLS :: string
  imap_TLS :: "TLSLog option"

record POP3Result =
  pop3_Banner :: string
  pop3_StartTLS :: string
  pop3_TLS :: "TLSLog option"

record TelnetResult =
  telnet_Banner :: string

record params =
  FindStringSubmatch :: "pattern \<Rightarrow> string \<Rightarrow> string list"
  ToLower :: "string \<Rightarrow> string"
  Unmarshal :: "string \<Rightarrow> ZgrabResult option"
  Unmarshal_HTTPResult :: "string \<Rightarrow> HTTPResult option"
  Unmarshal_SMTPResult :: "string \<Rightarrow> SMTPResult option"
  Unmarshal_FTPResult :: "string \<Rightarrow> FTPResult option"
  Unmarshal_SSHResult :: "string \<Rightarrow> SSHResult option"
  Unmarshal_MySQLResult :: "string \<Rightarrow> MySQLResult option"
  Unmarshal_PostgresResult :: "string \<Rightarrow> PostgresResult option"
  Unmarshal_RedisResult :: "string \<Rightarrow> RedisResult option"
  Unmarshal_IMAPResult :: "string \<Rightarrow> IMAPResult option"
  Unmarshal_POP3Result :: "string \<Rightarrow> POP3Result option"
  Unmarshal_TelnetResult :: "string \<Rightarrow> TelnetResult option"
  Unmarshal_map :: "string \<Rightarrow> (string \<times> val) list option"

text \<open>The outcome of running an external program: whether \<open>cmd.Run\<close> or \<open>cmd.Wait\<close>
  returned no error, and what the program wrote.\<close>

record process =
  exited_ok :: bool
  stdout :: string
  stderr :: string

record world =
  dial :: "string \<Rightarrow> int \<Rightarrow> bool \<Rightarrow> peer option"
  zgrab2 :: "string \<Rightarrow> string list \<Rightarrow> process"

subsection \<open>The native prober\<close>

record Fingerprinter =
  Timeout :: nat
  MaxBanner :: nat

definition NewFingerprinter :: Fingerprinter where
  "NewFingerprinter = \<lparr>Timeout = 5, MaxBanner = 1024\<rparr>"

text \<open>The zero value of ServiceInfo: empty strings and the \<open>nil\<close> map.\<close>

definition no_info :: ServiceInfo where
  "no_info = \<lparr>ServiceName = [], ServiceVersion = [], Banner = [], Fingerprint = None\<rparr>"

text \<open>The first group of a match: \<open>matches[1]\<close> under \<open>len(matches) > 1\<close>.\<close>

definition group1 :: "string list \<Rightarrow> string option" where
  "group1 matches = (case matches of _ # g # _ \<Rightarrow> Some g | _ \<Rightarrow> None)"

definition extractVersion :: "params \<Rightarrow> string \<Rightarrow> string" where
  "extractVersion L banner =
     (case group1 (FindStringSubmatch L VersionNumber banner) of
        Some g \<Rightarrow> g
      | None \<Rightarrow>
          (case group1 (FindStringSubmatch L VersionWithV banner) of
             Some g \<Rightarrow> g
           | None \<Rightarrow> []))"

definition guessServiceFromBanner :: "params \<Rightarrow> string \<Rightarrow> int \<Rightarrow> string" where
  "guessServiceFromBanner L banner port =
     (let lower = ToLower L banner in
      if ContainsStr lower ''ssh'' then ''ssh''
      else if ContainsStr lower ''ftp'' then ''ftp''
      else if ContainsStr lower ''smtp'' \<or> ContainsStr lower ''mail'' then ''smtp''
      else if ContainsStr lower ''http'' then ''http''
      else if ContainsStr lower ''mysql'' then ''mysql''
      else if ContainsStr lower ''postgresql'' \<or> ContainsStr lower ''postgres'' then ''postgresql''
      else if ContainsStr lower ''redis'' then ''redis''
      else if ContainsStr lower ''mongodb'' \<or> ContainsStr lower ''mongo'' then ''mongodb''
      else if ContainsStr lower ''imap'' then ''imap''
      else if ContainsStr lower ''pop'' then ''pop3''
      else if ContainsStr lower ''telnet'' then ''telnet''
      else [])"

definition services :: "(int \<times> string) list" where
  "services =
     [(21, ''ftp''), (22, ''ssh''), (23, ''telnet''), (25, ''smtp''), (53, ''dns''),
      (80, ''http''), (110, ''pop3''), (143, ''imap''), (443, ''https''), (445, ''smb''),
      (465, ''smtps''), (587, ''submission''), (993, ''imaps''), (995, ''pop3s''),
      (1433, ''mssql''), (1521, ''oracle''), (3306, ''mysql''), (3389, ''rdp''),
      (5432, ''postgresql''), (5900, ''vnc''), (6379, ''redis''), (8080, ''http-proxy''),
      (8443, ''https-alt''), (27017, ''mongodb'')]"

definition getDefaultServiceName :: "int \<Rightarrow> string" where
  "getDefaultServiceName port =
     (case map_of services port of Some name \<Rightarrow> name | None \<Rightarrow> ''unknown'')"

definition crlf :: string where
  "crlf = [CHR 0x0D, CHR 0x0A]"

definition probeGeneric :: "Fingerprinter \<Rightarrow> world \<Rightarrow> string \<Rightarrow> int \<Rightarrow> ServiceInfo" where
  "probeGeneric f W ip port =
     (case dial W ip port False of
        None \<Rightarrow> no_info
      | Some p \<Rightarrow>
          let buf = Read (p []) (MaxBanner f)
          in if 0 < length buf then no_info\<lparr>Banner := sanitizeBanner buf\<rparr> else no_info)"

definition probeSSH :: "Fingerprinter \<Rightarrow> world \<Rightarrow> string \<Rightarrow> int \<Rightarrow> ServiceInfo" where
  "probeSSH f W ip port =
     (let info = no_info\<lparr>ServiceName := ''ssh''\<rparr> in
      case dial W ip port False of
        None \<Rightarrow> info
      | Some p \<Rightarrow>
          (case ReadString (p []) (CHR 0x0A) of
             (banner, err) \<Rightarrow>
               if err \<noteq> NoError \<and> err \<noteq> EOF then info
               else
                 let info = info\<lparr>Banner := sanitizeBanner banner\<rparr> in
                 if HasPrefix banner ''SSH-'' then
                   (let parts = SplitN banner ''-'' 3 in
                    if 3 \<le> length parts then info\<lparr>ServiceVersion := TrimSpace (parts ! 2)\<rparr>
                    else info)
                 else info))"

definition probeHTTP :: "Fingerprinter \<Rightarrow> params \<Rightarrow> world \<Rightarrow> string \<Rightarrow> int \<Rightarrow> bool \<Rightarrow> ServiceInfo" where
  "probeHTTP f L W ip port useTLS =
     (let info = no_info\<lparr>ServiceName := (if useTLS then ''https'' else ''http'')\<rparr> in
      case dial W ip port useTLS of
        None \<Rightarrow> info
      | Some p \<Rightarrow>
          let request = ''GET / HTTP/1.1'' @ crlf @ ''Host: '' @ ip @ crlf @
                ''User-Agent: NetworkScanner/1.0'' @ crlf @ ''Connection: close'' @ crlf @ crlf;
              response = Read (p [request]) (MaxBanner f)
          in if 0 < length response then
               (let info = info\<lparr>Banner := sanitizeBanner response\<rparr>;
                    info = (case group1 (FindStringSubmatch L ServerHeader response) of
                              Some g \<Rightarrow> info\<lparr>ServiceVersion := TrimSpace g\<rparr>
                            | None \<Rightarrow> info);
                    fp = [];
                    fp = (case group1 (FindStringSubmatch L StatusCode response) of
                            Some g \<Rightarrow> fp @ [(''status_code'', VString g)]
                          | None \<Rightarrow> fp);
                    fp = (case group1 (FindStringSubmatch L Title response) of
                            Some g \<Rightarrow> fp @ [(''title'', VString (TrimSpace g))]
                          | None \<Rightarrow> fp)
                in info\<lparr>Fingerprint := Some fp\<rparr>)
             else info)"

text \<open>probeFTP, probeSMTP, probePOP3 and probeIMAP read one line and ignore the error of
  the read; the first two look for a version when the line starts with 220.\<close>

definition probeFTP :: "Fingerprinter \<Rightarrow> params \<Rightarrow> world \<Rightarrow> string \<Rightarrow> int \<Rightarrow> ServiceInfo" where
  "probeFTP f L W ip port =
     (let info = no_info\<lparr>ServiceName := ''ftp''\<rparr> in
      case dial W ip port False of
        None \<Rightarrow> info
      | Some p \<Rightarrow>
          (case ReadString (p []) (CHR 0x0A) of
             (banner, err) \<Rightarrow>
               let info = info\<lparr>Banner := sanitizeBanner banner\<rparr> in
               if HasPrefix banner ''220''
               then info\<lparr>ServiceVersion := extractVersion L banner\<rparr>
               else info))"

definition probeSMTP :: "Fingerprinter \<Rightarrow> params \<Rightarrow> world \<Rightarrow> string \<Rightarrow> int \<Rightarrow> ServiceInfo" where
  "probeSMTP f L W ip port =
     (let info = no_info\<lparr>ServiceName := ''smtp''\<rparr> in
      case dial W ip port False of
        None \<Rightarrow> info
      | Some p \<Rightarrow>
          (case ReadString (p []) (CHR 0x0A) of
             (banner, err) \<Rightarrow>
               let info = info\<lparr>Banner := sanitizeBanner banner\<rparr> in
               if HasPrefix banner ''220''
               then info\<lparr>ServiceVersion := extractVersion L banner\<rparr>
               else info))"

definition probePOP3 :: "Fingerprinter \<Rightarrow> params \<Rightarrow> world \<Rightarrow> string \<Rightarrow> int \<Rightarrow> ServiceInfo" where
  "probePOP3 f L W ip port =
     (let info = no_info\<lparr>ServiceName := ''pop3''\<rparr> in
      case dial W ip port False of
        None \<Rightarrow> info
      | Some p \<Rightarrow>
          (case ReadString (p []) (CHR 0x0A) of
             (banner, err) \<Rightarrow>
               info\<lparr>Banner := sanitizeBanner banner\<rparr>))"

definition probeIMAP :: "Fingerprinter \<Rightarrow> params \<Rightarrow> world \<Rightarrow> string \<Rightarrow> int \<Rightarrow> ServiceInfo" where
  "probeIMAP f L W ip port =
     (let info = no_info\<lparr>ServiceName := ''imap''\<rparr> in
      case dial W ip port False of
        None \<Rightarrow> info
      | Some p \<Rightarrow>
          (case ReadString (p []) (CHR 0x0A) of
             (banner, err) \<Rightarrow>
               info\<lparr>Banner := sanitizeBanner banner\<rparr>))"

definition probeTelnet :: "Fingerprinter \<Rightarrow> world \<Rightarrow> string \<Rightarrow> int \<Rightarrow> ServiceInfo" where
  "probeTelnet f W ip port =
     (let info = no_info\<lparr>ServiceName := ''telnet''\<rparr> in
      case dial W ip port False of
        None \<Rightarrow> info
      | Some p \<Rightarrow>
          let buf = Read (p []) (MaxBanner f)
          in if 0 < length buf then info\<lparr>Banner := sanitizeBanner buf\<rparr> else info)"

definition probeMySQL :: "Fingerprinter \<Rightarrow> world \<Rightarrow> string \<Rightarrow> int \<Rightarrow> ServiceInfo" where
  "probeMySQL f W ip port =
     (let info = no_info\<lparr>ServiceName := ''mysql''\<rparr> in
      case dial W ip port False of
        None \<Rightarrow> info
      | Some p \<Rightarrow>
          let buf = Read (p []) (MaxBanner f);
              version = takeWhile (\<lambda>b. b \<noteq> CHR 0x00) (drop 5 buf)
          in if 5 < length buf \<and> 0 < length version
             then info\<lparr>ServiceVersion := version, Banner := ''MySQL '' @ version\<rparr>
             else info)"

definition probePostgreSQL :: "Fingerprinter \<Rightarrow> world \<Rightarrow> string \<Rightarrow> int \<Rightarrow> ServiceInfo" where
  "probePostgreSQL f W ip port =
     (let info = no_info\<lparr>ServiceName := ''postgresql''\<rparr> in
      case dial W ip port False of
        None \<Rightarrow> info
      | Some p \<Rightarrow>
          let sslRequest = [CHR 0x00, CHR 0x00, CHR 0x00, CHR 0x08, CHR 0x04, CHR 0xD2,
                            CHR 0x16, CHR 0x2F];
              buf = Read (p [sslRequest]) 1
          in if buf = ''N'' then info\<lparr>Banner := ''PostgreSQL (SSL not supported)''\<rparr>
             else if buf = ''S'' then info\<lparr>Banner := ''PostgreSQL (SSL supported)''\<rparr>
             else info)"

definition probeRedis :: "Fingerprinter \<Rightarrow> params \<Rightarrow> world \<Rightarrow> string \<Rightarrow> int \<Rightarrow> ServiceInfo" where
  "probeRedis f L W ip port =
     (let info = no_info\<lparr>ServiceName := ''redis''\<rparr> in
      case dial W ip port False of
        None \<Rightarrow> info
      | Some p \<Rightarrow>
          let ping = ''*1'' @ crlf @ ''$4'' @ crlf @ ''PING'' @ crlf;
              cmd = ''*1'' @ crlf @ ''$4'' @ crlf @ ''INFO'' @ crlf;
              response = Read (p [ping]) (MaxBanner f)
          in if 0 < length response then
               (let info = (if ContainsStr response ''PONG'' then info\<lparr>Banner := ''Redis server''\<rparr>
                            else if ContainsStr response ''NOAUTH''
                              then info\<lparr>Banner := ''Redis server (authentication required)''\<rparr>
                            else info);
                    infoResp = Read (p [ping, cmd]) (MaxBanner f)
                in if 0 < length infoResp then
                     (case group1 (FindStringSubmatch L RedisVersion infoResp) of
                        Some g \<Rightarrow> info\<lparr>ServiceVersion := g\<rparr>
                      | None \<Rightarrow> info)
                   else info)
             else info)"

definition probeMongoDB :: "Fingerprinter \<Rightarrow> world \<Rightarrow> string \<Rightarrow> int \<Rightarrow> ServiceInfo" where
  "probeMongoDB f W ip port =
     (let info = no_info\<lparr>ServiceName := ''mongodb''\<rparr> in
      case dial W ip port False of
        None \<Rightarrow> info
      | Some p \<Rightarrow>
          let buf = Read (p []) (MaxBanner f)
          in if 0 < length buf then info\<lparr>Banner := sanitizeBanner buf\<rparr>
             else info\<lparr>Banner := ''MongoDB''\<rparr>)"

definition fingerprintPort :: "Fingerprinter \<Rightarrow> params \<Rightarrow> world \<Rightarrow> string \<Rightarrow> int \<Rightarrow> ServiceInfo" where
  "fingerprintPort f L W ip port =
     (let info =
        (if port = 21 then probeFTP f L W ip port
         else if port = 22 then probeSSH f W ip port
         else if port = 23 then probeTelnet f W ip port
         else if port = 25 \<or> port = 465 \<or> port = 587 then probeSMTP f L W ip port
         else if port = 80 \<or> port = 8080 \<or> port = 8000 \<or> port = 8888
           then probeHTTP f L W ip port False
         else if port = 443 \<or> port = 8443 then probeHTTP f L W ip port True
         else if port = 110 then probePOP3 f L W ip port
         else if port = 143 then probeIMAP f L W ip port
         else if port = 3306 then probeMySQL f W ip port
         else if port = 5432 then probePostgreSQL f W ip port
         else if port = 6379 then probeRedis f L W ip port
         else if port = 27017 then probeMongoDB f W ip port
         else probeGeneric f W ip port);
          info = (if ServiceName info = [] \<and> Banner info \<noteq> []
                  then info\<lparr>ServiceName := guessServiceFromBanner L (Banner info) port\<rparr>
                  else info);
          info = (if ServiceName info = [] then info\<lparr>ServiceName := getDefaultServiceName port\<rparr>
                  else info)
      in info)"

subsection \<open>FingerprintHost and the context\<close>

text \<open>
  A \<open>context.Context\<close> is looked at by \<open>select\<close> on \<open>ctx.Done()\<close> and by
  \<open>ctx.Err()\<close>. Once cancelled it stays cancelled, so all a run can see of it is the
  number of looks that still find it live: \<open>None\<close> is a context that is never cancelled
  during the run, \<open>Some n\<close> one that is found cancelled from look number \<open>n\<close> on.
\<close>

type_synonym ctx = "nat option"

definition Done :: "ctx \<Rightarrow> bool" where
  "Done c = (c = Some 0)"

definition later :: "ctx \<Rightarrow> ctx" where
  "later c = (case c of None \<Rightarrow> None | Some n \<Rightarrow> Some (n - 1))"

text \<open>The loop of \<open>FingerprintHost\<close> is the same in both fingerprinters: before each
  port the context is looked at; when it is done the results so far are returned.\<close>

fun host_loop ::
  "(int \<Rightarrow> ServiceInfo) \<Rightarrow> ctx \<Rightarrow> int list \<Rightarrow> (int \<rightharpoonup> ServiceInfo) \<Rightarrow> (int \<rightharpoonup> ServiceInfo)" where
  "host_loop fp c [] results = results"
| "host_loop fp c (port # ports) results =
     (if Done c then results
      else host_loop fp (later c) ports (results(port \<mapsto> fp port)))"

definition FingerprintHost ::
  "Fingerprinter \<Rightarrow> params \<Rightarrow> world \<Rightarrow> ctx \<Rightarrow> string \<Rightarrow> int list \<Rightarrow> (int \<rightharpoonup> ServiceInfo)" where
  "FingerprintHost f L W c ip ports = host_loop (fingerprintPort f L W ip) c ports Map.empty"

section \<open>The delegated grabber (scanner/scanner/zgrab.go)\<close>

record ZgrabFingerprinter =
  zTimeout :: nat
  zMaxBanner :: nat
  Fallback :: Fingerprinter

definition NewZgrabFingerprinter :: ZgrabFingerprinter where
  "NewZgrabFingerprinter = \<lparr>zTimeout = 10, zMaxBanner = 4096, Fallback = NewFingerprinter\<rparr>"

definition getZgrabModule :: "int \<Rightarrow> string" where
  "getZgrabModule port =
     (if port = 21 then ''ftp''
      else if port = 22 then ''ssh''
      else if port = 23 then ''telnet''
      else if port = 25 \<or> port = 465 \<or> port = 587 then ''smtp''
      else if port = 80 \<or> port = 8080 \<or> port = 8000 \<or> port = 8888 then ''http''
      else if port = 110 \<or> port = 995 then ''pop3''
      else if port = 143 \<or> port = 993 then ''imap''
      else if port = 443 \<or> port = 8443 then ''http''
      else if port = 3306 then ''mysql''
      else if port = 5432 then ''postgres''
      else if port = 6379 then ''redis''
      else if port = 27017 then ''mongodb''
      else ''banner'')"

text \<open>\<open>fmt.Sprintf("%d", port)\<close> and \<open>strconv.Itoa\<close>.\<close>

definition Itoa :: "int \<Rightarrow> string" where
  "Itoa i = (if i < 0 then ''-'' @ decimal (nat (- i)) else decimal (nat i))"

text \<open>The arguments \<open>fingerprintPort\<close> builds for zgrab2.\<close>

definition zgrab_args :: "string \<Rightarrow> int \<Rightarrow> string list" where
  "zgrab_args module port =
     [module, ''-p'', Itoa port] @
     (if module = ''http'' then
        (if port = 443 \<or> port = 8443 then [''--use-https''] else []) @ [''--max-redirects'', ''3'']
      else if module = ''smtp'' then
        [''--send-ehlo'', ''--ehlo-domain'', ''scanner.local''] @
        (if port = 465 then [''--smtps''] else [''--starttls''])
      else if module = ''ftp'' then [''--authtls'']
      else if module = ''imap'' then (if port = 993 then [''--imaps''] else [''--starttls''])
      else if module = ''pop3'' then (if port = 995 then [''--pop3s''] else [''--starttls''])
      else if module = ''banner'' then [''--probe'', [CHR 0x5C] @ ''x00'', ''--max-read-size'', ''4096'']
      else [])"

text \<open>
  \<open>runZgrab\<close> runs zgrab2 with the address on its standard input, under the context and
  the fingerprinter's timeout (a run that is cancelled or times out is a run that did not
  exit well). It fails when the run fails and when the output is not the JSON of a
  \<open>ZgrabResult\<close>.
\<close>

datatype zgrab_error = zgrab2_error string | failed_to_parse_zgrab2_output

definition runZgrab ::
  "params \<Rightarrow> world \<Rightarrow> string \<Rightarrow> string list \<Rightarrow> zgrab_error + ZgrabResult" where
  "runZgrab L W ip args =
     (let cmd = zgrab2 W ip args in
      if \<not> exited_ok cmd then Inl (zgrab2_error (stderr cmd))
      else case Unmarshal L (stdout cmd) of
             None \<Rightarrow> Inl failed_to_parse_zgrab2_output
           | Some result \<Rightarrow> Inr result)"

subsection \<open>Helpers of parseZgrabResult\<close>

text \<open>
  A step of the program that panics is a value of the model: the panics that the code
  between the start of \<open>FingerprintHost\<close> and its return can raise are the dereference of
  a \<open>nil\<close> pointer and a slice expression out of range. A function that can panic returns
  \<open>Inl\<close> of the panic, or \<open>Inr\<close> of its result.
\<close>

datatype panic = nil_pointer_dereference | slice_bounds_out_of_range

text \<open>\<open>m[key] = v\<close> on a map, and \<open>info.Fingerprint[key] = v\<close>; \<open>parseZgrabResult\<close> and
  \<open>extractTLSInfo\<close> assign only to the map that \<open>parseZgrabResult\<close> made.\<close>

fun put :: "string \<Rightarrow> val \<Rightarrow> (string \<times> val) list \<Rightarrow> (string \<times> val) list" where
  "put key v [] = [(key, v)]"
| "put key v ((k, w) # m) = (if k = key then (key, v) # m else (k, w) # put key v m)"

definition assign :: "string \<Rightarrow> val \<Rightarrow> ServiceInfo \<Rightarrow> ServiceInfo" where
  "assign key v info =
     info\<lparr>Fingerprint := Some (put key v (case Fingerprint info of None \<Rightarrow> [] | Some m \<Rightarrow> m))\<rparr>"

text \<open>\<open>strings.Split\<close> with a separator of one byte (the code passes \<open>"\n"\<close>), and
  \<open>strings.TrimPrefix\<close>.\<close>

fun Split :: "string \<Rightarrow> char \<Rightarrow> string list" where
  "Split [] sep = [[]]"
| "Split (c # s) sep =
     (if c = sep then [] # Split s sep
      else case Split s sep of
             piece # pieces \<Rightarrow> (c # piece) # pieces
           | [] \<Rightarrow> [[c]])"

definition TrimPrefix :: "string \<Rightarrow> string \<Rightarrow> string" where
  "TrimPrefix s prefix = (if HasPrefix s prefix then drop (length prefix) s else s)"

text \<open>
  \<open>extractTitle\<close> looks for the tags in the lower-case copy of the body and cuts the
  body itself at the positions found there: \<open>html[start : start+end]\<close> panics when
  \<open>start+end\<close> is beyond the end of \<open>html\<close>, and the lower-case copy of a string can be
  longer than the string.
\<close>

definition extractTitle :: "params \<Rightarrow> string \<Rightarrow> panic + string" where
  "extractTitle L html =
     (let lower = ToLower L html in
      case Index lower ''<title>'' of
        None \<Rightarrow> Inr []
      | Some start \<Rightarrow>
          let start = start + 7 in
          case Index (drop start lower) ''</title>'' of
            None \<Rightarrow> Inr []
          | Some stop \<Rightarrow>
              if length html < start + stop then Inl slice_bounds_out_of_range
              else Inr (TrimSpace (take stop (drop start html))))"

definition parseEHLOCapabilities :: "params \<Rightarrow> string \<Rightarrow> string list" where
  "parseEHLOCapabilities L ehlo =
     concat (map (\<lambda>line.
       let line = TrimSpace line in
       if 4 < length line \<and> (line ! 3 = CHR ''-'' \<or> line ! 3 = CHR '' '') then
         (let cap = TrimSpace (drop 4 line) in
          if cap \<noteq> [] \<and> \<not> HasPrefix (ToLower L cap) ''250'' then [cap] else [])
       else []) (Split ehlo (CHR 0x0A)))"

definition extractRedisVersion :: "string \<Rightarrow> string" where
  "extractRedisVersion info =
     (case find (\<lambda>line. HasPrefix line ''redis_version:'') (Split info (CHR 0x0A)) of
        Some line \<Rightarrow> TrimPrefix line ''redis_version:''
      | None \<Rightarrow> [])"

text \<open>\<open>extractTLSInfo\<close>. The map \<open>certInfo\<close> is stored also when it is empty, and the
  length of the chain only when there is a certificate.\<close>

definition certInfo :: "ParsedCert \<Rightarrow> (string \<times> val) list" where
  "certInfo p =
     (let m = [];
          m = (case Subject p of
                 Some dn \<Rightarrow> if 0 < length (CommonName dn)
                           then put ''subject_cn'' (VString (CommonName dn ! 0)) m else m
               | None \<Rightarrow> m);
          m = (case Issuer p of
                 Some dn \<Rightarrow> if 0 < length (CommonName dn)
                           then put ''issuer_cn'' (VString (CommonName dn ! 0)) m else m
               | None \<Rightarrow> m);
          m = (if ValidityNotBefore p \<noteq> [] then put ''valid_from'' (VString (ValidityNotBefore p)) m
               else m);
          m = (if ValidityNotAfter p \<noteq> [] then put ''valid_until'' (VString (ValidityNotAfter p)) m
               else m);
          m = (case SubjectAltNames p of
                 Some san \<Rightarrow> if 0 < length (DNSNames san)
                            then put ''san_dns'' (VStrings (DNSNames san)) m else m
               | None \<Rightarrow> m);
          m = (if SignatureAlgorithm p \<noteq> []
               then put ''signature_algorithm'' (VString (SignatureAlgorithm p)) m else m)
      in m)"

definition extractTLSInfo :: "ServiceInfo \<Rightarrow> TLSLog option \<Rightarrow> ServiceInfo" where
  "extractTLSInfo info tls =
     (case tls of
        None \<Rightarrow> info
      | Some tlsLog \<Rightarrow>
          (case HandshakeLog tlsLog of
             None \<Rightarrow> info
           | Some hl \<Rightarrow>
               let tlsInfo = [];
                   tlsInfo = (case ServerHello hl of
                                Some hello \<Rightarrow>
                                  put ''cipher_suite'' (VInt (uint (CipherSuite hello)))
                                    (put ''version'' (VInt (uint (hello_Version hello))) tlsInfo)
                              | None \<Rightarrow> tlsInfo);
                   tlsInfo = (case ServerCertificates hl of
                                None \<Rightarrow> tlsInfo
                              | Some certs \<Rightarrow>
                                  (case Certificate certs of
                                     None \<Rightarrow> tlsInfo
                                   | Some cert \<Rightarrow>
                                       let tlsInfo = (case Parsed cert of
                                                        Some p \<Rightarrow> put ''certificate'' (VMap (certInfo p)) tlsInfo
                                                      | None \<Rightarrow> tlsInfo)
                                       in case Chain certs of
                                            Some cs \<Rightarrow> put ''chain_length'' (VInt (int (length cs))) tlsInfo
                                          | None \<Rightarrow> tlsInfo))
               in if 0 < length tlsInfo then assign ''tls'' (VMap tlsInfo) info else info))"

subsection \<open>The cases of the switch of parseZgrabResult\<close>

text \<open>Each case decodes the result of the module and, when that gives no error, copies
  fields into the ServiceInfo. Only the case of \<open>http\<close> can panic.\<close>

definition case_http :: "params \<Rightarrow> ZgrabModule \<Rightarrow> int \<Rightarrow> ServiceInfo \<Rightarrow> panic + ServiceInfo" where
  "case_http L modResult port info =
     (case Unmarshal_HTTPResult L (Result modResult) of
        None \<Rightarrow> Inr info
      | Some httpRes \<Rightarrow>
          (case Response httpRes of
             None \<Rightarrow> Inr info
           | Some resp \<Rightarrow>
               let info = info\<lparr>ServiceName := (if port = 443 \<or> port = 8443 then ''https'' else ''http'')\<rparr>;
                   info = (if 0 < http_StatusCode resp
                           then assign ''status_code'' (VInt (http_StatusCode resp)) info
                           else info);
                   info = (if StatusLine resp \<noteq> [] then info\<lparr>Banner := StatusLine resp\<rparr> else info);
                   info = (case Headers resp of
                             None \<Rightarrow> info
                           | Some headers \<Rightarrow>
                               let info = (case map_of headers ''server'' of
                                             Some server \<Rightarrow> info\<lparr>ServiceVersion := server\<rparr>
                                           | None \<Rightarrow> info)
                               in assign ''headers'' (VMap (map (\<lambda>(k, v). (k, VString v)) headers)) info)
               in if Body resp \<noteq> [] then
                    (case extractTitle L (Body resp) of
                       Inl p \<Rightarrow> Inl p
                     | Inr title \<Rightarrow>
                         Inr (if title \<noteq> [] then assign ''title'' (VString title) info else info))
                  else Inr info))"

definition case_smtp :: "params \<Rightarrow> ZgrabModule \<Rightarrow> ServiceInfo \<Rightarrow> ServiceInfo" where
  "case_smtp L modResult info =
     (case Unmarshal_SMTPResult L (Result modResult) of
        None \<Rightarrow> info
      | Some smtpRes \<Rightarrow>
          let info = info\<lparr>ServiceName := ''smtp''\<rparr>;
              info = (if smtp_Banner smtpRes \<noteq> []
                      then info\<lparr>Banner := sanitizeBanner (smtp_Banner smtpRes),
                                ServiceVersion := extractVersion L (smtp_Banner smtpRes)\<rparr>
                      else info);
              info = (if EHLO smtpRes \<noteq> [] then
                        (let info = assign ''ehlo'' (VString (EHLO smtpRes)) info;
                             caps = parseEHLOCapabilities L (EHLO smtpRes)
                         in if 0 < length caps then assign ''capabilities'' (VStrings caps) info
                            else info)
                      else info);
              info = (if smtp_StartTLS smtpRes \<noteq> [] then assign ''starttls'' (VBool True) info
                      else info)
          in extractTLSInfo info (smtp_TLS smtpRes))"

definition case_ftp :: "params \<Rightarrow> ZgrabModule \<Rightarrow> ServiceInfo \<Rightarrow> ServiceInfo" where
  "case_ftp L modResult info =
     (case Unmarshal_FTPResult L (Result modResult) of
        None \<Rightarrow> info
      | Some ftpRes \<Rightarrow>
          let info = info\<lparr>ServiceName := ''ftp''\<rparr>;
              info = (if ftp_Banner ftpRes \<noteq> []
                      then info\<lparr>Banner := sanitizeBanner (ftp_Banner ftpRes),
                                ServiceVersion := extractVersion L (ftp_Banner ftpRes)\<rparr>
                      else info);
              info = (if AuthTLS ftpRes \<noteq> [] then assign ''auth_tls'' (VBool True) info else info)
          in extractTLSInfo info (ftp_TLS ftpRes))"

definition case_ssh :: "params \<Rightarrow> ZgrabModule \<Rightarrow> ServiceInfo \<Rightarrow> ServiceInfo" where
  "case_ssh L modResult info =
     (case Unmarshal_SSHResult L (Result modResult) of
        None \<Rightarrow> info
      | Some sshRes \<Rightarrow>
          let info = info\<lparr>ServiceName := ''ssh''\<rparr>;
              info = (case ServerID sshRes of
                        None \<Rightarrow> info
                      | Some sid \<Rightarrow>
                          let info = (if ssh_Raw sid \<noteq> [] then info\<lparr>Banner := sanitizeBanner (ssh_Raw sid)\<rparr>
                                      else info);
                              info = (if SoftwareVersion sid \<noteq> []
                                      then info\<lparr>ServiceVersion := SoftwareVersion sid\<rparr> else info)
                          in if ssh_Version sid \<noteq> []
                             then assign ''protocol_version'' (VString (ssh_Version sid)) info
                             else info)
          in case AlgorithmSelection sshRes of
               Some algorithms \<Rightarrow> assign ''algorithms'' (VMap algorithms) info
             | None \<Rightarrow> info)"

definition case_mysql :: "params \<Rightarrow> ZgrabModule \<Rightarrow> ServiceInfo \<Rightarrow> ServiceInfo" where
  "case_mysql L modResult info =
     (case Unmarshal_MySQLResult L (Result modResult) of
        None \<Rightarrow> info
      | Some mysqlRes \<Rightarrow>
          let info = info\<lparr>ServiceName := ''mysql''\<rparr>;
              info = (if ServerVersion mysqlRes \<noteq> []
                      then info\<lparr>ServiceVersion := ServerVersion mysqlRes,
                                Banner := ''MySQL '' @ ServerVersion mysqlRes\<rparr>
                      else info);
              info = (if 0 < ProtocolVersion mysqlRes
                      then assign ''protocol_version'' (VInt (ProtocolVersion mysqlRes)) info
                      else info);
              info = (if AuthPluginName mysqlRes \<noteq> []
                      then assign ''auth_plugin'' (VString (AuthPluginName mysqlRes)) info
                      else info)
          in extractTLSInfo info (mysql_TLS mysqlRes))"

definition case_postgres :: "params \<Rightarrow> ZgrabModule \<Rightarrow> ServiceInfo \<Rightarrow> ServiceInfo" where
  "case_postgres L modResult info =
     (case Unmarshal_PostgresResult L (Result modResult) of
        None \<Rightarrow> info
      | Some pgRes \<Rightarrow>
          let info = info\<lparr>ServiceName := ''postgresql''\<rparr>;
              info = (if IsSSL pgRes
                      then assign ''ssl_supported'' (VBool True)
                             (info\<lparr>Banner := ''PostgreSQL (SSL supported)''\<rparr>)
                      else info\<lparr>Banner := ''PostgreSQL''\<rparr>);
              info = (if SupportedVersions pgRes \<noteq> []
                      then assign ''supported_versions'' (VString (SupportedVersions pgRes)) info
                      else info)
          in extractTLSInfo info (postgres_TLS pgRes))"

definition case_redis :: "params \<Rightarrow> ZgrabModule \<Rightarrow> ServiceInfo \<Rightarrow> ServiceInfo" where
  "case_redis L modResult info =
     (case Unmarshal_RedisResult L (Result modResult) of
        None \<Rightarrow> info
      | Some redisRes \<Rightarrow>
          let info = info\<lparr>ServiceName := ''redis''\<rparr>;
              info = (if AuthRequired redisRes
                      then assign ''auth_required'' (VBool True)
                             (info\<lparr>Banner := ''Redis (authentication required)''\<rparr>)
                      else info\<lparr>Banner := ''Redis''\<rparr>)
          in if Info redisRes \<noteq> [] then
               (let version = extractRedisVersion (Info redisRes)
                in if version \<noteq> [] then info\<lparr>ServiceVersion := version\<rparr> else info)
             else info)"

definition case_imap :: "params \<Rightarrow> ZgrabModule \<Rightarrow> ServiceInfo \<Rightarrow> ServiceInfo" where
  "case_imap L modResult info =
     (case Unmarshal_IMAPResult L (Result modResult) of
        None \<Rightarrow> info
      | Some imapRes \<Rightarrow>
          let info = info\<lparr>ServiceName := ''imap''\<rparr>;
              info = (if imap_Banner imapRes \<noteq> []
                      then info\<lparr>Banner := sanitizeBanner (imap_Banner imapRes),
                                ServiceVersion := extractVersion L (imap_Banner imapRes)\<rparr>
                      else info);
              info = (if imap_StartTLS imapRes \<noteq> [] then assign ''starttls'' (VBool True) info
                      else info)
          in extractTLSInfo info (imap_TLS imapRes))"

definition case_pop3 :: "params \<Rightarrow> ZgrabModule \<Rightarrow> ServiceInfo \<Rightarrow> ServiceInfo" where
  "case_pop3 L modResult info =
     (case Unmarshal_POP3Result L (Result modResult) of
        None \<Rightarrow> info
      | Some pop3Res \<Rightarrow>
          let info = info\<lparr>ServiceName := ''pop3''\<rparr>;
              info = (if pop3_Banner pop3Res \<noteq> []
                      then info\<lparr>Banner := sanitizeBanner (pop3_Banner pop3Res),
                                ServiceVersion := extractVersion L (pop3_Banner pop3Res)\<rparr>
                      else info);
              info = (if pop3_StartTLS pop3Res \<noteq> [] then assign ''starttls'' (VBool True) info
                      else info)
          in extractTLSInfo info (pop3_TLS pop3Res))"

definition case_telnet :: "params \<Rightarrow> ZgrabModule \<Rightarrow> ServiceInfo \<Rightarrow> ServiceInfo" where
  "case_telnet L modResult info =
     (case Unmarshal_TelnetResult L (Result modResult) of
        None \<Rightarrow> info
      | Some telnetRes \<Rightarrow>
          let info = info\<lparr>ServiceName := ''telnet''\<rparr>
          in if telnet_Banner telnetRes \<noteq> []
             then info\<lparr>Banner := sanitizeBanner (telnet_Banner telnetRes)\<rparr>
             else info)"

text \<open>The case of \<open>banner\<close> decodes into a \<open>map[string]interface{}\<close> and uses the value
  of \<open>banner\<close> when it is a string.\<close>

definition case_banner :: "params \<Rightarrow> ZgrabModule \<Rightarrow> int \<Rightarrow> ServiceInfo \<Rightarrow> ServiceInfo" where
  "case_banner L modResult port info =
     (case Unmarshal_map L (Result modResult) of
        None \<Rightarrow> info
      | Some bannerRes \<Rightarrow>
          (case map_of bannerRes ''banner'' of
             Some (VString banner) \<Rightarrow>
               if banner \<noteq> []
               then info\<lparr>Banner := sanitizeBanner banner,
                         ServiceName := guessServiceFromBanner L banner port\<rparr>
               else info
           | _ \<Rightarrow> info))"

subsection \<open>parseZgrabResult, fingerprintPort and FingerprintHost\<close>

text \<open>
  \<open>parseZgrabResult\<close> starts from a ServiceInfo with an empty map that is not \<open>nil\<close>.
  The test \<open>!ok || modResult.Status != "success"\<close> reads the status through the pointer
  whenever the key is there: on a key with the \<open>nil\<close> pointer it panics. When the output
  has no entry for the module, or the module did not succeed, the ServiceInfo is returned
  as it is. Otherwise the status and the protocol are recorded and the switch on the
  module fills in the rest; a module without a case (\<open>mongodb\<close>) gets nothing more.
\<close>

definition parseZgrabResult :: "params \<Rightarrow> ZgrabResult \<Rightarrow> string \<Rightarrow> int \<Rightarrow> panic + ServiceInfo" where
  "parseZgrabResult L result module port =
     (let info = no_info\<lparr>Fingerprint := Some []\<rparr> in
      case map_of (Data result) module of
        None \<Rightarrow> Inr info
      | Some None \<Rightarrow> Inl nil_pointer_dereference
      | Some (Some modResult) \<Rightarrow>
          if Status modResult \<noteq> ''success'' then Inr info
          else
            let info = assign ''zgrab_status'' (VString (Status modResult)) info;
                info = assign ''protocol'' (VString module) info
            in if module = ''http'' then case_http L modResult port info
               else if module = ''smtp'' then Inr (case_smtp L modResult info)
               else if module = ''ftp'' then Inr (case_ftp L modResult info)
               else if module = ''ssh'' then Inr (case_ssh L modResult info)
               else if module = ''mysql'' then Inr (case_mysql L modResult info)
               else if module = ''postgres'' then Inr (case_postgres L modResult info)
               else if module = ''redis'' then Inr (case_redis L modResult info)
               else if module = ''imap'' then Inr (case_imap L modResult info)
               else if module = ''pop3'' then Inr (case_pop3 L modResult info)
               else if module = ''telnet'' then Inr (case_telnet L modResult info)
               else if module = ''banner'' then Inr (case_banner L modResult port info)
               else Inr info)"

text \<open>\<open>ZgrabFingerprinter.fingerprintPort\<close> falls back to the native prober when
  \<open>runZgrab\<close> returns an error, and only then. A panic of \<open>parseZgrabResult\<close> is a panic
  of the call.\<close>

definition zgrab_fingerprintPort ::
  "ZgrabFingerprinter \<Rightarrow> params \<Rightarrow> world \<Rightarrow> string \<Rightarrow> int \<Rightarrow> panic + ServiceInfo" where
  "zgrab_fingerprintPort z L W ip port =
     (let module = getZgrabModule port;
          args = zgrab_args module port
      in case runZgrab L W ip args of
           Inl err \<Rightarrow> Inr (fingerprintPort (Fallback z) L W ip port)
         | Inr result \<Rightarrow>
             (case parseZgrabResult L result module port of
                Inl p \<Rightarrow> Inl p
              | Inr info \<Rightarrow>
                  Inr (if ServiceName info = [] then info\<lparr>ServiceName := getDefaultServiceName port\<rparr>
                       else info)))"

text \<open>\<open>ZgrabFingerprinter.FingerprintHost\<close>: the loop of the native \<open>FingerprintHost\<close>,
  with a call for each port that can panic; a panic ends the loop and no map is
  returned.\<close>

fun zgrab_host_loop ::
  "(int \<Rightarrow> panic + ServiceInfo) \<Rightarrow> ctx \<Rightarrow> int list \<Rightarrow> (int \<rightharpoonup> ServiceInfo) \<Rightarrow>
   panic + (int \<rightharpoonup> ServiceInfo)" where
  "zgrab_host_loop fp c [] results = Inr results"
| "zgrab_host_loop fp c (port # ports) results =
     (if Done c then Inr results
      else case fp port of
             Inl p \<Rightarrow> Inl p
           | Inr info \<Rightarrow> zgrab_host_loop fp (later c) ports (results(port \<mapsto> info)))"

definition zgrab_FingerprintHost ::
  "ZgrabFingerprinter \<Rightarrow> params \<Rightarrow> world \<Rightarrow> ctx \<Rightarrow> string \<Rightarrow> int list \<Rightarrow>
   panic + (int \<rightharpoonup> ServiceInfo)" where
  "zgrab_FingerprintHost z L W c ip ports =
     zgrab_host_loop (zgrab_fingerprintPort z L W ip) c ports Map.empty"

subsection \<open>Notions used to state the properties of the fingerprinters\<close>

text \<open>The number of ports \<open>FingerprintHost\<close> gets to before the context is done; the
  name a protocol probe gives a port; a network on which no dial succeeds and zgrab2
  fails; and a network with one SSH server at 10.0.0.1, on a machine without zgrab2.\<close>

definition processed :: "ctx \<Rightarrow> 'a list \<Rightarrow> nat" where
  "processed c ports = (case c of None \<Rightarrow> length ports | Some n \<Rightarrow> min n (length ports))"

definition probe_name :: "int \<Rightarrow> string" where
  "probe_name port =
     (if port = 465 \<or> port = 587 then ''smtp''
      else if port = 8080 \<or> port = 8000 \<or> port = 8888 then ''http''
      else if port = 8443 then ''https''
      else getDefaultServiceName port)"

definition unreachable :: world where
  "unreachable =
     \<lparr>dial = (\<lambda>ip port tls. None),
      zgrab2 = (\<lambda>ip args. \<lparr>exited_ok = False, stdout = [], stderr = ''no route to host''\<rparr>)\<rparr>"

definition ssh_host :: world where
  "ssh_host =
     \<lparr>dial = (\<lambda>ip port tls.
        if ip = ''10.0.0.1'' \<and> port = 22 \<and> \<not> tls
        then Some (\<lambda>requests. \<lparr>chunks = [''SSH-2.0-OpenSSH_9.0'' @ crlf], final = EOF\<rparr>)
        else None),
      zgrab2 = (\<lambda>ip args. \<lparr>exited_ok = False, stdout = [], stderr = ''executable file not found''\<rparr>)\<rparr>"

subsection \<open>Notions used to state the properties of the delegated fingerprinter\<close>

text \<open>
  The run of zgrab2 that \<open>fingerprintPort\<close> starts for a port. The decoding of a module's
  result fails when \<open>json.Unmarshal\<close> into the type of the module's case returns an
  error. \<open>plain port fp\<close> is the ServiceInfo that carries nothing but the default name of
  the port and the map \<open>fp\<close>.
\<close>

definition zgrab_run :: "world \<Rightarrow> string \<Rightarrow> int \<Rightarrow> process" where
  "zgrab_run W ip port = zgrab2 W ip (zgrab_args (getZgrabModule port) port)"


definition plain :: "int \<Rightarrow> (string \<times> val) list \<Rightarrow> ServiceInfo" where
  "plain port fp =
     \<lparr>ServiceName = getDefaultServiceName port, ServiceVersion = [], Banner = [],
      Fingerprint = Some fp\<rparr>"

text \<open>
  Three outputs of zgrab2 for the SSH server at 10.0.0.1: the grab timed out; the grab
  succeeded with a result that is a JSON string, not an object; the entry of the module
  is \<open>null\<close>. \<open>json L\<close> decodes them as \<open>json.Unmarshal\<close> does and is \<open>L\<close> elsewhere.
  \<open>grabbed out\<close> is the network \<open>ssh_host\<close> on a machine where zgrab2 runs and prints \<open>out\<close>.
\<close>

definition timeout_output :: string where
  \<open>timeout_output =
     ''{"ip":"10.0.0.1","data":{"ssh":{"status":"io-timeout","protocol":"ssh","error":"i/o timeout"}}}''\<close>

definition undecodable_output :: string where
  \<open>undecodable_output =
     ''{"ip":"10.0.0.1","data":{"ssh":{"status":"success","protocol":"ssh","result":"none"}}}''\<close>

definition null_output :: string where
  \<open>null_output = ''{"ip":"10.0.0.1","data":{"ssh":null}}''\<close>

definition json :: "params \<Rightarrow> params" where
  \<open>json L =
     L\<lparr>Unmarshal := (\<lambda>s.
          if s = timeout_output then
            Some \<lparr>result_IP = ''10.0.0.1'', Domain = [],
                  Data = [(''ssh'', Some \<lparr>Status = ''io-timeout'', Protocol = ''ssh'', Timestamp = [],
                                          Result = [], Error = ''i/o timeout''\<rparr>)]\<rparr>
          else if s = undecodable_output then
            Some \<lparr>result_IP = ''10.0.0.1'', Domain = [],
                  Data = [(''ssh'', Some \<lparr>Status = ''success'', Protocol = ''ssh'', Timestamp = [],
                                          Result = ''"none"'', Error = []\<rparr>)]\<rparr>
          else if s = null_output then
            Some \<lparr>result_IP = ''10.0.0.1'', Domain = [], Data = [(''ssh'', None)]\<rparr>
          else Unmarshal L s),
        Unmarshal_SSHResult := (\<lambda>s. if s = ''"none"'' then None else Unmarshal_SSHResult L s)\<rparr>\<close>

definition grabbed :: "string \<Rightarrow> world" where
  "grabbed out =
     ssh_host\<lparr>zgrab2 := (\<lambda>ip args. \<lparr>exited_ok = True, stdout = out, stderr = []\<rparr>)\<rparr>"

section \<open>The native probe backend (scanner/scanner/tcp.go)\<close>

record ZmapResult =
  IP :: string
  Port :: int

text \<open>The rate is the capacity of the channel \<open>sem\<close>; \<open>NewTCPScanner\<close> replaces a rate
  or a timeout that is not positive by its default.\<close>

record TCPScanner =
  tcp_Networks :: "cidr list"
  tcp_Rate :: nat
  tcp_Timeout :: nat

definition NewTCPScanner :: "cidr list \<Rightarrow> int \<Rightarrow> int \<Rightarrow> TCPScanner" where
  "NewTCPScanner networks rate timeoutSecs =
     \<lparr>tcp_Networks = networks,
      tcp_Rate = nat (if rate \<le> 0 then 100 else rate),
      tcp_Timeout = nat (if timeoutSecs \<le> 0 then 5 else timeoutSecs)\<rparr>"

text \<open>The first loop of \<open>ScanPort\<close>: the addresses of all networks; a network that does
  not parse is skipped. An expansion that never returns leaves the whole call without a
  result.\<close>

fun collect_ips :: "(IP \<Rightarrow> string) \<Rightarrow> cidr list \<Rightarrow> string list option" where
  "collect_ips String [] = Some []"
| "collect_ips String (net # nets) =
     (case expandCIDR String net of
        None \<Rightarrow> None
      | Some (Inl err) \<Rightarrow> collect_ips String nets
      | Some (Inr ips) \<Rightarrow> map_option (\<lambda>rest. ips @ rest) (collect_ips String nets))"

text \<open>
  The second loop of \<open>ScanPort\<close> looks at the context before each address and returns
  at once when it is done; otherwise it takes a slot of \<open>sem\<close> and starts a goroutine that
  dials. \<open>dispatch\<close> gives the addresses that were dispatched, the context after the
  loop and whether the loop returned early.

  The goroutines append their successes to \<open>results\<close> in the order the scheduler lets
  them, and an early return reads \<open>results\<close> while goroutines may still run. Both are
  parameters: \<open>appended port ips\<close> is the order in which the successful addresses
  \<open>ips\<close> were appended, \<open>seen port ips\<close> those of them that were there at an early return.
\<close>

fun dispatch :: "ctx \<Rightarrow> string list \<Rightarrow> string list \<times> ctx \<times> bool" where
  "dispatch c [] = ([], c, False)"
| "dispatch c (ip # ips) =
     (if Done c then ([], c, True)
      else case dispatch (later c) ips of (d, c', cancelled) \<Rightarrow> (ip # d, c', cancelled))"

record schedule =
  appended :: "int \<Rightarrow> string list \<Rightarrow> string list"
  seen :: "int \<Rightarrow> string list \<Rightarrow> string list"

text \<open>\<open>ScanPort\<close>. With a channel of capacity 0 the first \<open>sem <- struct{}{}\<close> blocks for
  ever, as nothing receives from the channel before a goroutine was started.\<close>

definition ScanPort ::
  "TCPScanner \<Rightarrow> (IP \<Rightarrow> string) \<Rightarrow> world \<Rightarrow> schedule \<Rightarrow> ctx \<Rightarrow> int \<Rightarrow>
   ((ZmapResult list \<times> error option) \<times> ctx) option" where
  "ScanPort t String W sch c port =
     (case collect_ips String (tcp_Networks t) of
        None \<Rightarrow> None
      | Some allIPs \<Rightarrow>
          if allIPs = [] then Some (([], Some no_valid_IPs_to_scan), c)
          else if tcp_Rate t = 0 \<and> \<not> Done c then None
          else
            (case dispatch c allIPs of
               (d, c', cancelled) \<Rightarrow>
                 let opened = filter (\<lambda>ip. dial W ip port False \<noteq> None) d
                 in if cancelled
                    then Some ((map (\<lambda>ip. \<lparr>IP = ip, Port = port\<rparr>) (seen sch port opened),
                                Some context_error), c')
                    else Some ((map (\<lambda>ip. \<lparr>IP = ip, Port = port\<rparr>) (appended sch port opened),
                                None), c')))"

text \<open>\<open>results[r.IP] = append(results[r.IP], r.Port)\<close>, and the merge of the results of
  a batch, \<open>results[ip] = append(results[ip], ports...)\<close> for every key of the batch.\<close>

definition add_result :: "ZmapResult \<Rightarrow> (string \<rightharpoonup> int list) \<Rightarrow> (string \<rightharpoonup> int list)" where
  "add_result r results =
     results(IP r \<mapsto> (case results (IP r) of None \<Rightarrow> [] | Some ports \<Rightarrow> ports) @ [Port r])"

definition merge_results ::
  "(string \<rightharpoonup> int list) \<Rightarrow> (string \<rightharpoonup> int list) \<Rightarrow> (string \<rightharpoonup> int list)" where
  "merge_results results batch =
     (\<lambda>ip. case batch ip of
             None \<Rightarrow> results ip
           | Some ports \<Rightarrow> Some ((case results ip of None \<Rightarrow> [] | Some old \<Rightarrow> old) @ ports))"

text \<open>
  \<open>ScanPortsWithCallback\<close>: before each port the context is looked at; a port whose scan
  fails is skipped; the callback is called with the results of a port that are not empty.
  All the scan can notice of the callback is that it uses the context
  (\<open>submitResults\<close> of main.go calls \<open>FingerprintHost\<close>), so a callback is a function
  on the context.
\<close>

type_synonym PortScanCallback = "int \<Rightarrow> ZmapResult list \<Rightarrow> ctx \<Rightarrow> ctx"

fun scan_ports_loop ::
  "TCPScanner \<Rightarrow> (IP \<Rightarrow> string) \<Rightarrow> world \<Rightarrow> schedule \<Rightarrow> PortScanCallback option \<Rightarrow> ctx \<Rightarrow>
   int list \<Rightarrow> (string \<rightharpoonup> int list) \<Rightarrow> (((string \<rightharpoonup> int list) \<times> error option) \<times> ctx) option" where
  "scan_ports_loop t String W sch callback c [] results = Some ((results, None), c)"
| "scan_ports_loop t String W sch callback c (port # ports) results =
     (if Done c then Some ((results, Some context_error), c)
      else
        case ScanPort t String W sch (later c) port of
          None \<Rightarrow> None
        | Some ((portResults, err), c') \<Rightarrow>
            if err \<noteq> None then scan_ports_loop t String W sch callback c' ports results
            else
              let results = fold add_result portResults results;
                  c' = (case callback of
                          Some call \<Rightarrow> if 0 < length portResults then call port portResults c' else c'
                        | None \<Rightarrow> c')
              in scan_ports_loop t String W sch callback c' ports results)"

definition ScanPortsWithCallback ::
  "TCPScanner \<Rightarrow> (IP \<Rightarrow> string) \<Rightarrow> world \<Rightarrow> schedule \<Rightarrow> ctx \<Rightarrow> int list \<Rightarrow>
   PortScanCallback option \<Rightarrow> (((string \<rightharpoonup> int list) \<times> error option) \<times> ctx) option" where
  "ScanPortsWithCallback t String W sch c ports callback =
     scan_ports_loop t String W sch callback c ports Map.empty"

definition ScanPorts ::
  "TCPScanner \<Rightarrow> (IP \<Rightarrow> string) \<Rightarrow> world \<Rightarrow> schedule \<Rightarrow> ctx \<Rightarrow> int list \<Rightarrow>
   (((string \<rightharpoonup> int list) \<times> error option) \<times> ctx) option" where
  "ScanPorts t String W sch c ports = ScanPortsWithCallback t String W sch c ports None"

text \<open>\<open>ScanAllPorts\<close>: \<open>totalPorts\<close> is 65535 and \<open>batchSize\<close> 1000; the batches start
  at port 1. A batch whose scan returns an error is dropped.\<close>

definition totalPorts :: int where
  "totalPorts = 65535"

definition batchSize :: int where
  "batchSize = 1000"

definition batchPorts :: "int \<Rightarrow> int list" where
  "batchPorts batchStart =
     (let batchEnd = batchStart + batchSize - 1;
          batchEnd = (if batchEnd > totalPorts then totalPorts else batchEnd)
      in [batchStart..batchEnd])"

function scan_all_loop ::
  "TCPScanner \<Rightarrow> (IP \<Rightarrow> string) \<Rightarrow> world \<Rightarrow> schedule \<Rightarrow> ctx \<Rightarrow> int \<Rightarrow>
   (string \<rightharpoonup> int list) \<Rightarrow> (((string \<rightharpoonup> int list) \<times> error option) \<times> ctx) option" where
  "scan_all_loop t String W sch c batchStart results =
     (if batchStart \<le> totalPorts then
        (case ScanPorts t String W sch c (batchPorts batchStart) of
           None \<Rightarrow> None
         | Some ((batchResults, err), c') \<Rightarrow>
             if err \<noteq> None
             then scan_all_loop t String W sch c' (batchStart + batchSize) results
             else scan_all_loop t String W sch c' (batchStart + batchSize)
                    (merge_results results batchResults))
      else Some ((results, None), c))"
  by pat_completeness auto
termination
  by (relation "measure (\<lambda>(t, String, W, sch, c, batchStart, results). nat (totalPorts + 1 - batchStart))")
    (auto simp: batchSize_def)

declare scan_all_loop.simps [simp del]

definition ScanAllPorts ::
  "TCPScanner \<Rightarrow> (IP \<Rightarrow> string) \<Rightarrow> world \<Rightarrow> schedule \<Rightarrow> ctx \<Rightarrow>
   (((string \<rightharpoonup> int list) \<times> error option) \<times> ctx) option" where
  "ScanAllPorts t String W sch c = scan_all_loop t String W sch c 1 Map.empty"

section \<open>The delegated probe backend (scanner/scanner/zmap.go)\<close>

record ZmapScanner =
  zmap_Networks :: "string list"
  zmap_Rate :: int
  zmap_Timeout :: nat
  zmap_Interface :: string

definition NewZmapScanner :: "string list \<Rightarrow> int \<Rightarrow> int \<Rightarrow> ZmapScanner" where
  "NewZmapScanner networks rate timeoutSecs =
     \<lparr>zmap_Networks = networks,
      zmap_Rate = (if rate \<le> 0 then 10000 else rate),
      zmap_Timeout = nat (if timeoutSecs \<le> 0 then 5 else timeoutSecs),
      zmap_Interface = []\<rparr>"

text \<open>
  What happens when \<open>scanNetworkPort\<close> runs \<open>zmap\<close> on a network and a port is a value
  of the model: whether the two temporary files, the two pipes and the start of the
  process succeed, the results of the calls of \<open>reader.Read\<close> before it returns \<open>io.EOF\<close>
  (a record, or \<open>None\<close> for an error), the text of stderr, and whether \<open>cmd.Wait\<close>
  succeeds (it fails when the process exits with a status that is not 0). The rate and
  the interface on the command line are those of the scanner.
\<close>

record zmap_run =
  created_whitelist :: bool
  wrote_whitelist :: bool
  created_blacklist :: bool
  got_stdout_pipe :: bool
  got_stderr_pipe :: bool
  start_ok :: bool
  rows :: "string list option list"
  stderr_text :: string
  wait_ok :: bool

type_synonym zmap_env = "string \<Rightarrow> int \<Rightarrow> zmap_run"

text \<open>The loop that reads the records: an error is skipped, a record with a first field
  that is not empty gives a result.\<close>

fun read_rows :: "int \<Rightarrow> string list option list \<Rightarrow> ZmapResult list \<Rightarrow> ZmapResult list" where
  "read_rows port [] results = results"
| "read_rows port (None # rest) results = read_rows port rest results"
| "read_rows port (Some record # rest) results =
     read_rows port rest
       (if 0 < length record \<and> record ! 0 \<noteq> []
        then results @ [\<lparr>IP = TrimSpace (record ! 0), Port = port\<rparr>]
        else results)"

text \<open>\<open>scanNetworkPort\<close>. The first call of \<open>reader.Read\<close> is the header, whatever it
  returns. The context is looked at only when \<open>cmd.Wait\<close> fails.\<close>

definition scanNetworkPort ::
  "ZmapScanner \<Rightarrow> zmap_env \<Rightarrow> ctx \<Rightarrow> string \<Rightarrow> int \<Rightarrow> (ZmapResult list \<times> error option) \<times> ctx" where
  "scanNetworkPort z E c net port =
     (let run = E net port in
      if \<not> created_whitelist run then (([], Some failed_to_create_whitelist_file), c)
      else if \<not> wrote_whitelist run then (([], Some failed_to_write_whitelist), c)
      else if \<not> created_blacklist run then (([], Some failed_to_create_blacklist_file), c)
      else if \<not> got_stdout_pipe run then (([], Some failed_to_get_stdout_pipe), c)
      else if \<not> got_stderr_pipe run then (([], Some failed_to_get_stderr_pipe), c)
      else if \<not> start_ok run then (([], Some failed_to_start_zmap), c)
      else
        let results = read_rows port (drop 1 (rows run)) [];
            stderrStr = stderr_text run
        in if \<not> wait_ok run then
             (if Done c then ((results, Some context_error), later c)
              else if length results = 0 \<and> stderrStr \<noteq> []
                then (([], Some (zmap_failed stderrStr)), later c)
                else ((results, None), later c))
           else ((results, None), c))"

text \<open>\<open>ZmapScanner.ScanPort\<close>: a network whose scan fails is skipped.\<close>

fun zmap_ScanPort_loop ::
  "ZmapScanner \<Rightarrow> zmap_env \<Rightarrow> ctx \<Rightarrow> string list \<Rightarrow> int \<Rightarrow> ZmapResult list \<Rightarrow>
   (ZmapResult list \<times> error option) \<times> ctx" where
  "zmap_ScanPort_loop z E c [] port allResults = ((allResults, None), c)"
| "zmap_ScanPort_loop z E c (net # nets) port allResults =
     (case scanNetworkPort z E c net port of
        ((results, err), c') \<Rightarrow>
          if err \<noteq> None then zmap_ScanPort_loop z E c' nets port allResults
          else zmap_ScanPort_loop z E c' nets port (allResults @ results))"

definition zmap_ScanPort ::
  "ZmapScanner \<Rightarrow> zmap_env \<Rightarrow> ctx \<Rightarrow> int \<Rightarrow> (ZmapResult list \<times> error option) \<times> ctx" where
  "zmap_ScanPort z E c port = zmap_ScanPort_loop z E c (zmap_Networks z) port []"

text \<open>\<open>ZmapScanner.ScanPorts\<close>.\<close>

fun zmap_ScanPorts_loop ::
  "ZmapScanner \<Rightarrow> zmap_env \<Rightarrow> ctx \<Rightarrow> int list \<Rightarrow> (string \<rightharpoonup> int list) \<Rightarrow>
   ((string \<rightharpoonup> int list) \<times> error option) \<times> ctx" where
  "zmap_ScanPorts_loop z E c [] results = ((results, None), c)"
| "zmap_ScanPorts_loop z E c (port # ports) results =
     (if Done c then ((results, Some context_error), c)
      else
        case zmap_ScanPort z E (later c) port of
          ((portResults, err), c') \<Rightarrow>
            if err \<noteq> None then zmap_ScanPorts_loop z E c' ports results
            else zmap_ScanPorts_loop z E c' ports (fold add_result portResults results))"

definition zmap_ScanPorts ::
  "ZmapScanner \<Rightarrow> zmap_env \<Rightarrow> ctx \<Rightarrow> int list \<Rightarrow> ((string \<rightharpoonup> int list) \<times> error option) \<times> ctx" where
  "zmap_ScanPorts z E c ports = zmap_ScanPorts_loop z E c ports Map.empty"

text \<open>
  \<open>scanNetworkAllPorts\<close>: the loop over the ports of a batch,
  \<open>for port := batchStart; port <= batchEnd; port++\<close>, inside the loop over the batches.
  The inner loop returns from the function when the context is done; \<open>port_loop\<close> gives
  the results, the context and whether it returned.
\<close>

fun port_loop ::
  "ZmapScanner \<Rightarrow> zmap_env \<Rightarrow> string \<Rightarrow> ctx \<Rightarrow> int list \<Rightarrow> (string \<rightharpoonup> int list) \<Rightarrow>
   (string \<rightharpoonup> int list) \<times> ctx \<times> bool" where
  "port_loop z E net c [] results = (results, c, False)"
| "port_loop z E net c (port # ports) results =
     (if Done c then (results, c, True)
      else
        case scanNetworkPort z E (later c) net port of
          ((portResults, err), c') \<Rightarrow>
            if err \<noteq> None then port_loop z E net c' ports results
            else port_loop z E net c' ports (fold add_result portResults results))"

function batch_loop ::
  "ZmapScanner \<Rightarrow> zmap_env \<Rightarrow> string \<Rightarrow> ctx \<Rightarrow> int \<Rightarrow> (string \<rightharpoonup> int list) \<Rightarrow>
   ((string \<rightharpoonup> int list) \<times> error option) \<times> ctx" where
  "batch_loop z E net c batchStart results =
     (if batchStart \<le> totalPorts then
        (case port_loop z E net c (batchPorts batchStart) results of
           (results, c', returned) \<Rightarrow>
             if returned then ((results, Some context_error), c')
             else batch_loop z E net c' (batchStart + batchSize) results)
      else ((results, None), c))"
  by pat_completeness auto
termination
  by (relation "measure (\<lambda>(z, E, net, c, batchStart, results). nat (totalPorts + 1 - batchStart))")
    (auto simp: batchSize_def)

declare batch_loop.simps [simp del]

definition scanNetworkAllPorts ::
  "ZmapScanner \<Rightarrow> zmap_env \<Rightarrow> ctx \<Rightarrow> string \<Rightarrow> ((string \<rightharpoonup> int list) \<times> error option) \<times> ctx" where
  "scanNetworkAllPorts z E c net = batch_loop z E net c 1 Map.empty"

text \<open>\<open>ZmapScanner.ScanAllPorts\<close>: a network whose scan returns an error is skipped.\<close>

fun zmap_ScanAllPorts_loop ::
  "ZmapScanner \<Rightarrow> zmap_env \<Rightarrow> ctx \<Rightarrow> string list \<Rightarrow> (string \<rightharpoonup> int list) \<Rightarrow>
   ((string \<rightharpoonup> int list) \<times> error option) \<times> ctx" where
  "zmap_ScanAllPorts_loop z E c [] results = ((results, None), c)"
| "zmap_ScanAllPorts_loop z E c (net # nets) results =
     (case scanNetworkAllPorts z E c net of
        ((networkResults, err), c') \<Rightarrow>
          if err \<noteq> None then zmap_ScanAllPorts_loop z E c' nets results
          else zmap_ScanAllPorts_loop z E c' nets (merge_results results networkResults))"

definition zmap_ScanAllPorts ::
  "ZmapScanner \<Rightarrow> zmap_env \<Rightarrow> ctx \<Rightarrow> ((string \<rightharpoonup> int list) \<times> error option) \<times> ctx" where
  "zmap_ScanAllPorts z E c = zmap_ScanAllPorts_loop z E c (zmap_Networks z) Map.empty"

section \<open>Runs of zmap\<close>

text \<open>
  A run of \<open>zmap\<close> that exits with a status that is not 0: the files, the pipes and the
  start succeeded, and \<open>cmd.Wait\<close> fails. \<open>parsed\<close> are the addresses read from its
  output. \<open>killed\<close> is a run that printed one address and nothing on stderr before it
  ended with a status that is not 0, \<open>refused\<close> one that printed no address and a
  diagnostic.
\<close>

definition exits_nonzero :: "zmap_run \<Rightarrow> bool" where
  "exits_nonzero run \<longleftrightarrow>
     created_whitelist run \<and> wrote_whitelist run \<and> created_blacklist run \<and>
     got_stdout_pipe run \<and> got_stderr_pipe run \<and> start_ok run \<and> \<not> wait_ok run"

definition parsed :: "zmap_env \<Rightarrow> string \<Rightarrow> int \<Rightarrow> ZmapResult list" where
  "parsed E net port = read_rows port (drop 1 (rows (E net port))) []"

definition killed :: zmap_run where
  "killed = \<lparr>created_whitelist = True, wrote_whitelist = True, created_blacklist = True,
     got_stdout_pipe = True, got_stderr_pipe = True, start_ok = True,
     rows = [Some [''saddr''], Some [''10.0.0.5'']], stderr_text = [], wait_ok = False\<rparr>"

definition refused :: zmap_run where
  "refused = killed\<lparr>rows := [], stderr_text := ''zmap: could not open interface''\<rparr>"

section \<open>The goroutines of ScanPort\<close>

text \<open>
  The second loop of \<open>ScanPort\<close> and the goroutines it starts, as a transition system.
  The loop looks at the context, sends on the channel \<open>sem\<close> of capacity \<open>t.Rate\<close> and
  then starts a goroutine for the address. The goroutine calls \<open>net.DialTimeout\<close>,
  appends a result under the mutex when the dial succeeded, and receives from \<open>sem\<close>
  in a deferred call, that is on both ways out.

  The state holds the addresses not yet dispatched, whether the loop has sent on \<open>sem\<close>
  for the next address and not yet started its goroutine, the number of elements in
  \<open>sem\<close>, the goroutines that have not yet received from \<open>sem\<close> with the point they
  are at, the results, and whether the loop has returned because the context was done.
\<close>

datatype phase = Started | Dialing | Finished

record scan =
  remaining :: "string list"
  holding :: bool
  sem :: nat
  workers :: "(string \<times> phase) list"
  scan_results :: "ZmapResult list"
  left_loop :: bool

definition init_scan :: "string list \<Rightarrow> scan" where
  "init_scan allIPs =
     \<lparr>remaining = allIPs, holding = False, sem = 0, workers = [], scan_results = [],
      left_loop = False\<rparr>"

definition begin_dial :: "nat \<Rightarrow> scan \<Rightarrow> scan" where
  "begin_dial i s = s\<lparr>workers := (workers s)[i := (fst (workers s ! i), Dialing)]\<rparr>"

definition end_dial :: "world \<Rightarrow> int \<Rightarrow> nat \<Rightarrow> scan \<Rightarrow> scan" where
  "end_dial W port i s =
     (let targetIP = fst (workers s ! i)
      in s\<lparr>workers := (workers s)[i := (targetIP, Finished)],
            scan_results :=
              (if dial W targetIP port False \<noteq> None
               then scan_results s @ [\<lparr>IP = targetIP, Port = port\<rparr>]
               else scan_results s)\<rparr>)"

definition release :: "nat \<Rightarrow> scan \<Rightarrow> scan" where
  "release i s =
     s\<lparr>workers := take i (workers s) @ drop (Suc i) (workers s), sem := sem s - 1\<rparr>"

text \<open>A send on a channel that is full and a receive from a channel that is empty
  block: they are steps only when the channel has room, or an element.\<close>

inductive scan_step :: "nat \<Rightarrow> world \<Rightarrow> int \<Rightarrow> scan \<Rightarrow> scan \<Rightarrow> bool"
  for R :: nat and W :: world and port :: int where
  context_done:
    "\<not> left_loop s \<Longrightarrow> \<not> holding s \<Longrightarrow> remaining s \<noteq> [] \<Longrightarrow>
     scan_step R W port s (s\<lparr>left_loop := True\<rparr>)"
| acquire:
    "\<not> left_loop s \<Longrightarrow> \<not> holding s \<Longrightarrow> remaining s \<noteq> [] \<Longrightarrow> sem s < R \<Longrightarrow>
     scan_step R W port s (s\<lparr>holding := True, sem := sem s + 1\<rparr>)"
| go:
    "holding s \<Longrightarrow> remaining s = ip # ips \<Longrightarrow>
     scan_step R W port s
       (s\<lparr>remaining := ips, holding := False, workers := workers s @ [(ip, Started)]\<rparr>)"
| dial:
    "i < length (workers s) \<Longrightarrow> snd (workers s ! i) = Started \<Longrightarrow>
     scan_step R W port s (begin_dial i s)"
| dialed:
    "i < length (workers s) \<Longrightarrow> snd (workers s ! i) = Dialing \<Longrightarrow>
     scan_step R W port s (end_dial W port i s)"
| released:
    "i < length (workers s) \<Longrightarrow> snd (workers s ! i) = Finished \<Longrightarrow> 0 < sem s \<Longrightarrow>
     scan_step R W port s (release i s)"

inductive scan_run :: "nat \<Rightarrow> world \<Rightarrow> int \<Rightarrow> string list \<Rightarrow> scan \<Rightarrow> bool"
  for R :: nat and W :: world and port :: int and allIPs :: "string list" where
  start: "scan_run R W port allIPs (init_scan allIPs)"
| step: "scan_run R W port allIPs s \<Longrightarrow> scan_step R W port s s' \<Longrightarrow> scan_run R W port allIPs s'"

text \<open>The connection attempts in flight are the goroutines inside \<open>net.DialTimeout\<close>.\<close>

definition in_flight :: "scan \<Rightarrow> nat" where
  "in_flight s = length (filter (\<lambda>w. snd w = Dialing) (workers s))"

section \<open>A run of the goroutines\<close>

text \<open>A scanner with rate 1, and the state of its scan of two addresses in which the
  goroutine of the first address is inside \<open>net.DialTimeout\<close>.\<close>

definition one_at_a_time :: TCPScanner where
  "one_at_a_time = NewTCPScanner [] 1 0"

definition one_dialing :: scan where
  "one_dialing =
     \<lparr>remaining = [''10.0.0.2''], holding = False, sem = 1, workers = [(''10.0.0.1'', Dialing)],
      scan_results = [], left_loop = False\<rparr>"

section \<open>A host with every port open\<close>

text \<open>A network on which every dial succeeds, the schedule that appends the results in
  the order of the addresses, and a scanner of the single address 10.0.0.1.\<close>

definition all_open :: world where
  "all_open =
     \<lparr>dial = (\<lambda>ip port tls. Some (\<lambda>requests. \<lparr>chunks = [], final = EOF\<rparr>)),
      zgrab2 = (\<lambda>ip args. \<lparr>exited_ok = False, stdout = [], stderr = ''executable file not found''\<rparr>)\<rparr>"

definition in_order :: schedule where
  "in_order = \<lparr>appended = (\<lambda>port ips. ips), seen = (\<lambda>port ips. ips)\<rparr>"

definition one_host :: TCPScanner where
  "one_host = NewTCPScanner [\<lparr>addr = [10, 0, 0, 1], ones = 32\<rparr>] 0 0"

text \<open>
  The scan of all ports of the delegated backend without batches: for each network one
  loop over the ports 1 to 65535, port by port, and the same treatment of the networks as
  in \<open>ZmapScanner.ScanAllPorts\<close>.
\<close>

definition scan_network_one_by_one ::
  "ZmapScanner \<Rightarrow> zmap_env \<Rightarrow> ctx \<Rightarrow> string \<Rightarrow> ((string \<rightharpoonup> int list) \<times> error option) \<times> ctx" where
  "scan_network_one_by_one z E c net =
     (case port_loop z E net c [1..65535] Map.empty of
        (results, c', returned) \<Rightarrow>
          ((results, if returned then Some context_error else None), c'))"

fun one_by_one_loop ::
  "ZmapScanner \<Rightarrow> zmap_env \<Rightarrow> ctx \<Rightarrow> string list \<Rightarrow> (string \<rightharpoonup> int list) \<Rightarrow>
   ((string \<rightharpoonup> int list) \<times> error option) \<times> ctx" where
  "one_by_one_loop z E c [] results = ((results, None), c)"
| "one_by_one_loop z E c (net # nets) results =
     (case scan_network_one_by_one z E c net of
        ((networkResults, err), c') \<Rightarrow>
          if err \<noteq> None then one_by_one_loop z E c' nets results
          else one_by_one_loop z E c' nets (merge_results results networkResults))"

definition scan_all_ports_one_by_one ::
  "ZmapScanner \<Rightarrow> zmap_env \<Rightarrow> ctx \<Rightarrow> ((string \<rightharpoonup> int list) \<times> error option) \<times> ctx" where
  "scan_all_ports_one_by_one z E c = one_by_one_loop z E c (zmap_Networks z) Map.empty"

text \<open>A run of \<open>zmap\<close> that printed the address 10.0.0.5 and exited with status 0.\<close>

definition answered :: zmap_run where
  "answered = killed\<lparr>wait_ok := True\<rparr>"

text \<open>A delegated scanner of one network.\<close>

definition one_network :: ZmapScanner where
  "one_network = NewZmapScanner [''10.0.0.0/24''] 0 0"

chapter \<open>Properties\<close>

section \<open>The concurrency guard\<close>

lemma guard_invariant:
  "reachable s \<Longrightarrow> runs s = (if isScanning s then 1 else 0)"
proof (induction rule: reachable.induct)
  case start
  show ?case by (simp add: initial_def)
next
  case (request s m)
  then show ?case by (simp add: trigger_def)
next
  case (schedule s)
  then show ?case by (simp add: call_runScan_def)
next
  case (enter s)
  then show ?case by (simp add: runScan_enter_def)
next
  case (complete s now)
  then show ?case by (simp add: runScan_exit_def split: if_splits)
qed

text \<open>
  Claim C1. In every reachable state at most one scan run is in progress, and the flag is
  set exactly while one is. While it is set, a POST to \<open>/trigger\<close> is answered
  \<open>already_running\<close> and leaves the state as it is (no call of \<open>runScan\<close> is issued), and
  a call of \<open>runScan\<close> that reaches its critical section is skipped without starting a
  run. When the running scan completes, the flag is cleared, no run is in progress and
  the completion time is recorded.
\<close>

theorem guard_single_run:
  "reachable s \<Longrightarrow>
     runs s \<le> 1 \<and> (isScanning s \<longleftrightarrow> runs s = 1) \<and>
     (isScanning s \<longrightarrow>
        trigger POST s = (already_running, s) \<and>
        fst (runScan_enter s) = skipped \<and>
        runs (snd (runScan_enter s)) = runs s \<and>
        isScanning (runScan_exit now s) = False \<and>
        runs (runScan_exit now s) = 0 \<and>
        lastScanTime (runScan_exit now s) = Some now)"
proof -
  assume r: "reachable s"
  have inv: "runs s = (if isScanning s then 1 else 0)"
    using r by (rule guard_invariant)
  show ?thesis
    using inv by (simp add: trigger_def runScan_enter_def runScan_exit_def)
qed

theorem guard_single_run_witness:
  "reachable \<lparr>isScanning = True, lastScanTime = None, calls = 1, runs = 1\<rparr> \<and>
   trigger POST \<lparr>isScanning = True, lastScanTime = None, calls = 1, runs = 1\<rparr> =
     (already_running, \<lparr>isScanning = True, lastScanTime = None, calls = 1, runs = 1\<rparr>) \<and>
   fst (runScan_enter \<lparr>isScanning = True, lastScanTime = None, calls = 1, runs = 1\<rparr>) = skipped \<and>
   runScan_exit 7 \<lparr>isScanning = True, lastScanTime = None, calls = 1, runs = 1\<rparr> =
     \<lparr>isScanning = False, lastScanTime = Some 7, calls = 1, runs = 0\<rparr>"
proof -
  let ?s = "\<lparr>isScanning = True, lastScanTime = None, calls = 1, runs = 1\<rparr>"
  have "reachable (call_runScan (call_runScan initial))"
    by (intro reachable.schedule reachable.start)
  then have "reachable (snd (runScan_enter (call_runScan (call_runScan initial))))"
    by (rule reachable.enter) (simp add: call_runScan_def initial_def)
  then have r: "reachable ?s"
    by (simp add: runScan_enter_def call_runScan_def initial_def)
  from guard_single_run [OF r, of 7] r show ?thesis
    by (simp add: runScan_exit_def)
qed

section \<open>Trimming and sanitizing banners\<close>

lemma printable_not_special:
  assumes "printable c"
  shows "c \<noteq> CHR 0x09" "c \<noteq> CHR 0x0A" "c \<noteq> CHR 0x0B" "c \<noteq> CHR 0x0C" "c \<noteq> CHR 0x0D"
    "c \<noteq> CHR 0xC2" "c \<noteq> CHR 0xE1" "c \<noteq> CHR 0xE2" "c \<noteq> CHR 0xE3"
    "c \<noteq> CHR 0x85" "c \<noteq> CHR 0xA0" "c \<noteq> CHR 0x80" "c \<noteq> CHR 0x81" "c \<noteq> CHR 0x82"
    "c \<noteq> CHR 0x83" "c \<noteq> CHR 0x84" "c \<noteq> CHR 0x86" "c \<noteq> CHR 0x87" "c \<noteq> CHR 0x88"
    "c \<noteq> CHR 0x89" "c \<noteq> CHR 0x8A" "c \<noteq> CHR 0xA8" "c \<noteq> CHR 0xA9" "c \<noteq> CHR 0xAF"
    "c \<noteq> CHR 0x9F"
  using assms by (auto simp: printable_def)

lemma leading_space_printable:
  "printable c \<Longrightarrow> leading_space (c # cs) = (if c = CHR '' '' then 1 else 0)"
  by (simp add: leading_space_def space_runes_def HasPrefix_def printable_not_special)

lemma trailing_space_printable:
  "printable c \<Longrightarrow> trailing_space (cs @ [c]) = (if c = CHR '' '' then 1 else 0)"
  by (simp add: trailing_space_def space_runes_def HasSuffix_def printable_not_special)


lemma leading_space_Nil: "leading_space [] = 0"
  by (simp add: leading_space_def space_runes_def HasPrefix_def)

lemma trailing_space_Nil: "trailing_space [] = 0"
  by (simp add: trailing_space_def space_runes_def HasSuffix_def)

lemma TrimLeftSpace_printable:
  "\<forall>c\<in>set s. printable c \<Longrightarrow> TrimLeftSpace s = dropWhile (\<lambda>c. c = CHR '' '') s"
proof (induction s)
  case Nil
  show ?case by (subst TrimLeftSpace.simps) (simp add: leading_space_Nil)
next
  case (Cons c cs)
  then have p: "printable c" and ih: "TrimLeftSpace cs = dropWhile (\<lambda>c. c = CHR '' '') cs"
    by simp_all
  have ls: "leading_space (c # cs) = (if c = CHR '' '' then 1 else 0)"
    by (rule leading_space_printable [OF p])
  show ?case
  proof (cases "c = CHR '' ''")
    case True
    with ls have "leading_space (c # cs) = 1" by simp
    then have "TrimLeftSpace (c # cs) = TrimLeftSpace cs"
      by (subst TrimLeftSpace.simps) simp
    with True ih show ?thesis by simp
  next
    case False
    with ls have "leading_space (c # cs) = 0" by simp
    then have "TrimLeftSpace (c # cs) = c # cs"
      by (subst TrimLeftSpace.simps) simp
    with False show ?thesis by simp
  qed
qed

lemma TrimRightSpace_printable:
  "\<forall>c\<in>set s. printable c \<Longrightarrow> TrimRightSpace s = rev (dropWhile (\<lambda>c. c = CHR '' '') (rev s))"
proof (induction s rule: rev_induct)
  case Nil
  show ?case by (subst TrimRightSpace.simps) (simp add: trailing_space_Nil)
next
  case (snoc c cs)
  then have p: "printable c"
    and ih: "TrimRightSpace cs = rev (dropWhile (\<lambda>c. c = CHR '' '') (rev cs))"
    by simp_all
  have ts: "trailing_space (cs @ [c]) = (if c = CHR '' '' then 1 else 0)"
    by (rule trailing_space_printable [OF p])
  show ?case
  proof (cases "c = CHR '' ''")
    case True
    with ts have "trailing_space (cs @ [c]) = 1" by simp
    then have "TrimRightSpace (cs @ [c]) = TrimRightSpace cs"
      by (subst TrimRightSpace.simps) simp
    with True ih show ?thesis by simp
  next
    case False
    with ts have "trailing_space (cs @ [c]) = 0" by simp
    then have "TrimRightSpace (cs @ [c]) = cs @ [c]"
      by (subst TrimRightSpace.simps) simp
    with False show ?thesis by simp
  qed
qed

lemma TrimSpace_printable:
  assumes "\<forall>c\<in>set s. printable c"
  shows "TrimSpace s = trim s"
proof -
  have "\<forall>c\<in>set (dropWhile (\<lambda>c. c = CHR '' '') s). printable c"
    using assms by (meson set_dropWhileD)
  then show ?thesis
    by (simp add: TrimSpace_def trim_def TrimLeftSpace_printable [OF assms] TrimRightSpace_printable)
qed




lemma set_trim: "set (trim s) \<subseteq> set s"
proof
  fix x assume "x \<in> set (trim s)"
  then have "x \<in> set (dropWhile (\<lambda>c. c = CHR '' '') (rev (dropWhile (\<lambda>c. c = CHR '' '') s)))"
    by (simp add: trim_def)
  then have "x \<in> set (rev (dropWhile (\<lambda>c. c = CHR '' '') s))" by (rule set_dropWhileD)
  then have "x \<in> set (dropWhile (\<lambda>c. c = CHR '' '') s)" by simp
  then show "x \<in> set s" by (rule set_dropWhileD)
qed

lemma length_trim_le_dropWhile:
  "length (trim s) \<le> length (dropWhile (\<lambda>c. c = CHR '' '') s)"
proof -
  have "length (dropWhile (\<lambda>c. c = CHR '' '') (rev (dropWhile (\<lambda>c. c = CHR '' '') s)))
        \<le> length (rev (dropWhile (\<lambda>c. c = CHR '' '') s))"
    by (rule length_dropWhile_le)
  then show ?thesis by (simp add: trim_def)
qed

lemma length_trim: "length (trim s) \<le> length s"
  using length_trim_le_dropWhile [of s] length_dropWhile_le [of "\<lambda>c. c = CHR '' ''" s]
  by (rule order_trans)

lemma trim_id:
  assumes "s = [] \<or> (hd s \<noteq> CHR '' '' \<and> last s \<noteq> CHR '' '')"
  shows "trim s = s"
proof -
  from assms have "s = [] \<or> \<not> (hd s = CHR '' '')" by blast
  then have 1: "dropWhile (\<lambda>c. c = CHR '' '') s = s"
    by (simp only: dropWhile_eq_self_iff)
  from assms have "s = [] \<or> \<not> (last s = CHR '' '')" by blast
  then have "rev s = [] \<or> \<not> (hd (rev s) = CHR '' '')"
    by (simp only: hd_rev rev_is_Nil_conv)
  then have 2: "dropWhile (\<lambda>c. c = CHR '' '') (rev s) = rev s"
    by (simp only: dropWhile_eq_self_iff)
  show ?thesis by (simp add: trim_def 1 2)
qed

lemma dropWhile_same_length:
  assumes "length (dropWhile P xs) = length xs"
  shows "dropWhile P xs = xs"
proof -
  have "length (takeWhile P xs) + length (dropWhile P xs) = length xs"
    by (simp flip: length_append)
  with assms have "takeWhile P xs = []" by simp
  then show ?thesis
    by (metis append_Nil takeWhile_dropWhile_id)
qed

lemma trim_same_length:
  assumes eq: "length (trim s) = length s"
  shows "trim s = s"
proof -
  let ?sp = "\<lambda>c. c = CHR '' ''"
  have a: "length (trim s) \<le> length (dropWhile ?sp s)" by (rule length_trim_le_dropWhile)
  have b: "length (dropWhile ?sp s) \<le> length s" by (rule length_dropWhile_le)
  from a b eq have "length (dropWhile ?sp s) = length s" by simp
  then have 1: "dropWhile ?sp s = s" by (rule dropWhile_same_length)
  from eq have "length (dropWhile ?sp (rev s)) = length (rev s)" by (simp add: trim_def 1)
  then have 2: "dropWhile ?sp (rev s) = rev s" by (rule dropWhile_same_length)
  show ?thesis by (simp add: trim_def 1 2)
qed

lemma last_dropWhile: "dropWhile P xs \<noteq> [] \<Longrightarrow> last (dropWhile P xs) = last xs"
  by (induction xs) (auto split: if_splits)

lemma trim_ends:
  assumes "trim s \<noteq> []"
  shows "hd (trim s) \<noteq> CHR '' '' \<and> last (trim s) \<noteq> CHR '' ''"
proof -
  let ?sp = "\<lambda>c. c = CHR '' ''"
  let ?d = "dropWhile ?sp s"
  let ?e = "dropWhile ?sp (rev ?d)"
  from assms have ne: "?e \<noteq> []" by (simp add: trim_def)
  then have he: "\<not> ?sp (hd ?e)" by (rule hd_dropWhile)
  have last_t: "last (trim s) = hd ?e" by (simp add: trim_def last_rev)
  have dne: "?d \<noteq> []"
  proof
    assume a: "?d = []"
    have "?e = []" unfolding a by simp
    with ne show False by blast
  qed
  then have hd_d: "\<not> ?sp (hd ?d)" by (rule hd_dropWhile)
  have "hd (trim s) = last ?e" by (simp add: trim_def hd_rev)
  also have "last ?e = last (rev ?d)" using ne by (rule last_dropWhile)
  also have "\<dots> = hd ?d" by (simp add: last_rev)
  finally have "hd (trim s) = hd ?d" .
  with hd_d he last_t show ?thesis by (simp only: not_False_eq_True conj_commute)
qed

lemma trim_trim: "trim (trim s) = trim s"
proof (cases "trim s = []")
  case True
  have "trim [] = []" by (simp add: trim_def)
  with True show ?thesis by (simp only:)
next
  case False
  then have "hd (trim s) \<noteq> CHR '' '' \<and> last (trim s) \<noteq> CHR '' ''" by (rule trim_ends)
  then show ?thesis by (rule trim_id [OF disjI2])
qed



lemma printable_sanitize_runes: "\<forall>c\<in>set (sanitize_runes s). printable c"
  by (induction s) (simp_all add: printable_def)

lemma sanitize_runes_printable: "\<forall>c\<in>set s. printable c \<Longrightarrow> sanitize_runes s = s"
  by (induction s) (simp_all add: printable_def)

lemma sanitizeBanner_ellipsis: "sanitizeBanner s = TrimSpace (ellipsis (sanitize_runes (TrimSpace s)))"
  by (simp add: sanitizeBanner_def ellipsis_def Let_def)

lemma printable_ellipsis:
  assumes "\<forall>c\<in>set out. printable c"
  shows "\<forall>c\<in>set (ellipsis out). printable c"
proof -
  have "\<forall>c\<in>set (take 512 out). printable c"
    using assms by (meson in_set_takeD)
  then show ?thesis using assms by (simp add: ellipsis_def printable_def)
qed

lemma length_ellipsis: "length (ellipsis out) \<le> 515"
  by (simp add: ellipsis_def)

lemma sanitizeBanner_trim: "sanitizeBanner s = trim (ellipsis (sanitize_runes (TrimSpace s)))"
  unfolding sanitizeBanner_ellipsis
  by (rule TrimSpace_printable) (rule printable_ellipsis, rule printable_sanitize_runes)

lemma printable_sanitizeBanner: "\<forall>c\<in>set (sanitizeBanner s). printable c"
proof -
  have "\<forall>c\<in>set (ellipsis (sanitize_runes (TrimSpace s))). printable c"
    by (rule printable_ellipsis) (rule printable_sanitize_runes)
  then show ?thesis
    unfolding sanitizeBanner_trim using set_trim by blast
qed

lemma length_sanitizeBanner: "length (sanitizeBanner s) \<le> 515"
  unfolding sanitizeBanner_trim
  by (rule order_trans [OF length_trim length_ellipsis])

lemma trim_sanitizeBanner: "trim (sanitizeBanner s) = sanitizeBanner s"
  unfolding sanitizeBanner_trim by (rule trim_trim)

lemma sanitizeBanner_again:
  "sanitizeBanner (sanitizeBanner s) = trim (ellipsis (sanitizeBanner s))"
proof -
  have p: "\<forall>c\<in>set (sanitizeBanner s). printable c" by (rule printable_sanitizeBanner)
  have "TrimSpace (sanitizeBanner s) = sanitizeBanner s"
    by (simp only: TrimSpace_printable [OF p] trim_sanitizeBanner)
  moreover have "sanitize_runes (sanitizeBanner s) = sanitizeBanner s"
    by (rule sanitize_runes_printable [OF p])
  ultimately show ?thesis
    by (simp only: sanitizeBanner_trim [of "sanitizeBanner s"])
qed

lemma sanitizeBanner_short:
  assumes "length (sanitizeBanner s) \<le> 512"
  shows "sanitizeBanner (sanitizeBanner s) = sanitizeBanner s"
proof -
  from assms have "ellipsis (sanitizeBanner s) = sanitizeBanner s"
    by (simp add: ellipsis_def)
  then show ?thesis by (simp only: sanitizeBanner_again trim_sanitizeBanner)
qed

lemma sanitizeBanner_long:
  assumes "512 < length (sanitizeBanner s)"
  shows "sanitizeBanner (sanitizeBanner s) = take 512 (sanitizeBanner s) @ ''...''"
proof -
  let ?r = "sanitizeBanner s"
  from assms have ne: "?r \<noteq> []" by auto
  then have "trim ?r \<noteq> []" unfolding trim_sanitizeBanner .
  then have "hd (trim ?r) \<noteq> CHR '' ''" using trim_ends by blast
  then have h: "hd ?r \<noteq> CHR '' ''" unfolding trim_sanitizeBanner .
  have e: "ellipsis ?r = take 512 ?r @ ''...''" using assms by (simp add: ellipsis_def)
  have tne: "take 512 ?r \<noteq> []" using ne by simp
  have "hd (take 512 ?r @ ''...'') = hd ?r" using tne by simp
  with h have h': "hd (take 512 ?r @ ''...'') \<noteq> CHR '' ''" by simp
  have l': "last (take 512 ?r @ ''...'') \<noteq> CHR '' ''" by simp
  have "trim (take 512 ?r @ ''...'') = take 512 ?r @ ''...''"
    using h' l' by (intro trim_id [OF disjI2] conjI)
  then show ?thesis by (simp only: sanitizeBanner_again e)
qed

lemma sanitizeBanner_full:
  assumes "length (sanitizeBanner s) = 515"
  shows "take 512 (sanitizeBanner s) @ ''...'' = sanitizeBanner s"
proof -
  let ?out = "sanitize_runes (TrimSpace s)"
  have le: "length (sanitizeBanner s) \<le> length (ellipsis ?out)"
    unfolding sanitizeBanner_trim by (rule length_trim)
  have "length (ellipsis ?out) \<le> 515" by (rule length_ellipsis)
  with le assms have len: "length (ellipsis ?out) = 515" by simp
  then have "length (trim (ellipsis ?out)) = length (ellipsis ?out)"
    using assms by (simp only: sanitizeBanner_trim)
  then have "trim (ellipsis ?out) = ellipsis ?out" by (rule trim_same_length)
  then have r: "sanitizeBanner s = ellipsis ?out" by (simp only: sanitizeBanner_trim)
  have long: "512 < length ?out"
  proof (rule ccontr)
    assume "\<not> 512 < length ?out"
    then have "length (ellipsis ?out) \<le> 512" by (simp add: ellipsis_def)
    with len show False by simp
  qed
  then have "ellipsis ?out = take 512 ?out @ ''...''" by (simp add: ellipsis_def)
  with r have r': "sanitizeBanner s = take 512 ?out @ ''...''" by simp
  have "length (take 512 ?out) = 512" using long by simp
  then have "take 512 (take 512 ?out @ ''...'') = take 512 ?out" by simp
  then show ?thesis by (simp only: r')
qed

lemma sanitizeBanner_fixed_iff:
  "length (sanitizeBanner s) \<le> 515 \<and>
   (sanitizeBanner (sanitizeBanner s) = sanitizeBanner s \<longleftrightarrow>
      length (sanitizeBanner s) \<noteq> 513 \<and> length (sanitizeBanner s) \<noteq> 514)"
proof -
  let ?r = "sanitizeBanner s"
  have b: "length ?r \<le> 515" by (rule length_sanitizeBanner)
  consider "length ?r \<le> 512" | "length ?r = 513 \<or> length ?r = 514" | "length ?r = 515"
    using b by linarith
  then have "sanitizeBanner ?r = ?r \<longleftrightarrow> length ?r \<noteq> 513 \<and> length ?r \<noteq> 514"
  proof cases
    case 1
    then have "sanitizeBanner ?r = ?r" by (rule sanitizeBanner_short)
    with 1 show ?thesis by simp
  next
    case 2
    then have "512 < length ?r" by auto
    then have "sanitizeBanner ?r = take 512 ?r @ ''...''" by (rule sanitizeBanner_long)
    then have "length (sanitizeBanner ?r) = 515" using \<open>512 < length ?r\<close> by simp
    with 2 have "sanitizeBanner ?r \<noteq> ?r" by auto
    with 2 show ?thesis by auto
  next
    case 3
    then have "512 < length ?r" by simp
    then have "sanitizeBanner ?r = take 512 ?r @ ''...''" by (rule sanitizeBanner_long)
    also have "\<dots> = ?r" using 3 by (rule sanitizeBanner_full)
    finally show ?thesis using 3 by simp
  qed
  with b show ?thesis by simp
qed



lemma trim_space_Cons: "trim (CHR '' '' # s) = trim s"
  by (simp add: trim_def)

lemma TrimSpace_fixed:
  assumes "leading_space s = 0" "trailing_space s = 0"
  shows "TrimSpace s = s"
proof -
  from assms(1) have "TrimLeftSpace s = s" by (subst TrimLeftSpace.simps) simp
  moreover from assms(2) have "TrimRightSpace s = s" by (subst TrimRightSpace.simps) simp
  ultimately show ?thesis by (simp add: TrimSpace_def)
qed

lemma sanitizeBanner_padded:
  "sanitizeBanner padded = replicate 511 (CHR ''a'') @ ''...''"
proof -
  have pa: "printable (CHR ''a'')" by (simp add: printable_def)
  have "leading_space padded = 0"
    by (simp add: padded_def leading_space_def space_runes_def HasPrefix_def)
  moreover have "replicate (Suc 511) (CHR ''a'') = replicate 511 (CHR ''a'') @ [CHR ''a'']"
    by (simp only: replicate_Suc replicate_append_same)
  then have "padded = (CHR 0x01 # CHR '' '' # replicate 511 (CHR ''a'')) @ [CHR ''a'']"
    unfolding padded_def by simp
  then have "trailing_space padded = 0"
    using trailing_space_printable [OF pa, of "CHR 0x01 # CHR '' '' # replicate 511 (CHR ''a'')"]
    by (simp only: char.inject) simp
  ultimately have 1: "TrimSpace padded = padded" by (rule TrimSpace_fixed)
  have "sanitize_runes (replicate 512 (CHR ''a'')) = replicate 512 (CHR ''a'')"
    by (rule sanitize_runes_printable) (simp add: pa)
  then have 2: "sanitize_runes padded = CHR '' '' # replicate 512 (CHR ''a'')"
    by (simp add: padded_def)
  have 3: "ellipsis (CHR '' '' # replicate 512 (CHR ''a'')) =
           CHR '' '' # (replicate 511 (CHR ''a'') @ ''...'')"
    by (simp add: ellipsis_def take_Cons')
  have "replicate (Suc 510) (CHR ''a'') = CHR ''a'' # replicate 510 (CHR ''a'')"
    by (simp only: replicate_Suc)
  then have "replicate 511 (CHR ''a'') = CHR ''a'' # replicate 510 (CHR ''a'')" by simp
  then have "hd (replicate 511 (CHR ''a'') @ ''...'') \<noteq> CHR '' ''" by simp
  moreover have "last (replicate 511 (CHR ''a'') @ ''...'') \<noteq> CHR '' ''" by simp
  ultimately have 4: "trim (replicate 511 (CHR ''a'') @ ''...'') = replicate 511 (CHR ''a'') @ ''...''"
    by (intro trim_id [OF disjI2] conjI)
  show ?thesis
    by (simp only: sanitizeBanner_trim 1 2 3 trim_space_Cons 4)
qed


text \<open>
  Claim C6, as the code has it. The output of sanitizeBanner never has more than 515
  characters (512 and the three of the ellipsis). Sanitizing the output again gives the
  same string exactly when the output is not 513 or 514 characters long, that is unless
  the banner was truncated and the trimming that follows the truncation removed one or
  two spaces from its start.
\<close>

theorem sanitizeBanner_length_and_idempotence:
  "length (sanitizeBanner s) \<le> 515 \<and>
   (length (sanitizeBanner s) \<le> 512 \<or> length (sanitizeBanner s) = 515 \<longrightarrow>
      sanitizeBanner (sanitizeBanner s) = sanitizeBanner s) \<and>
   (length (sanitizeBanner s) = 513 \<or> length (sanitizeBanner s) = 514 \<longrightarrow>
      sanitizeBanner (sanitizeBanner s) \<noteq> sanitizeBanner s)"
  using sanitizeBanner_fixed_iff [of s] by auto

theorem sanitizeBanner_length_and_idempotence_witness:
  "sanitizeBanner ''  SSH-2.0-OpenSSH_9.0\<newline>'' = ''SSH-2.0-OpenSSH_9.0'' \<and>
   length (sanitizeBanner ''  SSH-2.0-OpenSSH_9.0\<newline>'') \<le> 512 \<and>
   sanitizeBanner (sanitizeBanner ''  SSH-2.0-OpenSSH_9.0\<newline>'') =
     sanitizeBanner ''  SSH-2.0-OpenSSH_9.0\<newline>'' \<and>
   length (sanitizeBanner padded) = 514 \<and>
   sanitizeBanner (sanitizeBanner padded) \<noteq> sanitizeBanner padded"
proof -
  have 1: "sanitizeBanner ''  SSH-2.0-OpenSSH_9.0\<newline>'' = ''SSH-2.0-OpenSSH_9.0''"
    by code_simp
  have 2: "length (sanitizeBanner padded) = 514"
    by (simp add: sanitizeBanner_padded)
  from sanitizeBanner_length_and_idempotence [of "''  SSH-2.0-OpenSSH_9.0\<newline>''"]
    sanitizeBanner_length_and_idempotence [of padded] 1 2
  show ?thesis by simp
qed

text \<open>The claim as the specification states it, idempotence for every string, fails on
  the banner \<open>padded\<close>: its sanitized form has 514 characters, and sanitizing that gives
  515.\<close>

theorem sanitizeBanner_not_idempotent:
  "\<not> (\<forall>s. sanitizeBanner (sanitizeBanner s) = sanitizeBanner s)"
proof
  assume "\<forall>s. sanitizeBanner (sanitizeBanner s) = sanitizeBanner s"
  then have "sanitizeBanner (sanitizeBanner padded) = sanitizeBanner padded" by blast
  moreover have "length (sanitizeBanner padded) = 514"
    by (simp add: sanitizeBanner_padded)
  ultimately show False using sanitizeBanner_fixed_iff [of padded] by simp
qed

section \<open>Address expansion\<close>

subsection \<open>Bytes and masks\<close>

lemma ff_minus1: "(0xff :: 8 word) = - 1"
  by simp

lemma not_drop_ff: "p \<le> 8 \<Longrightarrow> NOT (drop_bit p (0xff :: 8 word)) = NOT (mask (8 - p))"
  unfolding ff_minus1 by (auto simp: bit_eq_iff bit_simps)

lemma and_not_mask_push: "(b::8 word) AND NOT (mask k) = push_bit k (drop_bit k b)"
  by (auto simp: bit_eq_iff bit_simps)

lemma unat_drop: "unat (drop_bit k (b::8 word)) = unat b div 2 ^ k"
  by (subst unat_drop_bit_eq) (rule drop_bit_eq_div)

lemma unat_and_not_mask: "unat ((b::8 word) AND NOT (mask k)) = unat b div 2 ^ k * 2 ^ k"
proof -
  have "unat (push_bit k (drop_bit k b)) = take_bit 8 (push_bit k (unat (drop_bit k b)))"
    by (simp add: unsigned_push_bit_eq)
  also have "\<dots> = take_bit 8 (unat b div 2 ^ k * 2 ^ k)"
    by (simp add: unat_drop push_bit_eq_mult)
  also have "\<dots> = unat b div 2 ^ k * 2 ^ k"
  proof -
    have "unat b div 2 ^ k * 2 ^ k \<le> unat b" by simp
    also have "unat b < 2 ^ 8" using unsigned_less [of b] by simp
    finally show ?thesis by (simp add: take_bit_nat_eq_self_iff)
  qed
  finally show ?thesis by (simp only: and_not_mask_push)
qed

lemma and_not_mask_eq_iff:
  "(b::8 word) AND NOT (mask k) = b' AND NOT (mask k) \<longleftrightarrow>
   unat b div 2 ^ k = unat b' div 2 ^ k"
proof -
  have "b AND NOT (mask k) = b' AND NOT (mask k) \<longleftrightarrow>
        unat (b AND NOT (mask k)) = unat (b' AND NOT (mask k))"
    by (simp add: word_unat_eq_iff)
  also have "\<dots> \<longleftrightarrow> unat b div 2 ^ k * 2 ^ k = unat b' div 2 ^ k * 2 ^ k"
    by (simp only: unat_and_not_mask)
  also have "\<dots> \<longleftrightarrow> unat b div 2 ^ k = unat b' div 2 ^ k"
    by simp
  finally show ?thesis .
qed

subsection \<open>Addresses as numbers\<close>

lemma ipval_append: "ipval (xs @ ys) = ipval xs * 256 ^ length ys + ipval ys"
  by (induction xs) (simp_all add: power_add algebra_simps)

lemma ipval_lt: "ipval xs < 256 ^ length xs"
proof (induction xs)
  case Nil
  show ?case by simp
next
  case (Cons b bs)
  define B :: nat where "B = 256 ^ length bs"
  have "unat b < 256" using unsigned_less [of b] by simp
  then have "unat b + 1 \<le> 256" by simp
  then have "(unat b + 1) * B \<le> 256 * B" by (rule mult_le_mono1)
  then have "unat b * B + B \<le> 256 * B" by (simp add: algebra_simps)
  moreover have "ipval bs < B" using Cons by (simp add: B_def)
  ultimately have "unat b * B + ipval bs < 256 * B" by linarith
  then show ?case by (simp add: B_def)
qed

lemma ipval_inj: "length xs = length ys \<Longrightarrow> ipval xs = ipval ys \<Longrightarrow> xs = ys"
proof (induction xs ys rule: list_induct2)
  case Nil
  show ?case by simp
next
  case (Cons x xs y ys)
  let ?B = "(256::nat) ^ length xs"
  from Cons.hyps have len: "length ys = length xs" by simp
  from Cons.prems len have e: "unat x * ?B + ipval xs = unat y * ?B + ipval ys" by simp
  have lx: "ipval xs < ?B" by (rule ipval_lt)
  have ly: "ipval ys < ?B" using ipval_lt [of ys] len by simp
  from e have "(unat x * ?B + ipval xs) div ?B = (unat y * ?B + ipval ys) div ?B" by simp
  with lx ly have ux: "unat x = unat y" by simp
  with e have "ipval xs = ipval ys" by simp
  with Cons.IH ux show ?case by (simp add: word_unat_eq_iff)
qed

lemma length_inc_rev: "length (inc_rev bs) = length bs"
  by (induction bs) simp_all

lemma length_inc: "length (inc ip) = length ip"
  by (simp add: inc_def length_inc_rev)

lemma inc_Nil: "inc [] = []"
  by (simp add: inc_def)

lemma inc_snoc: "inc (xs @ [b]) = (if b + 1 \<noteq> 0 then xs @ [b + 1] else inc xs @ [0])"
  by (simp add: inc_def word_greater_zero_iff)

lemma unat_byte_succ: "(b::byte) + 1 \<noteq> 0 \<Longrightarrow> unat (b + 1) = unat b + 1"
  using unatSuc [of b] by (simp add: add.commute)

lemma unat_byte_max: "(b::byte) + 1 = 0 \<Longrightarrow> unat b = 255"
proof -
  assume "b + 1 = 0"
  then have "b = - 1" by (simp add: eq_neg_iff_add_eq_0)
  also have "(- 1 :: byte) = 255" by simp
  finally show ?thesis by simp
qed

lemma ipval_inc: "ipval (inc ip) = (ipval ip + 1) mod 256 ^ length ip"
proof (induction ip rule: rev_induct)
  case Nil
  show ?case by (simp add: inc_Nil)
next
  case (snoc b xs)
  show ?case
  proof (cases "b + 1 = 0")
    case False
    have "ipval (xs @ [b + 1]) = ipval xs * 256 + unat b + 1"
      using False by (simp add: ipval_append unat_byte_succ)
    moreover have "ipval xs * 256 + unat b + 1 < 256 ^ length (xs @ [b])"
      using ipval_lt [of "xs @ [b + 1]"] False by (simp add: ipval_append unat_byte_succ)
    ultimately show ?thesis
      using False by (simp add: inc_snoc ipval_append)
  next
    case True
    then have u: "unat b = 255" by (rule unat_byte_max)
    have "ipval (inc xs @ [0]) = ((ipval xs + 1) mod 256 ^ length xs) * 256"
      by (simp add: ipval_append snoc.IH)
    also have "\<dots> = ((ipval xs + 1) * 256) mod (256 ^ length xs * 256)"
      by (simp only: mult_mod_left)
    also have "\<dots> = (ipval (xs @ [b]) + 1) mod 256 ^ length (xs @ [b])"
      by (simp add: ipval_append u algebra_simps)
    finally show ?thesis using True by (simp add: inc_snoc)
  qed
qed

lemma length_CIDRMask_bytes: "length (CIDRMask_bytes l p) = l"
  by (induction l arbitrary: p) simp_all

lemma pow256: "(256::nat) ^ l = 2 ^ (8 * l)"
  by (simp add: power_mult)

lemma ipval_masked:
  "length x = l \<Longrightarrow> p \<le> 8 * l \<Longrightarrow>
   ipval (map2 (AND) x (CIDRMask_bytes l p)) = ipval x div 2 ^ (8 * l - p) * 2 ^ (8 * l - p)"
proof (induction l arbitrary: x p)
  case 0
  then show ?case by simp
next
  case (Suc l)
  from Suc.prems(1) obtain a xs where x: "x = a # xs" and len: "length xs = l"
    by (cases x) auto
  have lm: "length (map2 (AND) xs (CIDRMask_bytes l q)) = l" for q
    by (simp add: len length_CIDRMask_bytes)
  show ?case
  proof (cases "8 \<le> p")
    case True
    define d :: nat where "d = 2 ^ (8 * l - (p - 8))"
    define k :: nat where "k = unat a * 2 ^ (p - 8)"
    from True Suc.prems(2) have q: "p - 8 \<le> 8 * l" by simp
    have e: "8 * Suc l - p = 8 * l - (p - 8)" using True by simp
    have ih: "ipval (map2 (AND) xs (CIDRMask_bytes l (p - 8))) = ipval xs div d * d"
      unfolding d_def by (rule Suc.IH [OF len q])
    have "(2::nat) ^ (8 * l) = 2 ^ ((8 * l - (p - 8)) + (p - 8))" using q by simp
    also have "\<dots> = d * 2 ^ (p - 8)" by (simp only: power_add d_def)
    finally have b: "unat a * 256 ^ l = k * d" by (simp add: pow256 k_def)
    have dpos: "0 < d" by (simp add: d_def)
    have aff: "a AND 0xff = a" unfolding ff_minus1 by simp
    have "CIDRMask_bytes (Suc l) p = 0xff # CIDRMask_bytes l (p - 8)" using True by simp
    then have "ipval (map2 (AND) x (CIDRMask_bytes (Suc l) p)) =
        unat (a AND 0xff) * 256 ^ l + ipval (map2 (AND) xs (CIDRMask_bytes l (p - 8)))"
      by (simp add: x len length_CIDRMask_bytes)
    then have "ipval (map2 (AND) x (CIDRMask_bytes (Suc l) p)) = k * d + ipval xs div d * d"
      by (simp only: aff ih b)
    also have "\<dots> = (k * d + ipval xs) div d * d"
      using dpos by (simp add: algebra_simps)
    also have "\<dots> = ipval x div d * d" by (simp add: x len b)
    finally show ?thesis by (simp only: e d_def)
  next
    case False
    then have p8: "p \<le> 8" by simp
    define B :: nat where "B = 2 ^ (8 * l)"
    have r: "ipval xs < B" using ipval_lt [of xs] by (simp add: len pow256 B_def)
    have "ipval (map2 (AND) xs (CIDRMask_bytes l 0)) = ipval xs div B * B"
      using Suc.IH [OF len, of 0] by (simp add: B_def)
    with r have z: "ipval (map2 (AND) xs (CIDRMask_bytes l 0)) = 0" by simp
    have m: "NOT (drop_bit p (0xff :: 8 word)) = NOT (mask (8 - p))"
      by (rule not_drop_ff [OF p8])
    have e: "8 * Suc l - p = (8 - p) + 8 * l" using p8 by simp
    have d: "(2::nat) ^ (8 * Suc l - p) = B * 2 ^ (8 - p)"
      unfolding e power_add B_def by (rule mult.commute)
    have "CIDRMask_bytes (Suc l) p = NOT (drop_bit p 0xff) # CIDRMask_bytes l 0"
      using False by simp
    then have "ipval (map2 (AND) x (CIDRMask_bytes (Suc l) p)) =
          unat (a AND NOT (drop_bit p 0xff)) * 256 ^ l + ipval (map2 (AND) xs (CIDRMask_bytes l 0))"
      by (simp add: x len length_CIDRMask_bytes)
    then have "ipval (map2 (AND) x (CIDRMask_bytes (Suc l) p)) =
          unat (a AND NOT (mask (8 - p))) * B"
      by (simp only: z m pow256 B_def add_0_right)
    then have 1: "ipval (map2 (AND) x (CIDRMask_bytes (Suc l) p)) =
          unat a div 2 ^ (8 - p) * 2 ^ (8 - p) * B"
      by (simp only: unat_and_not_mask)
    have "(unat a * B + ipval xs) div B = unat a" using r by simp
    then have "unat a div 2 ^ (8 - p) = (unat a * B + ipval xs) div B div 2 ^ (8 - p)"
      by simp
    also have "\<dots> = (unat a * B + ipval xs) div (B * 2 ^ (8 - p))"
      by (simp only: div_mult2_eq)
    also have "unat a * B + ipval xs = ipval x" by (simp add: x len pow256 B_def)
    finally have 2: "unat a div 2 ^ (8 - p) = ipval x div (B * 2 ^ (8 - p))" .
    have "ipval (map2 (AND) x (CIDRMask_bytes (Suc l) p)) =
          ipval x div (B * 2 ^ (8 - p)) * (B * 2 ^ (8 - p))"
      unfolding 1 2 by (simp only: mult.assoc mult.commute [of "2 ^ (8 - p)" B])
    then show ?thesis by (simp only: d)
  qed
qed

lemma masked_eq_iff:
  assumes "length x = l" "length y = l" "p \<le> 8 * l"
  shows "map2 (AND) x (CIDRMask_bytes l p) = map2 (AND) y (CIDRMask_bytes l p) \<longleftrightarrow>
         ipval x div 2 ^ (8 * l - p) = ipval y div 2 ^ (8 * l - p)"
proof -
  let ?m = "CIDRMask_bytes l p"
  have "length (map2 (AND) x ?m) = length (map2 (AND) y ?m)"
    using assms by (simp add: length_CIDRMask_bytes)
  then have inj: "ipval (map2 (AND) x ?m) = ipval (map2 (AND) y ?m) \<Longrightarrow>
             map2 (AND) x ?m = map2 (AND) y ?m"
    by (rule ipval_inj)
  have "map2 (AND) x ?m = map2 (AND) y ?m \<longleftrightarrow>
             ipval (map2 (AND) x ?m) = ipval (map2 (AND) y ?m)"
  proof
    assume "map2 (AND) x ?m = map2 (AND) y ?m"
    then show "ipval (map2 (AND) x ?m) = ipval (map2 (AND) y ?m)" by (rule arg_cong)
  next
    assume "ipval (map2 (AND) x ?m) = ipval (map2 (AND) y ?m)"
    then show "map2 (AND) x ?m = map2 (AND) y ?m" by (rule inj)
  qed
  also have "\<dots> \<longleftrightarrow> ipval x div 2 ^ (8 * l - p) * 2 ^ (8 * l - p) =
                        ipval y div 2 ^ (8 * l - p) * 2 ^ (8 * l - p)"
    by (simp only: ipval_masked [OF assms(1,3)] ipval_masked [OF assms(2,3)])
  also have "\<dots> \<longleftrightarrow> ipval x div 2 ^ (8 * l - p) = ipval y div 2 ^ (8 * l - p)"
    by simp
  finally show ?thesis .
qed

subsection \<open>Parsing and containment\<close>

lemma length_netmask: "length (netmask c) = length (addr c)"
  by (simp add: netmask_def length_CIDRMask_bytes)

lemma length_base: "length (base c) = length (addr c)"
  by (simp add: base_def length_netmask)

lemma twelve: "length xs = 12 \<Longrightarrow> \<exists>a b c d e f g h i j k l. xs = [a, b, c, d, e, f, g, h, i, j, k, l]"
  by (simp add: numeral_eq_Suc length_Suc_conv) blast

lemma To4_4: "length x = 4 \<Longrightarrow> To4 x = x"
  by (simp add: To4_def)

lemma To4_16:
  assumes "length p = 12" "length x = 4"
  shows "To4 (p @ x) = (if p = v4InV6Prefix then x else [])"
proof -
  from twelve [OF assms(1)] obtain a b c d e f g h i j k l
    where p: "p = [a, b, c, d, e, f, g, h, i, j, k, l]" by blast
  show ?thesis
    using assms(2) by (auto simp: To4_def p v4InV6Prefix_def numeral_eq_Suc)
qed

lemma Mask_same: "length x = length m \<Longrightarrow> length x = 16 \<Longrightarrow> Mask x m = map2 (AND) x m"
  by (simp add: Mask_def)

lemma Mask_v4: "length a = 4 \<Longrightarrow> length m = 4 \<Longrightarrow> Mask (v4InV6Prefix @ a) m = map2 (AND) a m"
  by (simp add: Mask_def v4InV6Prefix_def)

lemma ParseCIDR_valid:
  assumes "valid c"
  shows "ParseCIDR c = Inr (As16 (addr c), network c)"
    and "Mask (As16 (addr c)) (netmask c) = base c"
proof -
  from assms consider (v4) "length (addr c) = 4" "0 \<le> ones c" "ones c \<le> 32"
    | (v6) "length (addr c) = 16" "0 \<le> ones c" "ones c \<le> 128"
    by (auto simp: valid_def)
  then have "ParseCIDR c = Inr (As16 (addr c), network c) \<and> Mask (As16 (addr c)) (netmask c) = base c"
  proof cases
    case v4
    have m: "CIDRMask (ones c) 32 = netmask c"
      using v4 by (simp add: CIDRMask_def netmask_def)
    have k: "Mask (v4InV6Prefix @ addr c) (netmask c) = base c"
      unfolding base_def by (rule Mask_v4) (simp_all add: v4 length_netmask)
    show ?thesis
      using v4 by (simp add: ParseCIDR_def Let_def m As16_def k network_def)
  next
    case v6
    have m: "CIDRMask (ones c) 128 = netmask c"
      using v6 by (simp add: CIDRMask_def netmask_def)
    have k: "Mask (addr c) (netmask c) = base c"
      unfolding base_def by (rule Mask_same) (simp_all add: v6 length_netmask)
    show ?thesis
      using v6 by (simp add: ParseCIDR_def Let_def m As16_def k network_def)
  qed
  then show "ParseCIDR c = Inr (As16 (addr c), network c)"
    and "Mask (As16 (addr c)) (netmask c) = base c" by simp_all
qed

lemma ParseCIDR_invalid: "\<not> valid c \<Longrightarrow> ParseCIDR c = Inl ParseError"
  by (auto simp: ParseCIDR_def valid_def Let_def)

lemma Contains_v4:
  assumes "length (addr c) = 4" "length ip = 4"
  shows "Contains (network c) ip \<longleftrightarrow>
         map2 (AND) (base c) (netmask c) = map2 (AND) ip (netmask c)"
proof -
  have lb: "length (base c) = 4" by (simp add: length_base assms)
  have lm: "length (netmask c) = 4" by (simp add: length_netmask assms)
  have ne: "base c \<noteq> []" "ip \<noteq> []" using lb assms(2) by auto
  have "networkNumberAndMask (network c) = (base c, netmask c)"
    by (simp add: networkNumberAndMask_def network_def To4_4 [OF lb] lb lm ne)
  then show ?thesis
    by (simp add: Contains_def To4_4 [OF assms(2)] assms(2) lb ne)
qed

lemma CIDRMask_bytes_ff:
  "8 * k \<le> p \<Longrightarrow> CIDRMask_bytes (k + l) p = replicate k 0xff @ CIDRMask_bytes l (p - 8 * k)"
proof (induction k arbitrary: p)
  case 0
  show ?case by simp
next
  case (Suc k)
  then have "8 \<le> p" and "8 * k \<le> p - 8" by simp_all
  then show ?case using Suc.IH [of "p - 8"] by simp
qed

lemma map2_and_ff: "map2 (AND) x (replicate (length x) (0xff :: byte)) = x"
proof (induction x)
  case Nil
  show ?case by simp
next
  case (Cons a x)
  have "a AND 0xff = a" unfolding ff_minus1 by simp
  with Cons show ?case by simp
qed

lemma map2_append:
  "length xs = length us \<Longrightarrow> map2 f (xs @ ys) (us @ vs) = map2 f xs us @ map2 f ys vs"
  by simp

lemma masked16:
  assumes "length x = 16" "96 \<le> p"
  shows "map2 (AND) x (CIDRMask_bytes 16 p) =
         take 12 x @ map2 (AND) (drop 12 x) (CIDRMask_bytes 4 (p - 96))"
proof -
  define xp where "xp = take 12 x"
  define x4 where "x4 = drop 12 x"
  have x: "x = xp @ x4" by (simp add: xp_def x4_def)
  have l: "length xp = 12" using assms(1) by (simp add: xp_def)
  have m: "CIDRMask_bytes 16 p = replicate (length xp) 0xff @ CIDRMask_bytes 4 (p - 96)"
    using CIDRMask_bytes_ff [of 12 p 4] assms(2) by (simp add: l)
  have "map2 (AND) (xp @ x4) (replicate (length xp) 0xff @ CIDRMask_bytes 4 (p - 96)) =
        map2 (AND) xp (replicate (length xp) 0xff) @ map2 (AND) x4 (CIDRMask_bytes 4 (p - 96))"
    by (rule map2_append) simp
  also have "map2 (AND) xp (replicate (length xp) 0xff) = xp" by (rule map2_and_ff)
  finally have "map2 (AND) x (CIDRMask_bytes 16 p) = xp @ map2 (AND) x4 (CIDRMask_bytes 4 (p - 96))"
    by (simp only: m x [symmetric])
  then show ?thesis by (simp only: xp_def x4_def)
qed

lemma Contains_v6:
  assumes "length (addr c) = 16" "96 \<le> ones c" "length ip = 16"
  shows "Contains (network c) ip \<longleftrightarrow>
         map2 (AND) (base c) (netmask c) = map2 (AND) ip (netmask c)"
proof -
  define p where "p = nat (ones c)"
  define m4 where "m4 = CIDRMask_bytes 4 (p - 96)"
  define bp where "bp = take 12 (addr c)"
  define b4 where "b4 = map2 (AND) (drop 12 (addr c)) m4"
  define ipp where "ipp = take 12 ip"
  define ip4 where "ip4 = drop 12 ip"
  have p96: "96 \<le> p" using assms(2) by (simp add: p_def)
  have nm: "netmask c = CIDRMask_bytes 16 p" by (simp add: netmask_def assms(1) p_def)
  have lm4: "length m4 = 4" by (simp add: m4_def length_CIDRMask_bytes)
  have lens: "length bp = 12" "length b4 = 4" "length ipp = 12" "length ip4 = 4"
    using assms(1,3) by (simp_all add: bp_def b4_def ipp_def ip4_def lm4)
  have b: "base c = bp @ b4"
    unfolding base_def nm bp_def b4_def m4_def by (rule masked16 [OF assms(1) p96])
  have i: "ip = ipp @ ip4" by (simp add: ipp_def ip4_def)
  have dm: "drop 12 (netmask c) = m4"
    using CIDRMask_bytes_ff [of 12 p 4] p96 by (simp add: nm m4_def)
  have lnm: "length (netmask c) = 16" by (simp add: length_netmask assms(1))
  have mb: "map2 (AND) (base c) (netmask c) = bp @ map2 (AND) b4 m4"
    using masked16 [of "base c" p] p96 by (simp add: nm [symmetric] length_base assms(1) b lens m4_def)
  have mi: "map2 (AND) ip (netmask c) = ipp @ map2 (AND) ip4 m4"
    using masked16 [of ip p] p96 assms(3) by (simp add: nm [symmetric] ipp_def ip4_def m4_def)
  have rhs: "map2 (AND) (base c) (netmask c) = map2 (AND) ip (netmask c) \<longleftrightarrow>
             bp = ipp \<and> map2 (AND) b4 m4 = map2 (AND) ip4 m4"
    unfolding mb mi using lens by simp
  have t4b: "To4 (base c) = (if bp = v4InV6Prefix then b4 else [])"
    unfolding b by (rule To4_16) (simp_all add: lens)
  have t4i: "To4 ip = (if ipp = v4InV6Prefix then ip4 else [])"
    unfolding i by (rule To4_16) (simp_all add: lens)
  have ne: "b4 \<noteq> []" "ip4 \<noteq> []" "base c \<noteq> []" "ip \<noteq> []" using lens b i by auto
  have nn: "networkNumberAndMask (network c) =
      (if bp = v4InV6Prefix then (b4, m4) else (base c, netmask c))"
    by (simp add: networkNumberAndMask_def network_def t4b ne lnm lens dm length_base assms(1) Let_def)
  show ?thesis
  proof (cases "bp = v4InV6Prefix")
    case True
    show ?thesis
    proof (cases "ipp = v4InV6Prefix")
      case True
      with \<open>bp = v4InV6Prefix\<close> show ?thesis
        unfolding rhs by (simp add: Contains_def nn t4i ne lens)
    next
      case False
      with \<open>bp = v4InV6Prefix\<close> show ?thesis
        unfolding rhs by (simp add: Contains_def nn t4i ne lens assms(3))
    qed
  next
    case False
    show ?thesis
    proof (cases "ipp = v4InV6Prefix")
      case True
      with \<open>bp \<noteq> v4InV6Prefix\<close> show ?thesis
        unfolding rhs by (simp add: Contains_def nn t4i ne lens length_base assms(1))
    next
      case False
      with \<open>bp \<noteq> v4InV6Prefix\<close> show ?thesis
        by (simp add: Contains_def nn t4i ne lens length_base assms(1,3))
    qed
  qed
qed

lemma Contains_narrow:
  assumes "narrow c" "length ip = length (addr c)"
  shows "Contains (network c) ip \<longleftrightarrow>
         ipval ip div 2 ^ (8 * length (addr c) - nat (ones c)) =
         ipval (base c) div 2 ^ (8 * length (addr c) - nat (ones c))"
proof -
  from assms(1) have v: "valid c" by (simp add: narrow_def)
  then have le: "nat (ones c) \<le> 8 * length (addr c)" by (auto simp: valid_def)
  have "Contains (network c) ip \<longleftrightarrow>
        map2 (AND) (base c) (netmask c) = map2 (AND) ip (netmask c)"
  proof (cases "length (addr c) = 4")
    case True
    then show ?thesis using assms(2) by (intro Contains_v4) simp_all
  next
    case False
    with assms(1) have "length (addr c) = 16" "96 \<le> ones c"
      by (auto simp: narrow_def valid_def)
    then show ?thesis using assms(2) by (intro Contains_v6) simp_all
  qed
  also have "\<dots> \<longleftrightarrow> ipval (base c) div 2 ^ (8 * length (addr c) - nat (ones c)) =
                        ipval ip div 2 ^ (8 * length (addr c) - nat (ones c))"
    unfolding netmask_def
    by (rule masked_eq_iff) (simp_all add: length_base assms(2) le)
  finally show ?thesis by (simp only: eq_commute)
qed

subsection \<open>The loop of expandCIDR\<close>

lemma length_nth_addr: "length (nth_addr c k) = length (addr c)"
  by (induction k) (simp_all add: nth_addr_def length_base length_inc)

lemma ipval_nth_addr_mod:
  "ipval (nth_addr c k) = (ipval (base c) + k) mod 256 ^ length (addr c)"
proof (induction k)
  case 0
  have "ipval (base c) < 256 ^ length (addr c)"
    using ipval_lt [of "base c"] by (simp add: length_base)
  then show ?case by (simp add: nth_addr_def)
next
  case (Suc k)
  have "ipval (nth_addr c (Suc k)) = (ipval (nth_addr c k) + 1) mod 256 ^ length (addr c)"
    using ipval_inc [of "nth_addr c k"] by (simp add: nth_addr_def length_nth_addr [unfolded nth_addr_def])
  also have "\<dots> = (ipval (base c) + k + 1) mod 256 ^ length (addr c)"
    unfolding Suc.IH by (simp add: mod_simps)
  finally show ?case by simp
qed

lemma base_aligned:
  assumes "valid c"
  shows "ipval (base c) = ipval (addr c) div size_of c * size_of c"
proof -
  from assms have "nat (ones c) \<le> 8 * length (addr c)" by (auto simp: valid_def)
  then show ?thesis
    unfolding base_def netmask_def size_of_def by (intro ipval_masked) simp_all
qed

lemma size_of_total:
  assumes "valid c"
  shows "size_of c * 2 ^ nat (ones c) = 256 ^ length (addr c)"
proof -
  from assms have "nat (ones c) \<le> 8 * length (addr c)" by (auto simp: valid_def)
  then have "8 * length (addr c) = (8 * length (addr c) - nat (ones c)) + nat (ones c)" by simp
  then have "(2::nat) ^ (8 * length (addr c)) = size_of c * 2 ^ nat (ones c)"
    unfolding size_of_def by (metis power_add)
  then show ?thesis by (simp add: pow256)
qed

text \<open>The arithmetic of the enumeration, on plain numbers.\<close>

lemma enum_inside:
  fixes q N P j :: nat
  assumes "q * N < N * P" "j < N"
  shows "(q * N + j) mod (N * P) div N = q"
proof -
  from assms(1) have "q < P" by (simp add: mult.commute)
  then have "q + 1 \<le> P" by simp
  then have "(q + 1) * N \<le> P * N" by (rule mult_le_mono1)
  with assms(2) have "q * N + j < N * P" by (simp add: algebra_simps)
  then have "(q * N + j) mod (N * P) = q * N + j" by simp
  with assms(2) show ?thesis by simp
qed

lemma enum_after:
  fixes q N P :: nat
  assumes "q * N < N * P" "0 < N" "2 \<le> P"
  shows "(q * N + N) mod (N * P) div N \<noteq> q"
proof -
  from assms(1) have "q < P" by (simp add: mult.commute)
  show ?thesis
  proof (cases "q + 1 = P")
    case True
    have "q * N + N = N * (q + 1)" by (simp add: algebra_simps)
    then have "q * N + N = N * P" by (simp only: True)
    then have "(q * N + N) mod (N * P) div N = 0" by simp
    moreover from True assms(3) have "q \<noteq> 0" by simp
    ultimately show ?thesis by simp
  next
    case False
    with \<open>q < P\<close> have "q + 2 \<le> P" by simp
    then have "(q + 2) * N \<le> P * N" by (rule mult_le_mono1)
    with assms(2) have "q * N + N < N * P" by (simp add: algebra_simps)
    then have "(q * N + N) mod (N * P) = (q + 1) * N" by (simp add: algebra_simps)
    then have "(q * N + N) mod (N * P) div N = q + 1" using assms(2) by simp
    then show ?thesis by simp
  qed
qed

lemma Contains_nth_addr:
  assumes "narrow c" "k < size_of c"
  shows "Contains (network c) (nth_addr c k)"
proof -
  from assms(1) have v: "valid c" by (simp add: narrow_def)
  define q where "q = ipval (addr c) div size_of c"
  define P :: nat where "P = 2 ^ nat (ones c)"
  have b: "ipval (base c) = q * size_of c" unfolding q_def by (rule base_aligned [OF v])
  have t: "256 ^ length (addr c) = size_of c * P" unfolding P_def by (rule size_of_total [OF v, symmetric])
  have "ipval (base c) < 256 ^ length (addr c)"
    using ipval_lt [of "base c"] by (simp add: length_base)
  then have lt: "q * size_of c < size_of c * P" by (simp only: b t)
  have pos: "0 < size_of c" by (simp add: size_of_def)
  have "(q * size_of c + k) mod (size_of c * P) div size_of c = q"
    using lt assms(2) by (rule enum_inside)
  moreover have "q * size_of c div size_of c = q" using pos by simp
  ultimately show ?thesis
    unfolding Contains_narrow [OF assms(1) length_nth_addr] ipval_nth_addr_mod
    by (simp only: b t size_of_def [symmetric])
qed

lemma not_Contains_after:
  assumes "narrow c" "1 \<le> ones c"
  shows "\<not> Contains (network c) (nth_addr c (size_of c))"
proof -
  from assms(1) have v: "valid c" by (simp add: narrow_def)
  define q where "q = ipval (addr c) div size_of c"
  define P :: nat where "P = 2 ^ nat (ones c)"
  have b: "ipval (base c) = q * size_of c" unfolding q_def by (rule base_aligned [OF v])
  have t: "256 ^ length (addr c) = size_of c * P" unfolding P_def by (rule size_of_total [OF v, symmetric])
  have "ipval (base c) < 256 ^ length (addr c)"
    using ipval_lt [of "base c"] by (simp add: length_base)
  then have lt: "q * size_of c < size_of c * P" by (simp only: b t)
  have pos: "0 < size_of c" by (simp add: size_of_def)
  from assms(2) have "1 \<le> nat (ones c)" by simp
  then have "(2::nat) ^ 1 \<le> 2 ^ nat (ones c)" by (intro power_increasing) simp_all
  then have P2: "2 \<le> P" by (simp add: P_def)
  have "(q * size_of c + size_of c) mod (size_of c * P) div size_of c \<noteq> q"
    using lt pos P2 by (rule enum_after)
  moreover have "q * size_of c div size_of c = q" using pos by simp
  ultimately show ?thesis
    unfolding Contains_narrow [OF assms(1) length_nth_addr] ipval_nth_addr_mod
    by (simp only: b t size_of_def [symmetric] not_False_eq_True)
qed

lemma expand_loop_from:
  assumes "narrow c" "1 \<le> ones c"
  shows "j \<le> size_of c \<Longrightarrow>
         expand_loop String (network c) (nth_addr c j) ips =
           Some (ips @ map (\<lambda>k. String (nth_addr c k)) [j..<size_of c])"
proof (induction "size_of c - j" arbitrary: j ips)
  case 0
  then have j: "j = size_of c" by simp
  have "\<not> Contains (network c) (nth_addr c j)"
    unfolding j by (rule not_Contains_after [OF assms])
  then show ?case by (subst expand_loop.simps) (simp add: j)
next
  case (Suc n)
  then have lt: "j < size_of c" and n: "n = size_of c - Suc j" and le: "Suc j \<le> size_of c"
    by simp_all
  have c: "Contains (network c) (nth_addr c j)" by (rule Contains_nth_addr [OF assms(1) lt])
  have s: "inc (nth_addr c j) = nth_addr c (Suc j)" by (simp add: nth_addr_def)
  have "expand_loop String (network c) (nth_addr c j) ips =
        expand_loop String (network c) (nth_addr c (Suc j)) (ips @ [String (nth_addr c j)])"
    by (subst expand_loop.simps) (simp add: c s)
  also have "\<dots> = Some ((ips @ [String (nth_addr c j)]) @
                 map (\<lambda>k. String (nth_addr c k)) [Suc j..<size_of c])"
    by (rule Suc.hyps(1) [OF n le])
  also have "\<dots> = Some (ips @ map (\<lambda>k. String (nth_addr c k)) [j..<size_of c])"
    using lt by (simp add: upt_conv_Cons)
  finally show ?case .
qed

lemma expand_loop_narrow:
  assumes "narrow c" "1 \<le> ones c"
  shows "expand_loop String (network c) (base c) [] = Some (map String (addresses c))"
  using expand_loop_from [OF assms, of 0 String "[]"]
  by (simp add: nth_addr_def addresses_def comp_def)

lemma length_addresses: "length (addresses c) = size_of c"
  by (simp add: addresses_def)

lemma expandCIDR_narrow:
  assumes "narrow c" "1 \<le> ones c"
  shows "expandCIDR String c =
     Some (Inr (if 2 < size_of c
                then take (size_of c - 2) (drop 1 (map String (addresses c)))
                else map String (addresses c)))"
proof -
  from assms(1) have v: "valid c" by (simp add: narrow_def)
  have n: "net_Mask (network c) = netmask c" by (simp add: network_def)
  show ?thesis
    by (simp add: expandCIDR_def ParseCIDR_valid [OF v] n expand_loop_narrow [OF assms] length_addresses)
qed

lemma inner_addresses:
  "take (size_of c - 2) (drop 1 (map String (addresses c))) =
   map (\<lambda>k. String (nth_addr c k)) [1..<size_of c - 1]"
proof -
  have "drop 1 (map String (addresses c)) = map (\<lambda>k. String (nth_addr c k)) [1..<size_of c]"
    by (simp add: addresses_def drop_map comp_def)
  moreover have "take (size_of c - 2) [1..<size_of c] = [1..<size_of c - 1]"
  proof (cases "2 \<le> size_of c")
    case True
    then have "1 + (size_of c - 2) \<le> size_of c" by simp
    then have "take (size_of c - 2) [1..<size_of c] = [1..<1 + (size_of c - 2)]"
      by (rule take_upt)
    moreover from True have "1 + (size_of c - 2) = size_of c - 1" by simp
    ultimately show ?thesis by (simp only:)
  next
    case False
    then show ?thesis by simp
  qed
  ultimately show ?thesis by (simp add: take_map)
qed

lemma ipval_nth_addr:
  assumes "valid c" "k < size_of c"
  shows "ipval (nth_addr c k) = ipval (base c) + k"
proof -
  define q where "q = ipval (addr c) div size_of c"
  define P :: nat where "P = 2 ^ nat (ones c)"
  have b: "ipval (base c) = q * size_of c" unfolding q_def by (rule base_aligned [OF assms(1)])
  have t: "256 ^ length (addr c) = size_of c * P"
    unfolding P_def by (rule size_of_total [OF assms(1), symmetric])
  have "ipval (base c) < 256 ^ length (addr c)"
    using ipval_lt [of "base c"] by (simp add: length_base)
  then have "q * size_of c < size_of c * P" by (simp only: b t)
  then have "q < P" by (simp add: mult.commute)
  then have "q + 1 \<le> P" by simp
  then have "(q + 1) * size_of c \<le> P * size_of c" by (rule mult_le_mono1)
  with assms(2) have "q * size_of c + k < size_of c * P" by (simp add: algebra_simps)
  then show ?thesis
    unfolding ipval_nth_addr_mod by (simp only: b t mod_less)
qed

lemma Contains_iff_addresses:
  assumes "narrow c" "length ip = length (addr c)"
  shows "Contains (network c) ip \<longleftrightarrow> ip \<in> set (addresses c)"
proof
  assume "ip \<in> set (addresses c)"
  then obtain k where "k < size_of c" "ip = nth_addr c k" by (auto simp: addresses_def)
  then show "Contains (network c) ip" using Contains_nth_addr [OF assms(1)] by simp
next
  assume c: "Contains (network c) ip"
  from assms(1) have v: "valid c" by (simp add: narrow_def)
  define N where "N = size_of c"
  define q where "q = ipval (addr c) div N"
  have pos: "0 < N" by (simp add: N_def size_of_def)
  have b: "ipval (base c) = q * N" unfolding q_def N_def by (rule base_aligned [OF v])
  from c have "ipval ip div N = q * N div N"
    unfolding Contains_narrow [OF assms] by (simp only: b N_def size_of_def)
  then have d: "ipval ip div N = q" using pos by simp
  define k where "k = ipval ip mod N"
  have k: "k < N" using pos by (simp add: k_def)
  have "ipval ip = q * N + k"
    using d div_mult_mod_eq [of "ipval ip" N] by (simp add: k_def)
  also have "\<dots> = ipval (nth_addr c k)"
    using ipval_nth_addr [OF v, of k] k by (simp add: b N_def)
  finally have "ip = nth_addr c k"
    by (intro ipval_inj) (simp_all add: assms(2) length_nth_addr)
  with k show "ip \<in> set (addresses c)" by (simp add: addresses_def N_def)
qed

lemma base_full:
  assumes "ones c = 8 * int (length (addr c))"
  shows "base c = addr c"
proof -
  from assms have n: "nat (ones c) = 8 * length (addr c)" by simp
  have "netmask c = replicate (length (addr c)) 0xff"
    using CIDRMask_bytes_ff [of "length (addr c)" "nat (ones c)" 0] by (simp add: netmask_def n)
  then show ?thesis by (simp add: base_def map2_and_ff)
qed

lemma expand_loop_never:
  assumes all: "\<And>ip. length ip = l \<Longrightarrow> Contains n ip"
    and len: "length ip = l"
  shows "expand_loop String n ip ips = None"
proof (cases "expand_loop String n ip ips")
  case None
  then show ?thesis .
next
  case (Some r)
  have "n = n \<longrightarrow> length ip = l \<longrightarrow> False"
  proof (rule expand_loop.raw_induct
      [where P = "\<lambda>S m i acc y. m = n \<longrightarrow> length i = l \<longrightarrow> False", OF _ Some])
    fix f :: "(IP \<Rightarrow> string) \<Rightarrow> IPNet \<Rightarrow> IP \<Rightarrow> string list \<Rightarrow> string list option"
      and S m i acc y
    assume ih: "\<And>S m i acc y. f S m i acc = Some y \<Longrightarrow> m = n \<longrightarrow> length i = l \<longrightarrow> False"
      and st: "(if Contains m i then f S m (inc i) (acc @ [S i]) else Some acc) = Some y"
    show "m = n \<longrightarrow> length i = l \<longrightarrow> False"
    proof (intro impI)
      assume m: "m = n" and li: "length i = l"
      then have "Contains m i" using all by simp
      with st have "f S m (inc i) (acc @ [S i]) = Some y" by simp
      then have "m = n \<longrightarrow> length (inc i) = l \<longrightarrow> False" by (rule ih)
      with m li show False by (simp add: length_inc)
    qed
  qed
  with len show ?thesis by simp
qed

lemma Contains_slash0:
  assumes "length (addr c) = 4" "ones c = 0" "length ip = 4"
  shows "Contains (network c) ip"
proof -
  have n: "narrow c" using assms(1,2) by (simp add: narrow_def valid_def)
  have "ipval ip < 256 ^ 4" using ipval_lt [of ip] by (simp add: assms(3))
  moreover have "ipval (base c) < 256 ^ 4" using ipval_lt [of "base c"] by (simp add: length_base assms(1))
  ultimately show ?thesis
    unfolding Contains_narrow [OF n, of ip, unfolded assms(1), OF assms(3)] by (simp add: assms(2))
qed

lemma expandCIDR_slash0:
  assumes "length (addr c) = 4" "ones c = 0"
  shows "expandCIDR String c = None"
proof -
  have v: "valid c" using assms by (simp add: valid_def)
  have n: "net_Mask (network c) = netmask c" by (simp add: network_def)
  have "expand_loop String (network c) (base c) [] = None"
    by (rule expand_loop_never [where l = 4]) (simp_all add: Contains_slash0 [OF assms] length_base assms(1))
  then show ?thesis
    by (simp add: expandCIDR_def ParseCIDR_valid [OF v] n)
qed

subsection \<open>The claims about the address expander\<close>

lemma small_narrow:
  assumes "valid c" "size_of c \<le> 2"
  shows "narrow c" "1 \<le> ones c"
proof -
  from assms(2) have "(2::nat) ^ (8 * length (addr c) - nat (ones c)) \<le> 2 ^ 1"
    by (simp add: size_of_def)
  then have "8 * length (addr c) - nat (ones c) \<le> 1"
    by (simp only: power_increasing_iff one_less_numeral_iff semiring_norm)
  with assms(1) show "narrow c" "1 \<le> ones c"
    by (auto simp: narrow_def valid_def)
qed

text \<open>
  Claim C2 asks that for every CIDR with more than two addresses the expander returns all
  of them but the first and the last. On the CIDR \<open>0.0.0.0/0\<close> the loop of expandCIDR
  never exits: every address is contained in the network, and \<open>inc\<close> wraps around from
  255.255.255.255 to 0.0.0.0. So expandCIDR returns nothing at all there.
\<close>

theorem expandCIDR_whole_IPv4_space_never_returns:
  "expandCIDR String \<lparr>addr = [0, 0, 0, 0], ones = 0\<rparr> = None"
  by (rule expandCIDR_slash0) simp_all

text \<open>
  What holds of claim C2: for every IPv4 CIDR with a prefix of at least one bit, and every
  IPv6 CIDR with a prefix of at least 96 bits, that has more than two addresses,
  expandCIDR returns the addresses number 1 to N - 2 counted from the masked base address,
  in this order; these are N - 2 addresses, the \<open>k\<close>-th address is the number of the
  base plus \<open>k\<close>, and the N addresses counted from the base are exactly the addresses the
  network contains.
\<close>

theorem expandCIDR_drops_first_and_last:
  "narrow c \<and> 1 \<le> ones c \<and> 2 < size_of c \<longrightarrow>
     expandCIDR String c = Some (Inr (map (\<lambda>k. String (nth_addr c k)) [1..<size_of c - 1])) \<and>
     length (map (\<lambda>k. String (nth_addr c k)) [1..<size_of c - 1]) = size_of c - 2 \<and>
     (\<forall>k. k < size_of c \<longrightarrow> ipval (nth_addr c k) = ipval (base c) + k) \<and>
     (\<forall>ip. length ip = length (addr c) \<longrightarrow>
        (Contains (network c) ip \<longleftrightarrow> (\<exists>k. k < size_of c \<and> ip = nth_addr c k)))"
proof (intro impI, elim conjE)
  assume n: "narrow c" and o: "1 \<le> ones c" and s: "2 < size_of c"
  from n have v: "valid c" by (simp add: narrow_def)
  have "expandCIDR String c =
      Some (Inr (take (size_of c - 2) (drop 1 (map String (addresses c)))))"
    using s by (simp add: expandCIDR_narrow [OF n o])
  then have e: "expandCIDR String c = Some (Inr (map (\<lambda>k. String (nth_addr c k)) [1..<size_of c - 1]))"
    by (simp only: inner_addresses)
  have m: "(\<exists>k. k < size_of c \<and> ip = nth_addr c k) \<longleftrightarrow> ip \<in> set (addresses c)" for ip
    by (auto simp: addresses_def)
  show "expandCIDR String c = Some (Inr (map (\<lambda>k. String (nth_addr c k)) [1..<size_of c - 1])) \<and>
     length (map (\<lambda>k. String (nth_addr c k)) [1..<size_of c - 1]) = size_of c - 2 \<and>
     (\<forall>k. k < size_of c \<longrightarrow> ipval (nth_addr c k) = ipval (base c) + k) \<and>
     (\<forall>ip. length ip = length (addr c) \<longrightarrow>
        (Contains (network c) ip \<longleftrightarrow> (\<exists>k. k < size_of c \<and> ip = nth_addr c k)))"
    using e ipval_nth_addr [OF v] Contains_iff_addresses [OF n] unfolding m by simp
qed

theorem expandCIDR_drops_first_and_last_witness:
  "narrow \<lparr>addr = [10, 0, 0, 0], ones = 30\<rparr> \<and>
   1 \<le> ones \<lparr>addr = [10, 0, 0, 0], ones = 30\<rparr> \<and>
   2 < size_of \<lparr>addr = [10, 0, 0, 0], ones = 30\<rparr> \<and>
   expandCIDR dotted \<lparr>addr = [10, 0, 0, 0], ones = 30\<rparr> = Some (Inr [''10.0.0.1'', ''10.0.0.2''])"
proof -
  let ?c = "\<lparr>addr = [10, 0, 0, 0], ones = 30\<rparr>"
  have h: "narrow ?c \<and> 1 \<le> ones ?c \<and> 2 < size_of ?c"
    by (simp add: narrow_def valid_def size_of_def)
  have s: "size_of ?c - 1 = 3" by (simp add: size_of_def)
  have a: "map (nth_addr ?c) [1..<3] = [[10, 0, 0, 1], [10, 0, 0, 2]]" by code_simp
  have d: "map dotted [[10, 0, 0, 1], [10, 0, 0, 2]] = [''10.0.0.1'', ''10.0.0.2'']" by code_simp
  have "map (\<lambda>k. dotted (nth_addr ?c k)) [1..<3] = map dotted (map (nth_addr ?c) [1..<3])"
    by (simp only: map_map comp_def)
  then have m: "map (\<lambda>k. dotted (nth_addr ?c k)) [1..<3] = [''10.0.0.1'', ''10.0.0.2'']"
    by (simp only: a d)
  from expandCIDR_drops_first_and_last [of ?c dotted] h
  have "expandCIDR dotted ?c = Some (Inr (map (\<lambda>k. dotted (nth_addr ?c k)) [1..<size_of ?c - 1]))"
    by blast
  then have "expandCIDR dotted ?c = Some (Inr [''10.0.0.1'', ''10.0.0.2''])"
    by (simp only: s m)
  with h show ?thesis by blast
qed

text \<open>
  Claim C9. A CIDR that parses and has at most two addresses (an IPv4 /31 or /32, an IPv6
  /127 or /128) is expanded to all of its addresses: the result is the list of the
  addresses counted from the masked base, as many as the range has, and these are exactly
  the addresses the network contains. A CIDR whose prefix covers the whole address gives
  the one address it names.
\<close>

theorem expandCIDR_small_range:
  "valid c \<and> size_of c \<le> 2 \<longrightarrow>
     expandCIDR String c = Some (Inr (map String (addresses c))) \<and>
     length (addresses c) = size_of c \<and>
     (\<forall>ip. length ip = length (addr c) \<longrightarrow> (Contains (network c) ip \<longleftrightarrow> ip \<in> set (addresses c))) \<and>
     (ones c = 8 * int (length (addr c)) \<longrightarrow> expandCIDR String c = Some (Inr [String (addr c)]))"
proof (intro impI, elim conjE)
  assume v: "valid c" and s: "size_of c \<le> 2"
  note n = small_narrow [OF v s]
  have e: "expandCIDR String c = Some (Inr (map String (addresses c)))"
    using s by (simp add: expandCIDR_narrow [OF n])
  have full: "expandCIDR String c = Some (Inr [String (addr c)])" if "ones c = 8 * int (length (addr c))"
  proof -
    from that have "size_of c = 1" by (simp add: size_of_def)
    then have "addresses c = [base c]" by (simp add: addresses_def nth_addr_def)
    with e show ?thesis by (simp add: base_full [OF that])
  qed
  show "expandCIDR String c = Some (Inr (map String (addresses c))) \<and>
     length (addresses c) = size_of c \<and>
     (\<forall>ip. length ip = length (addr c) \<longrightarrow> (Contains (network c) ip \<longleftrightarrow> ip \<in> set (addresses c))) \<and>
     (ones c = 8 * int (length (addr c)) \<longrightarrow> expandCIDR String c = Some (Inr [String (addr c)]))"
    using e full Contains_iff_addresses [OF n(1)] by (simp add: length_addresses)
qed

theorem expandCIDR_small_range_witness:
  "valid \<lparr>addr = [10, 0, 0, 7], ones = 32\<rparr> \<and>
   size_of \<lparr>addr = [10, 0, 0, 7], ones = 32\<rparr> \<le> 2 \<and>
   expandCIDR dotted \<lparr>addr = [10, 0, 0, 7], ones = 32\<rparr> = Some (Inr [''10.0.0.7'']) \<and>
   valid \<lparr>addr = [10, 0, 0, 6], ones = 31\<rparr> \<and>
   size_of \<lparr>addr = [10, 0, 0, 6], ones = 31\<rparr> \<le> 2 \<and>
   expandCIDR dotted \<lparr>addr = [10, 0, 0, 6], ones = 31\<rparr> = Some (Inr [''10.0.0.6'', ''10.0.0.7''])"
proof -
  let ?c = "\<lparr>addr = [10, 0, 0, 7], ones = 32\<rparr>"
  let ?d = "\<lparr>addr = [10, 0, 0, 6], ones = 31\<rparr>"
  have hc: "valid ?c \<and> size_of ?c \<le> 2" and fc: "ones ?c = 8 * int (length (addr ?c))"
    by (simp_all add: valid_def size_of_def)
  have hd: "valid ?d \<and> size_of ?d \<le> 2"
    by (simp add: valid_def size_of_def)
  have d7: "dotted [10, 0, 0, 7] = ''10.0.0.7''" by code_simp
  have ad: "map dotted (addresses ?d) = [''10.0.0.6'', ''10.0.0.7'']" by code_simp
  from expandCIDR_small_range [of ?c dotted] hc fc
  have "expandCIDR dotted ?c = Some (Inr [dotted (addr ?c)])" by blast
  then have 1: "expandCIDR dotted ?c = Some (Inr [''10.0.0.7''])" using d7 by simp
  from expandCIDR_small_range [of ?d dotted] hd
  have "expandCIDR dotted ?d = Some (Inr (map dotted (addresses ?d)))" by blast
  then have 2: "expandCIDR dotted ?d = Some (Inr [''10.0.0.6'', ''10.0.0.7''])"
    by (simp only: ad)
  from hc hd 1 2 show ?thesis by blast
qed

section \<open>Fingerprinting\<close>

lemma processed_Nil: "processed c [] = 0"
  by (simp add: processed_def split: option.splits)

lemma processed_Cons:
  "processed c (p # ps) = (if Done c then 0 else Suc (processed (later c) ps))"
  by (cases c) (auto simp: processed_def Done_def later_def min_def)

lemma host_loop_lookup:
  "host_loop fp c ports m q =
     (if q \<in> set (take (processed c ports) ports) then Some (fp q) else m q)"
proof (induction ports arbitrary: c m)
  case Nil
  show ?case by (simp add: processed_Nil)
next
  case (Cons p ps)
  show ?case
  proof (cases "Done c")
    case True
    then show ?thesis by (simp add: processed_Cons)
  next
    case False
    then show ?thesis by (simp add: processed_Cons Cons.IH)
  qed
qed

lemma dom_host_loop:
  "dom (host_loop fp c ports m) = dom m \<union> set (take (processed c ports) ports)"
  by (auto simp: dom_def host_loop_lookup)

lemma probes_dial_failure:
  assumes "dial W ip port False = None"
  shows "probeGeneric f W ip port = no_info"
    "probeSSH f W ip port = no_info\<lparr>ServiceName := ''ssh''\<rparr>"
    "probeTelnet f W ip port = no_info\<lparr>ServiceName := ''telnet''\<rparr>"
    "probeFTP f L W ip port = no_info\<lparr>ServiceName := ''ftp''\<rparr>"
    "probeSMTP f L W ip port = no_info\<lparr>ServiceName := ''smtp''\<rparr>"
    "probePOP3 f L W ip port = no_info\<lparr>ServiceName := ''pop3''\<rparr>"
    "probeIMAP f L W ip port = no_info\<lparr>ServiceName := ''imap''\<rparr>"
    "probeMySQL f W ip port = no_info\<lparr>ServiceName := ''mysql''\<rparr>"
    "probePostgreSQL f W ip port = no_info\<lparr>ServiceName := ''postgresql''\<rparr>"
    "probeRedis f L W ip port = no_info\<lparr>ServiceName := ''redis''\<rparr>"
    "probeMongoDB f W ip port = no_info\<lparr>ServiceName := ''mongodb''\<rparr>"
    "probeHTTP f L W ip port False = no_info\<lparr>ServiceName := ''http''\<rparr>"
  using assms
  by (simp_all add: probeGeneric_def probeSSH_def probeTelnet_def probeFTP_def probeSMTP_def
      probePOP3_def probeIMAP_def probeMySQL_def probePostgreSQL_def probeRedis_def
      probeMongoDB_def probeHTTP_def)

lemma probeHTTPS_dial_failure:
  "dial W ip port True = None \<Longrightarrow> probeHTTP f L W ip port True = no_info\<lparr>ServiceName := ''https''\<rparr>"
  by (simp add: probeHTTP_def)

lemma default_names:
  "getDefaultServiceName 21 = ''ftp''" "getDefaultServiceName 22 = ''ssh''"
  "getDefaultServiceName 23 = ''telnet''" "getDefaultServiceName 25 = ''smtp''"
  "getDefaultServiceName 80 = ''http''" "getDefaultServiceName 443 = ''https''"
  "getDefaultServiceName 110 = ''pop3''" "getDefaultServiceName 143 = ''imap''"
  "getDefaultServiceName 3306 = ''mysql''" "getDefaultServiceName 5432 = ''postgresql''"
  "getDefaultServiceName 6379 = ''redis''" "getDefaultServiceName 27017 = ''mongodb''"
  "getDefaultServiceName 465 = ''smtps''" "getDefaultServiceName 587 = ''submission''"
  "getDefaultServiceName 8080 = ''http-proxy''" "getDefaultServiceName 8443 = ''https-alt''"
  "getDefaultServiceName 8000 = ''unknown''" "getDefaultServiceName 8888 = ''unknown''"
  by (simp_all add: getDefaultServiceName_def services_def)

lemma fingerprintPort_unreachable:
  assumes "dial W ip port False = None" "dial W ip port True = None"
  shows "fingerprintPort f L W ip port =
     \<lparr>ServiceName = probe_name port, ServiceVersion = [], Banner = [], Fingerprint = None\<rparr>"
proof -
  note p = probes_dial_failure [OF assms(1)] probeHTTPS_dial_failure [OF assms(2)]
  show ?thesis
    unfolding fingerprintPort_def p
    by (simp add: no_info_def probe_name_def default_names Let_def)
qed

subsection \<open>The claims about the fingerprinters\<close>

lemma ssh_banner:
  "fingerprintPort f L ssh_host ''10.0.0.1'' 22 =
     \<lparr>ServiceName = ''ssh'', ServiceVersion = ''OpenSSH_9.0'', Banner = ''SSH-2.0-OpenSSH_9.0'',
      Fingerprint = None\<rparr>"
  by code_simp

text \<open>
  Claim C3, as the code has it. When the dial fails, native fingerprinting returns a
  ServiceInfo whose version and banner are empty and whose map is nil. Its name is the
  name the port's protocol probe sets before it dials: this is the entry of the default
  table (or \<open>unknown\<close> for a port that has no entry and no probe) except on the ports
  465 and 587, where it is \<open>smtp\<close>, on 8000, 8080 and 8888, where it is \<open>http\<close>, and on
  8443, where it is \<open>https\<close>.
\<close>

theorem fingerprintPort_dial_failure:
  "dial W ip port False = None \<and> dial W ip port True = None \<longrightarrow>
   fingerprintPort f L W ip port =
     \<lparr>ServiceName =
        (if port = 465 \<or> port = 587 then ''smtp''
         else if port = 8080 \<or> port = 8000 \<or> port = 8888 then ''http''
         else if port = 8443 then ''https''
         else getDefaultServiceName port),
      ServiceVersion = [], Banner = [], Fingerprint = None\<rparr>"
  using fingerprintPort_unreachable [of W ip port f L] by (simp add: probe_name_def)

theorem fingerprintPort_dial_failure_witness:
  "\<forall>f L.
     dial unreachable ''10.0.0.9'' 587 False = None \<and>
     dial unreachable ''10.0.0.9'' 587 True = None \<and>
     fingerprintPort f L unreachable ''10.0.0.9'' 587 =
       \<lparr>ServiceName = ''smtp'', ServiceVersion = [], Banner = [], Fingerprint = None\<rparr> \<and>
     fingerprintPort f L unreachable ''10.0.0.9'' 22 =
       \<lparr>ServiceName = ''ssh'', ServiceVersion = [], Banner = [], Fingerprint = None\<rparr> \<and>
     fingerprintPort f L unreachable ''10.0.0.9'' 9999 =
       \<lparr>ServiceName = ''unknown'', ServiceVersion = [], Banner = [], Fingerprint = None\<rparr>"
proof (intro allI)
  fix f L
  have d: "dial unreachable ip port tls = None" for ip port tls
    by (simp add: unreachable_def)
  have n: "getDefaultServiceName 22 = ''ssh''" "getDefaultServiceName 9999 = ''unknown''"
    by (simp_all add: getDefaultServiceName_def services_def)
  from fingerprintPort_dial_failure [of unreachable "''10.0.0.9''" 587 f L]
    fingerprintPort_dial_failure [of unreachable "''10.0.0.9''" 22 f L]
    fingerprintPort_dial_failure [of unreachable "''10.0.0.9''" 9999 f L]
  show "dial unreachable ''10.0.0.9'' 587 False = None \<and>
     dial unreachable ''10.0.0.9'' 587 True = None \<and>
     fingerprintPort f L unreachable ''10.0.0.9'' 587 =
       \<lparr>ServiceName = ''smtp'', ServiceVersion = [], Banner = [], Fingerprint = None\<rparr> \<and>
     fingerprintPort f L unreachable ''10.0.0.9'' 22 =
       \<lparr>ServiceName = ''ssh'', ServiceVersion = [], Banner = [], Fingerprint = None\<rparr> \<and>
     fingerprintPort f L unreachable ''10.0.0.9'' 9999 =
       \<lparr>ServiceName = ''unknown'', ServiceVersion = [], Banner = [], Fingerprint = None\<rparr>"
    by (simp add: d n)
qed

text \<open>The claim as the specification states it, with the name of the default table on
  every port, fails on port 465: the probe names the service \<open>smtp\<close>, the table
  \<open>smtps\<close>.\<close>

theorem fingerprintPort_dial_failure_not_default_name:
  "\<not> (\<forall>f L W ip port.
        dial W ip port False = None \<and> dial W ip port True = None \<longrightarrow>
        ServiceName (fingerprintPort f L W ip port) = getDefaultServiceName port \<and>
        ServiceVersion (fingerprintPort f L W ip port) = [] \<and>
        Banner (fingerprintPort f L W ip port) = [] \<and>
        Fingerprint (fingerprintPort f L W ip port) = None)"
proof
  assume a: "\<forall>f L W ip port.
        dial W ip port False = None \<and> dial W ip port True = None \<longrightarrow>
        ServiceName (fingerprintPort f L W ip port) = getDefaultServiceName port \<and>
        ServiceVersion (fingerprintPort f L W ip port) = [] \<and>
        Banner (fingerprintPort f L W ip port) = [] \<and>
        Fingerprint (fingerprintPort f L W ip port) = None"
  have d: "dial unreachable ip port tls = None" for ip port tls
    by (simp add: unreachable_def)
  from a d have "\<forall>L. ServiceName (fingerprintPort NewFingerprinter L unreachable ''10.0.0.9'' 465) =
      getDefaultServiceName 465" by blast
  moreover have "\<forall>L. fingerprintPort NewFingerprinter L unreachable ''10.0.0.9'' 465 =
     \<lparr>ServiceName = probe_name 465, ServiceVersion = [], Banner = [], Fingerprint = None\<rparr>"
    by (intro allI fingerprintPort_unreachable) (simp_all add: d)
  ultimately show False by (simp add: probe_name_def default_names)
qed

section \<open>The delegated fingerprinter\<close>

subsection \<open>The loop of FingerprintHost with calls that can panic\<close>

lemma zgrab_host_loop_Inr:
  assumes "\<forall>p \<in> set (take (processed c ports) ports). \<exists>info. fp p = Inr info"
  shows "zgrab_host_loop fp c ports m = Inr (host_loop (\<lambda>p. projr (fp p)) c ports m)"
  using assms
proof (induction ports arbitrary: c m)
  case Nil
  show ?case by simp
next
  case (Cons p ps)
  show ?case
  proof (cases "Done c")
    case True
    then show ?thesis by simp
  next
    case False
    with Cons.prems obtain info where i: "fp p = Inr info"
      by (auto simp: processed_Cons)
    from Cons.prems False
    have "\<forall>q \<in> set (take (processed (later c) ps) ps). \<exists>info. fp q = Inr info"
      by (simp add: processed_Cons)
    then have "zgrab_host_loop fp (later c) ps (m(p \<mapsto> info)) =
        Inr (host_loop (\<lambda>p. projr (fp p)) (later c) ps (m(p \<mapsto> info)))"
      by (rule Cons.IH)
    with False i show ?thesis by simp
  qed
qed

lemma zgrab_host_loop_no_panic:
  assumes "zgrab_host_loop fp c ports m = Inr r"
  shows "\<forall>p \<in> set (take (processed c ports) ports). \<exists>info. fp p = Inr info"
  using assms
proof (induction ports arbitrary: c m)
  case Nil
  show ?case by (simp add: processed_Nil)
next
  case (Cons p ps)
  show ?case
  proof (cases "Done c")
    case True
    then show ?thesis by (simp add: processed_Cons)
  next
    case False
    with Cons.prems obtain info where i: "fp p = Inr info"
      by (cases "fp p") auto
    with Cons.prems False have "zgrab_host_loop fp (later c) ps (m(p \<mapsto> info)) = Inr r"
      by simp
    then have "\<forall>q \<in> set (take (processed (later c) ps) ps). \<exists>info. fp q = Inr info"
      by (rule Cons.IH)
    with False i show ?thesis by (simp add: processed_Cons)
  qed
qed

lemma zgrab_host_loop_panic:
  assumes "zgrab_host_loop fp c ports m = Inl x"
  shows "\<exists>p \<in> set (take (processed c ports) ports). fp p = Inl x"
  using assms
proof (induction ports arbitrary: c m)
  case Nil
  then show ?case by simp
next
  case (Cons p ps)
  show ?case
  proof (cases "Done c")
    case True
    with Cons.prems show ?thesis by simp
  next
    case False
    show ?thesis
    proof (cases "fp p")
      case (Inl y)
      with Cons.prems False show ?thesis by (simp add: processed_Cons)
    next
      case (Inr info)
      with Cons.prems False have "zgrab_host_loop fp (later c) ps (m(p \<mapsto> info)) = Inl x"
        by simp
      then have "\<exists>q \<in> set (take (processed (later c) ps) ps). fp q = Inl x"
        by (rule Cons.IH)
      with False show ?thesis by (simp add: processed_Cons)
    qed
  qed
qed


lemma run_grabbed:
  "zgrab_run (grabbed out) ip port = \<lparr>exited_ok = True, stdout = out, stderr = []\<rparr>"
  by (simp add: zgrab_run_def grabbed_def)

lemma outputs_differ:
  "undecodable_output \<noteq> timeout_output" "null_output \<noteq> timeout_output"
  "null_output \<noteq> undecodable_output"
  by (simp_all add: undecodable_output_def timeout_output_def null_output_def)

lemma Unmarshal_json:
  "Unmarshal (json L) timeout_output =
     Some \<lparr>result_IP = ''10.0.0.1'', Domain = [],
           Data = [(''ssh'', Some \<lparr>Status = ''io-timeout'', Protocol = ''ssh'', Timestamp = [],
                                   Result = [], Error = ''i/o timeout''\<rparr>)]\<rparr>"
  "Unmarshal (json L) undecodable_output =
     Some \<lparr>result_IP = ''10.0.0.1'', Domain = [],
           Data = [(''ssh'', Some \<lparr>Status = ''success'', Protocol = ''ssh'', Timestamp = [],
                                   Result = [CHR 0x22] @ ''none'' @ [CHR 0x22], Error = []\<rparr>)]\<rparr>"
  "Unmarshal (json L) null_output =
     Some \<lparr>result_IP = ''10.0.0.1'', Domain = [], Data = [(''ssh'', None)]\<rparr>"
  "Unmarshal_SSHResult (json L) ([CHR 0x22] @ ''none'' @ [CHR 0x22]) = None"
  by (simp_all add: json_def outputs_differ)

subsection \<open>The two ways out of fingerprintPort\<close>

lemma runZgrab_fails:
  assumes "\<not> exited_ok (zgrab_run W ip port) \<or> Unmarshal L (stdout (zgrab_run W ip port)) = None"
  shows "\<exists>err. runZgrab L W ip (zgrab_args (getZgrabModule port) port) = Inl err"
  using assms
  by (cases "exited_ok (zgrab_run W ip port)") (simp_all add: runZgrab_def zgrab_run_def Let_def)

lemma runZgrab_succeeds:
  assumes "exited_ok (zgrab_run W ip port)" "Unmarshal L (stdout (zgrab_run W ip port)) = Some result"
  shows "runZgrab L W ip (zgrab_args (getZgrabModule port) port) = Inr result"
  using assms by (simp add: runZgrab_def zgrab_run_def Let_def)

lemma parse_no_success:
  assumes "map_of (Data result) module = None \<or>
    (\<exists>m. map_of (Data result) module = Some (Some m) \<and> Status m \<noteq> ''success'')"
  shows "parseZgrabResult L result module port = Inr (no_info\<lparr>Fingerprint := Some []\<rparr>)"
  using assms by (auto simp: parseZgrabResult_def)


lemma plain_name:
  "(if ServiceName (no_info\<lparr>Fingerprint := Some fp\<rparr>) = []
    then (no_info\<lparr>Fingerprint := Some fp\<rparr>)\<lparr>ServiceName := getDefaultServiceName port\<rparr>
    else no_info\<lparr>Fingerprint := Some fp\<rparr>) = plain port fp"
  by (simp add: no_info_def plain_def)

lemma zgrab_FingerprintHost_entries:
  assumes "zgrab_FingerprintHost z L W c ip ports = Inr results"
  shows "dom results = set (take (processed c ports) ports) \<and>
    (\<forall>q \<in> set (take (processed c ports) ports).
       zgrab_fingerprintPort z L W ip q = Inr (the (results q)))"
proof -
  let ?fp = "zgrab_fingerprintPort z L W ip"
  from assms have l: "zgrab_host_loop ?fp c ports Map.empty = Inr results"
    by (simp add: zgrab_FingerprintHost_def)
  then have ok: "\<forall>p \<in> set (take (processed c ports) ports). \<exists>info. ?fp p = Inr info"
    by (rule zgrab_host_loop_no_panic)
  then have "zgrab_host_loop ?fp c ports Map.empty =
      Inr (host_loop (\<lambda>p. projr (?fp p)) c ports Map.empty)"
    by (rule zgrab_host_loop_Inr)
  with l have r: "results = host_loop (\<lambda>p. projr (?fp p)) c ports Map.empty"
    by simp
  have "dom results = set (take (processed c ports) ports)"
    unfolding r by (simp add: dom_host_loop)
  moreover have "?fp q = Inr (the (results q))"
    if "q \<in> set (take (processed c ports) ports)" for q
  proof -
    from ok that obtain info where "?fp q = Inr info" by blast
    moreover have "results q = Some (projr (?fp q))"
      unfolding r using that by (simp add: host_loop_lookup)
    ultimately show ?thesis by simp
  qed
  ultimately show ?thesis by blast
qed

lemma zgrab_fingerprintPort_fallback:
  assumes "\<not> exited_ok (zgrab_run W ip port) \<or> Unmarshal L (stdout (zgrab_run W ip port)) = None"
  shows "zgrab_fingerprintPort z L W ip port = Inr (fingerprintPort (Fallback z) L W ip port)"
proof -
  from assms obtain err where "runZgrab L W ip (zgrab_args (getZgrabModule port) port) = Inl err"
    using runZgrab_fails by blast
  then show ?thesis
    by (simp add: zgrab_fingerprintPort_def)
qed

lemma zgrab_fingerprintPort_parsed:
  assumes "exited_ok (zgrab_run W ip port)" "Unmarshal L (stdout (zgrab_run W ip port)) = Some result"
  shows "zgrab_fingerprintPort z L W ip port =
          (case parseZgrabResult L result (getZgrabModule port) port of
             Inl p \<Rightarrow> Inl p
           | Inr info \<Rightarrow>
               Inr (if ServiceName info = [] then info\<lparr>ServiceName := getDefaultServiceName port\<rparr>
                    else info))"
  using runZgrab_succeeds [OF assms] by (simp add: zgrab_fingerprintPort_def)

lemma timeout_run:
  "zgrab_fingerprintPort z (json L) (grabbed timeout_output) ''10.0.0.1'' 22 = Inr (plain 22 [])"
proof -
  have "parseZgrabResult (json L)
      \<lparr>result_IP = ''10.0.0.1'', Domain = [],
       Data = [(''ssh'', Some \<lparr>Status = ''io-timeout'', Protocol = ''ssh'', Timestamp = [],
                               Result = [], Error = ''i/o timeout''\<rparr>)]\<rparr>
      (getZgrabModule 22) 22 = Inr (no_info\<lparr>Fingerprint := Some []\<rparr>)"
    by (rule parse_no_success) (simp add: getZgrabModule_def)
  then show ?thesis
    by (subst zgrab_fingerprintPort_parsed [where result = "\<lparr>result_IP = ''10.0.0.1'', Domain = [],
       Data = [(''ssh'', Some \<lparr>Status = ''io-timeout'', Protocol = ''ssh'', Timestamp = [],
                               Result = [], Error = ''i/o timeout''\<rparr>)]\<rparr>"])
      (simp_all only: run_grabbed process.simps Unmarshal_json sum.case plain_name)
qed


lemma null_run:
  "zgrab_fingerprintPort z (json L) (grabbed null_output) ''10.0.0.1'' 22 =
     Inl nil_pointer_dereference"
proof -
  let ?r = "\<lparr>result_IP = ''10.0.0.1'', Domain = [], Data = [(''ssh'', None)]\<rparr>"
  have "parseZgrabResult (json L) ?r (getZgrabModule 22) 22 = Inl nil_pointer_dereference"
    by (simp add: parseZgrabResult_def getZgrabModule_def)
  then show ?thesis
    by (subst zgrab_fingerprintPort_parsed [where result = ?r])
      (simp_all only: run_grabbed process.simps Unmarshal_json sum.case)
qed


lemma zgrab_ssh_host:
  "zgrab_fingerprintPort z L ssh_host ip port = Inr (fingerprintPort (Fallback z) L ssh_host ip port)"
  by (rule zgrab_fingerprintPort_fallback) (simp add: zgrab_run_def ssh_host_def)




text \<open>
  Claim C10 asks that \<open>FingerprintHost\<close> of both fingerprinters returns a map with a key
  for each port. The delegated fingerprinter does not return at all when zgrab2 prints
  \<open>null\<close> for the entry of the module: \<open>parseZgrabResult\<close> reads the status through the
  \<open>nil\<close> pointer and the call panics.
\<close>

theorem zgrab_FingerprintHost_null_module_panics:
  "exited_ok (zgrab_run (grabbed null_output) ''10.0.0.1'' 22) \<and>
   Unmarshal (json L) (stdout (zgrab_run (grabbed null_output) ''10.0.0.1'' 22)) =
     Some \<lparr>result_IP = ''10.0.0.1'', Domain = [], Data = [(''ssh'', None)]\<rparr> \<and>
   zgrab_fingerprintPort z (json L) (grabbed null_output) ''10.0.0.1'' 22 =
     Inl nil_pointer_dereference \<and>
   zgrab_FingerprintHost z (json L) (grabbed null_output) None ''10.0.0.1'' [22] =
     Inl nil_pointer_dereference"
proof -
  have "zgrab_FingerprintHost z (json L) (grabbed null_output) None ''10.0.0.1'' [22] =
     Inl nil_pointer_dereference"
    by (simp add: zgrab_FingerprintHost_def Done_def null_run)
  then show ?thesis
    by (simp add: run_grabbed Unmarshal_json null_run)
qed

text \<open>
  What holds of the claim: the keys of the map of the native \<open>FingerprintHost\<close> are the
  ports of the list the loop got to before the context was done, a prefix of the list,
  each with the ServiceInfo of its own call, and all ports of the list with a context
  that is not cancelled while the loop runs. The delegated \<open>FingerprintHost\<close> returns a
  map exactly when none of the calls for these ports panics, and then the same holds of
  its map.
\<close>

theorem FingerprintHost_keys:
  "dom (FingerprintHost f L W c ip ports) = set (take (processed c ports) ports) \<and>
   (\<forall>port \<in> set (take (processed c ports) ports).
      FingerprintHost f L W c ip ports port = Some (fingerprintPort f L W ip port)) \<and>
   (c = None \<or> (\<exists>n. c = Some n \<and> length ports \<le> n) \<longrightarrow>
      dom (FingerprintHost f L W c ip ports) = set ports) \<and>
   ((\<exists>results. zgrab_FingerprintHost z L W c ip ports = Inr results) \<longleftrightarrow>
      (\<forall>port \<in> set (take (processed c ports) ports).
         \<exists>info. zgrab_fingerprintPort z L W ip port = Inr info)) \<and>
   (\<forall>results.
      zgrab_FingerprintHost z L W c ip ports = Inr results \<longrightarrow>
        dom results = set (take (processed c ports) ports) \<and>
        (\<forall>port \<in> set (take (processed c ports) ports).
           zgrab_fingerprintPort z L W ip port = Inr (the (results port))) \<and>
        (c = None \<or> (\<exists>n. c = Some n \<and> length ports \<le> n) \<longrightarrow> dom results = set ports))"
proof -
  have full: "take (processed c ports) ports = ports"
    if "c = None \<or> (\<exists>n. c = Some n \<and> length ports \<le> n)"
    using that by (auto simp: processed_def)
  have d: "dom (FingerprintHost f L W c ip ports) = set (take (processed c ports) ports)"
    by (simp add: FingerprintHost_def dom_host_loop)
  have v: "FingerprintHost f L W c ip ports port = Some (fingerprintPort f L W ip port)"
    if "port \<in> set (take (processed c ports) ports)" for port
    using that by (simp add: FingerprintHost_def host_loop_lookup)
  have i: "(\<exists>results. zgrab_FingerprintHost z L W c ip ports = Inr results) \<longleftrightarrow>
      (\<forall>port \<in> set (take (processed c ports) ports).
         \<exists>info. zgrab_fingerprintPort z L W ip port = Inr info)"
    unfolding zgrab_FingerprintHost_def
    using zgrab_host_loop_no_panic zgrab_host_loop_Inr by blast
  have z: "dom results = set (take (processed c ports) ports) \<and>
        (\<forall>port \<in> set (take (processed c ports) ports).
           zgrab_fingerprintPort z L W ip port = Inr (the (results port))) \<and>
        (c = None \<or> (\<exists>n. c = Some n \<and> length ports \<le> n) \<longrightarrow> dom results = set ports)"
    if "zgrab_FingerprintHost z L W c ip ports = Inr results" for results
    using zgrab_FingerprintHost_entries [OF that] full by simp
  have n: "c = None \<or> (\<exists>n. c = Some n \<and> length ports \<le> n) \<longrightarrow>
      dom (FingerprintHost f L W c ip ports) = set ports"
    using d full by simp
  from d v n i z show ?thesis
    by blast
qed

theorem FingerprintHost_keys_witness:
  "\<forall>f L z.
     dom (FingerprintHost f L ssh_host None ''10.0.0.1'' [22, 80, 22]) = {22, 80} \<and>
     dom (FingerprintHost f L ssh_host (Some 1) ''10.0.0.1'' [22, 80, 22]) = {22} \<and>
     FingerprintHost f L ssh_host (Some 1) ''10.0.0.1'' [22, 80, 22] 22 =
       Some \<lparr>ServiceName = ''ssh'', ServiceVersion = ''OpenSSH_9.0'',
        Banner = ''SSH-2.0-OpenSSH_9.0'', Fingerprint = None\<rparr> \<and>
     (\<exists>results. zgrab_FingerprintHost z L ssh_host None ''10.0.0.1'' [22, 80, 22] = Inr results \<and>
        dom results = {22, 80}) \<and>
     (\<exists>results. zgrab_FingerprintHost z L ssh_host (Some 1) ''10.0.0.1'' [22, 80, 22] = Inr results \<and>
        dom results = {22})"
proof (intro allI)
  fix f L z
  let ?ip = "''10.0.0.1''"
  let ?ps = "[22, 80, 22] :: int list"
  note n = FingerprintHost_keys [of f L ssh_host None ?ip "[22, 80, 22]" z]
  note s = FingerprintHost_keys [of f L ssh_host "Some 1" ?ip "[22, 80, 22]" z]
  have ok: "\<forall>port \<in> set (take (processed c ?ps) [22, 80, 22]).
      \<exists>info. zgrab_fingerprintPort z L ssh_host ?ip port = Inr info" for c
    by (simp add: zgrab_ssh_host)
  from n have "dom (FingerprintHost f L ssh_host None ?ip [22, 80, 22]) =
      set (take (processed None ?ps) [22, 80, 22])"
    by (rule conjunct1)
  then have 1: "dom (FingerprintHost f L ssh_host None ?ip [22, 80, 22]) = {22, 80}"
    by (simp add: processed_def insert_commute)
  from s have "dom (FingerprintHost f L ssh_host (Some 1) ?ip [22, 80, 22]) =
      set (take (processed (Some 1) ?ps) [22, 80, 22])"
    by (rule conjunct1)
  then have 2: "dom (FingerprintHost f L ssh_host (Some 1) ?ip [22, 80, 22]) = {22}"
    by (simp add: processed_def)
  from s [THEN conjunct2, THEN conjunct1]
  have 3: "FingerprintHost f L ssh_host (Some 1) ?ip [22, 80, 22] 22 =
       Some \<lparr>ServiceName = ''ssh'', ServiceVersion = ''OpenSSH_9.0'',
        Banner = ''SSH-2.0-OpenSSH_9.0'', Fingerprint = None\<rparr>"
    by (simp add: processed_def ssh_banner)
  from n [THEN conjunct2, THEN conjunct2, THEN conjunct2, THEN conjunct1] ok [of None]
  obtain r1 where r1: "zgrab_FingerprintHost z L ssh_host None ?ip [22, 80, 22] = Inr r1"
    by blast
  from n [THEN conjunct2, THEN conjunct2, THEN conjunct2, THEN conjunct2, THEN spec, THEN mp, OF r1]
  have "dom r1 = set (take (processed None ?ps) [22, 80, 22])"
    by (rule conjunct1)
  then have "dom r1 = {22, 80}"
    by (simp add: processed_def insert_commute)
  with r1 have 4: "\<exists>results. zgrab_FingerprintHost z L ssh_host None ?ip [22, 80, 22] = Inr results \<and>
        dom results = {22, 80}"
    by blast
  from s [THEN conjunct2, THEN conjunct2, THEN conjunct2, THEN conjunct1] ok [of "Some 1"]
  obtain r2 where r2: "zgrab_FingerprintHost z L ssh_host (Some 1) ?ip [22, 80, 22] = Inr r2"
    by blast
  from s [THEN conjunct2, THEN conjunct2, THEN conjunct2, THEN conjunct2, THEN spec, THEN mp, OF r2]
  have "dom r2 = set (take (processed (Some 1) ?ps) [22, 80, 22])"
    by (rule conjunct1)
  then have "dom r2 = {22}"
    by (simp add: processed_def)
  with r2 have 5: "\<exists>results. zgrab_FingerprintHost z L ssh_host (Some 1) ?ip [22, 80, 22] = Inr results \<and>
        dom results = {22}"
    by blast
  from 1 2 3 4 5 show "dom (FingerprintHost f L ssh_host None ''10.0.0.1'' [22, 80, 22]) = {22, 80} \<and>
     dom (FingerprintHost f L ssh_host (Some 1) ''10.0.0.1'' [22, 80, 22]) = {22} \<and>
     FingerprintHost f L ssh_host (Some 1) ''10.0.0.1'' [22, 80, 22] 22 =
       Some \<lparr>ServiceName = ''ssh'', ServiceVersion = ''OpenSSH_9.0'',
        Banner = ''SSH-2.0-OpenSSH_9.0'', Fingerprint = None\<rparr> \<and>
     (\<exists>results. zgrab_FingerprintHost z L ssh_host None ''10.0.0.1'' [22, 80, 22] = Inr results \<and>
        dom results = {22, 80}) \<and>
     (\<exists>results. zgrab_FingerprintHost z L ssh_host (Some 1) ''10.0.0.1'' [22, 80, 22] = Inr results \<and>
        dom results = {22})"
    by (intro conjI)
qed

section \<open>The failure policy of scanNetworkPort\<close>

lemma parsed_killed: "parsed (\<lambda>net port. killed) net port = [\<lparr>IP = ''10.0.0.5'', Port = port\<rparr>]"
proof -
  have "TrimSpace ''10.0.0.5'' = ''10.0.0.5''"
    by code_simp
  then show ?thesis
    by (simp add: parsed_def killed_def)
qed

lemma parsed_refused: "parsed (\<lambda>net port. refused) net port = []"
  by (simp add: parsed_def refused_def killed_def)

lemma exits_nonzero_killed: "exits_nonzero killed" "exits_nonzero refused"
  by (simp_all add: exits_nonzero_def killed_def refused_def)

text \<open>
  Claim C5. Let the run of \<open>zmap\<close> for a network and a port exit with a status that is
  not 0. When the context is not done, \<open>scanNetworkPort\<close> returns an error exactly when
  no address was parsed and stderr is not empty, and otherwise it returns the parsed
  addresses without an error. When the context is done, it returns the parsed addresses
  together with the error of the context, whatever was parsed and whatever stderr holds.
\<close>

theorem scanNetworkPort_nonzero_exit:
  assumes "exits_nonzero (E net port)"
  shows "(\<not> Done c \<longrightarrow>
            (snd (fst (scanNetworkPort z E c net port)) \<noteq> None \<longleftrightarrow>
               parsed E net port = [] \<and> stderr_text (E net port) \<noteq> []) \<and>
            (snd (fst (scanNetworkPort z E c net port)) = None \<longrightarrow>
               fst (scanNetworkPort z E c net port) = (parsed E net port, None))) \<and>
         (Done c \<longrightarrow>
            fst (scanNetworkPort z E c net port) = (parsed E net port, Some context_error))"
  using assms by (simp add: scanNetworkPort_def exits_nonzero_def parsed_def Let_def)

theorem scanNetworkPort_nonzero_exit_witness:
  "exits_nonzero killed \<and> exits_nonzero refused \<and>
   fst (scanNetworkPort (NewZmapScanner [''10.0.0.0/24''] 0 0) (\<lambda>net port. killed) None
          ''10.0.0.0/24'' 80) = ([\<lparr>IP = ''10.0.0.5'', Port = 80\<rparr>], None) \<and>
   snd (fst (scanNetworkPort (NewZmapScanner [''10.0.0.0/24''] 0 0) (\<lambda>net port. refused) None
          ''10.0.0.0/24'' 80)) \<noteq> None"
proof -
  have s: "stderr_text refused \<noteq> []"
    by (simp add: refused_def)
  have d: "\<not> Done None"
    by (simp add: Done_def)
  from scanNetworkPort_nonzero_exit [of "\<lambda>net port. killed" "''10.0.0.0/24''" 80 None
      "NewZmapScanner [''10.0.0.0/24''] 0 0"]
  have 1: "fst (scanNetworkPort (NewZmapScanner [''10.0.0.0/24''] 0 0) (\<lambda>net port. killed) None
          ''10.0.0.0/24'' 80) = ([\<lparr>IP = ''10.0.0.5'', Port = 80\<rparr>], None)"
    by (simp add: exits_nonzero_killed parsed_killed d)
  from scanNetworkPort_nonzero_exit [of "\<lambda>net port. refused" "''10.0.0.0/24''" 80 None
      "NewZmapScanner [''10.0.0.0/24''] 0 0"]
  have 2: "snd (fst (scanNetworkPort (NewZmapScanner [''10.0.0.0/24''] 0 0) (\<lambda>net port. refused) None
          ''10.0.0.0/24'' 80)) \<noteq> None"
    by (simp add: exits_nonzero_killed parsed_refused d s)
  from 1 2 show ?thesis
    by (simp only: exits_nonzero_killed simp_thms)
qed

text \<open>
  The claim without the condition on the context does not hold: \<open>killed\<close> exits with a
  status that is not 0, an address was parsed and stderr is empty, and under a context
  that is done the call returns an error.
\<close>

theorem scanNetworkPort_error_with_addresses:
  "exits_nonzero killed \<and>
   parsed (\<lambda>net port. killed) ''10.0.0.0/24'' 80 \<noteq> [] \<and>
   stderr_text killed = [] \<and>
   fst (scanNetworkPort (NewZmapScanner [''10.0.0.0/24''] 0 0) (\<lambda>net port. killed) (Some 0)
          ''10.0.0.0/24'' 80) = ([\<lparr>IP = ''10.0.0.5'', Port = 80\<rparr>], Some context_error)"
proof -
  have 1: "parsed (\<lambda>net port. killed) ''10.0.0.0/24'' 80 \<noteq> []"
    by (simp add: parsed_killed)
  have 2: "stderr_text killed = []"
    by (simp add: killed_def)
  have "TrimSpace ''10.0.0.5'' = ''10.0.0.5''"
    by code_simp
  then have 3: "fst (scanNetworkPort (NewZmapScanner [''10.0.0.0/24''] 0 0) (\<lambda>net port. killed)
      (Some 0) ''10.0.0.0/24'' 80) = ([\<lparr>IP = ''10.0.0.5'', Port = 80\<rparr>], Some context_error)"
    by (simp add: scanNetworkPort_def Done_def killed_def)
  from 1 2 3 show ?thesis
    by (simp only: exits_nonzero_killed simp_thms)
qed

section \<open>The rate limit of ScanPort\<close>

lemma in_flight_le_workers: "in_flight s \<le> length (workers s)"
  by (simp add: in_flight_def)

lemma scan_step_slots:
  assumes "scan_step R W port s s'"
    and "sem s = length (workers s) + (if holding s then 1 else 0)" and "sem s \<le> R"
  shows "sem s' = length (workers s') + (if holding s' then 1 else 0) \<and> sem s' \<le> R"
  using assms
proof cases
  case (released i)
  with assms(2,3) show ?thesis
    by (auto simp: release_def)
qed (auto simp: begin_dial_def end_dial_def Let_def)

lemma scan_run_slots:
  assumes "scan_run R W port allIPs s"
  shows "sem s = length (workers s) + (if holding s then 1 else 0) \<and> sem s \<le> R"
  using assms
proof induction
  case start
  show ?case by (simp add: init_scan_def)
next
  case (step s s')
  then show ?case using scan_step_slots by blast
qed

lemma phase_end_dial:
  "i < length (workers s) \<Longrightarrow> snd (workers (end_dial W port i s) ! i) = Finished"
  "length (workers (end_dial W port i s)) = length (workers s)"
  "sem (end_dial W port i s) = sem s"
  by (simp_all add: end_dial_def Let_def)

lemma scan_run_one_dialing: "scan_run (tcp_Rate one_at_a_time) ssh_host 22 [''10.0.0.1'', ''10.0.0.2''] one_dialing"
proof -
  let ?run = "scan_run (tcp_Rate one_at_a_time) ssh_host 22 [''10.0.0.1'', ''10.0.0.2'']"
  let ?s0 = "init_scan [''10.0.0.1'', ''10.0.0.2'']"
  let ?s1 = "?s0\<lparr>holding := True, sem := sem ?s0 + 1\<rparr>"
  let ?s2 = "?s1\<lparr>remaining := [''10.0.0.2''], holding := False,
    workers := workers ?s1 @ [(''10.0.0.1'', Started)]\<rparr>"
  have 0: "?run ?s0"
    by (rule scan_run.start)
  have "scan_step (tcp_Rate one_at_a_time) ssh_host 22 ?s0 ?s1"
    by (rule scan_step.acquire) (simp_all add: init_scan_def one_at_a_time_def NewTCPScanner_def)
  with 0 have 1: "?run ?s1"
    by (rule scan_run.step)
  have "scan_step (tcp_Rate one_at_a_time) ssh_host 22 ?s1 ?s2"
    by (rule scan_step.go) (simp_all add: init_scan_def)
  with 1 have 2: "?run ?s2"
    by (rule scan_run.step)
  have "scan_step (tcp_Rate one_at_a_time) ssh_host 22 ?s2 (begin_dial 0 ?s2)"
    by (rule scan_step.dial) (simp_all add: init_scan_def)
  with 2 have "?run (begin_dial 0 ?s2)"
    by (rule scan_run.step)
  moreover have "begin_dial 0 ?s2 = one_dialing"
    by (simp add: begin_dial_def init_scan_def one_dialing_def)
  ultimately show ?thesis
    by simp
qed

text \<open>
  Claim C8. In every state that a scan of a port by a scanner \<open>t\<close> reaches, at most
  \<open>t.Rate\<close> goroutines are inside \<open>net.DialTimeout\<close>. The slots of \<open>sem\<close> in use are
  those of the goroutines that have not yet released, plus the one the loop took for the
  goroutine it is about to start: a slot is taken before the goroutine of an address
  exists, so before its dial. A dial that is in flight can end, with or without a
  connection, and the goroutine can then release: this gives back one slot.
\<close>

theorem rate_limit:
  assumes "scan_run (tcp_Rate t) W port allIPs s"
  shows "in_flight s \<le> tcp_Rate t \<and>
         sem s = length (workers s) + (if holding s then 1 else 0) \<and>
         (\<forall>i. i < length (workers s) \<and> snd (workers s ! i) = Dialing \<longrightarrow>
            scan_step (tcp_Rate t) W port s (end_dial W port i s) \<and>
            scan_step (tcp_Rate t) W port (end_dial W port i s) (release i (end_dial W port i s)) \<and>
            sem (release i (end_dial W port i s)) = sem s - 1 \<and>
            length (workers (release i (end_dial W port i s))) = length (workers s) - 1)"
proof -
  from assms have inv: "sem s = length (workers s) + (if holding s then 1 else 0)" "sem s \<le> tcp_Rate t"
    using scan_run_slots by blast+
  have 1: "in_flight s \<le> tcp_Rate t"
    using in_flight_le_workers [of s] inv by simp
  have 2: "scan_step (tcp_Rate t) W port s (end_dial W port i s) \<and>
            scan_step (tcp_Rate t) W port (end_dial W port i s) (release i (end_dial W port i s)) \<and>
            sem (release i (end_dial W port i s)) = sem s - 1 \<and>
            length (workers (release i (end_dial W port i s))) = length (workers s) - 1"
    if i: "i < length (workers s)" "snd (workers s ! i) = Dialing" for i
  proof -
    have a: "scan_step (tcp_Rate t) W port s (end_dial W port i s)"
      using i by (rule scan_step.dialed)
    have "0 < length (workers s)"
      using i(1) by (rule le_less_trans [OF le0])
    then have "0 < sem (end_dial W port i s)"
      using inv by (simp add: phase_end_dial)
    then have b: "scan_step (tcp_Rate t) W port (end_dial W port i s) (release i (end_dial W port i s))"
      using i by (intro scan_step.released) (simp_all add: phase_end_dial)
    have c: "sem (release i (end_dial W port i s)) = sem s - 1"
      by (simp add: release_def phase_end_dial)
    have d: "length (workers (release i (end_dial W port i s))) = length (workers s) - 1"
      using i by (simp add: release_def phase_end_dial)
    from a b c d show ?thesis by simp
  qed
  from 1 inv(1) 2 show ?thesis by blast
qed


theorem rate_limit_witness:
  "scan_run (tcp_Rate one_at_a_time) ssh_host 22 [''10.0.0.1'', ''10.0.0.2''] one_dialing \<and>
   in_flight one_dialing = 1 \<and> sem one_dialing = 1 \<and>
   snd (workers one_dialing ! 0) = Dialing \<and>
   scan_step (tcp_Rate one_at_a_time) ssh_host 22 one_dialing (end_dial ssh_host 22 0 one_dialing) \<and>
   scan_step (tcp_Rate one_at_a_time) ssh_host 22 (end_dial ssh_host 22 0 one_dialing)
     (release 0 (end_dial ssh_host 22 0 one_dialing)) \<and>
   sem (release 0 (end_dial ssh_host 22 0 one_dialing)) = 0 \<and>
   \<not> (\<exists>s. scan_step (tcp_Rate one_at_a_time) ssh_host 22 one_dialing s \<and> in_flight s = 2)"
proof -
  have a: "in_flight one_dialing = 1" "sem one_dialing = 1" "snd (workers one_dialing ! 0) = Dialing"
    "0 < length (workers one_dialing)"
    by (simp_all add: in_flight_def one_dialing_def)
  have "in_flight s \<noteq> 2" if "scan_step (tcp_Rate one_at_a_time) ssh_host 22 one_dialing s" for s
    using rate_limit [OF scan_run.step [OF scan_run_one_dialing that]]
    by (simp add: one_at_a_time_def NewTCPScanner_def)
  then have b: "\<not> (\<exists>s. scan_step (tcp_Rate one_at_a_time) ssh_host 22 one_dialing s \<and> in_flight s = 2)"
    by blast
  have "0 < length (workers one_dialing) \<and> snd (workers one_dialing ! 0) = Dialing"
    using a by (simp only: simp_thms)
  with rate_limit [OF scan_run_one_dialing, THEN conjunct2, THEN conjunct2, THEN spec, of 0]
  have "scan_step (tcp_Rate one_at_a_time) ssh_host 22 one_dialing (end_dial ssh_host 22 0 one_dialing) \<and>
    scan_step (tcp_Rate one_at_a_time) ssh_host 22 (end_dial ssh_host 22 0 one_dialing)
      (release 0 (end_dial ssh_host 22 0 one_dialing)) \<and>
    sem (release 0 (end_dial ssh_host 22 0 one_dialing)) = sem one_dialing - 1 \<and>
    length (workers (release 0 (end_dial ssh_host 22 0 one_dialing))) =
      length (workers one_dialing) - 1"
    by (rule mp)
  then have "scan_step (tcp_Rate one_at_a_time) ssh_host 22 one_dialing (end_dial ssh_host 22 0 one_dialing) \<and>
    scan_step (tcp_Rate one_at_a_time) ssh_host 22 (end_dial ssh_host 22 0 one_dialing)
      (release 0 (end_dial ssh_host 22 0 one_dialing)) \<and>
    sem (release 0 (end_dial ssh_host 22 0 one_dialing)) = 0"
    unfolding a(2) by simp
  with a b show ?thesis
    by (simp only: scan_run_one_dialing simp_thms)
qed

section \<open>Scans of all ports\<close>

subsection \<open>The results of the batches\<close>

lemma merge_results_empty: "merge_results r Map.empty = r" "merge_results Map.empty b = b"
  by (auto simp: merge_results_def fun_eq_iff split: option.splits)

lemma add_result_merge: "add_result x (merge_results r b) = merge_results r (add_result x b)"
  by (auto simp: add_result_def merge_results_def fun_eq_iff split: option.splits)

lemma fold_add_result_merge:
  "fold add_result xs (merge_results r b) = merge_results r (fold add_result xs b)"
  by (induction xs arbitrary: b) (simp_all add: add_result_merge)

lemma fold_add_result: "fold add_result xs r = merge_results r (fold add_result xs Map.empty)"
  using fold_add_result_merge [of xs r Map.empty] by (simp add: merge_results_empty)

lemma merge_results_assoc:
  "merge_results (merge_results a b) c = merge_results a (merge_results b c)"
  by (auto simp: merge_results_def fun_eq_iff split: option.splits)

lemma dispatch_None: "dispatch None ips = (ips, None, False)"
  by (induction ips) (simp_all add: Done_def later_def)

lemma ScanPort_None:
  assumes "ScanPort t String W sch None port = Some (x, c')"
  shows "c' = None"
  using assms
  by (auto simp: ScanPort_def dispatch_None Let_def split: option.splits if_splits)

lemma loop_None_result:
  assumes "scan_ports_loop t String W sch None None ports r = Some ((r', e), c')"
  shows "e = None \<and> c' = None"
  using assms
proof (induction ports arbitrary: r)
  case Nil
  then show ?case by simp
next
  case (Cons port ports)
  from Cons.prems obtain prs err c1 where
    sp: "ScanPort t String W sch None port = Some ((prs, err), c1)"
    by (auto simp: Done_def later_def split: option.splits)
  then have c1: "c1 = None" by (rule ScanPort_None)
  from Cons.prems sp c1 have
    "scan_ports_loop t String W sch None None ports (if err \<noteq> None then r else fold add_result prs r)
       = Some ((r', e), c')"
    by (simp add: Done_def later_def split: if_splits)
  then show ?case by (rule Cons.IH)
qed

lemma loop_None_acc:
  "scan_ports_loop t String W sch None None ports r =
     map_option (\<lambda>((b, e), c). ((merge_results r b, e), c))
       (scan_ports_loop t String W sch None None ports Map.empty)"
proof (induction ports arbitrary: r)
  case Nil
  show ?case by (simp add: merge_results_empty)
next
  case (Cons port ports)
  show ?case
  proof (cases "ScanPort t String W sch None port")
    case None
    then show ?thesis by (simp add: Done_def later_def)
  next
    case (Some y)
    then obtain prs err c1 where
      sp: "ScanPort t String W sch None port = Some ((prs, err), c1)"
      by (cases y) auto
    then have c1: "c1 = None" by (rule ScanPort_None)
    show ?thesis
    proof (cases "err = None")
      case False
      with sp c1 show ?thesis
        by (simp add: Done_def later_def Cons.IH [of r])
    next
      case True
      have "scan_ports_loop t String W sch None None (port # ports) r =
          scan_ports_loop t String W sch None None ports (fold add_result prs r)"
        using sp c1 True by (simp add: Done_def later_def)
      also have "\<dots> = map_option (\<lambda>((b, e), c). ((merge_results (fold add_result prs r) b, e), c))
          (scan_ports_loop t String W sch None None ports Map.empty)"
        by (rule Cons.IH)
      finally have l: "scan_ports_loop t String W sch None None (port # ports) r =
          map_option (\<lambda>((b, e), c). ((merge_results (fold add_result prs r) b, e), c))
            (scan_ports_loop t String W sch None None ports Map.empty)" .
      have "scan_ports_loop t String W sch None None (port # ports) Map.empty =
          scan_ports_loop t String W sch None None ports (fold add_result prs Map.empty)"
        using sp c1 True by (simp add: Done_def later_def)
      also have "\<dots> = map_option (\<lambda>((b, e), c). ((merge_results (fold add_result prs Map.empty) b, e), c))
          (scan_ports_loop t String W sch None None ports Map.empty)"
        by (rule Cons.IH)
      finally have e: "scan_ports_loop t String W sch None None (port # ports) Map.empty =
          map_option (\<lambda>((b, e), c). ((merge_results (fold add_result prs Map.empty) b, e), c))
            (scan_ports_loop t String W sch None None ports Map.empty)" .
      have m: "merge_results (fold add_result prs r) b =
          merge_results r (merge_results (fold add_result prs Map.empty) b)" for b
        by (subst fold_add_result) (simp add: merge_results_assoc)
      show ?thesis
        unfolding l e
        by (cases "scan_ports_loop t String W sch None None ports Map.empty")
          (auto simp: m)
    qed
  qed
qed

lemma loop_None_append:
  "scan_ports_loop t String W sch None None (xs @ ys) r =
     (case scan_ports_loop t String W sch None None xs r of
        None \<Rightarrow> None
      | Some ((r', e), c') \<Rightarrow> scan_ports_loop t String W sch None None ys r')"
proof (induction xs arbitrary: r)
  case Nil
  show ?case by simp
next
  case (Cons port xs)
  show ?case
  proof (cases "ScanPort t String W sch None port")
    case None
    then show ?thesis by (simp add: Done_def later_def)
  next
    case (Some y)
    then obtain prs err c1 where
      sp: "ScanPort t String W sch None port = Some ((prs, err), c1)"
      by (cases y) auto
    then have c1: "c1 = None" by (rule ScanPort_None)
    show ?thesis
      using sp c1 by (simp add: Done_def later_def Cons.IH)
  qed
qed

lemma all_ports_split:
  assumes "b \<le> totalPorts"
  shows "[b..totalPorts] = batchPorts b @ [b + batchSize..totalPorts]"
proof (cases "b + batchSize - 1 > totalPorts")
  case True
  then show ?thesis by (simp add: batchPorts_def)
next
  case False
  then have "[b..totalPorts] = [b..b + batchSize - 1] @ [b + batchSize - 1 + 1..totalPorts]"
    by (intro upto_split2) (simp_all add: batchSize_def)
  with False show ?thesis by (simp add: batchPorts_def)
qed

lemma scan_all_loop_None:
  "scan_all_loop t String W sch None b results =
     scan_ports_loop t String W sch None None [b..totalPorts] results"
proof (induction "nat (totalPorts + 1 - b)" arbitrary: b results rule: less_induct)
  case less
  show ?case
  proof (cases "b \<le> totalPorts")
    case False
    then show ?thesis
      by (subst scan_all_loop.simps) simp
  next
    case True
    let ?batch = "scan_ports_loop t String W sch None None (batchPorts b) Map.empty"
    have IH: "scan_all_loop t String W sch None (b + batchSize) r =
        scan_ports_loop t String W sch None None [b + batchSize..totalPorts] r" for r
      using True by (intro less) (simp add: batchSize_def)
    have split: "scan_ports_loop t String W sch None None [b..totalPorts] results =
       (case scan_ports_loop t String W sch None None (batchPorts b) results of
          None \<Rightarrow> None
        | Some ((r', e), c') \<Rightarrow>
            scan_ports_loop t String W sch None None [b + batchSize..totalPorts] r')"
      by (simp only: all_ports_split [OF True] loop_None_append)
    show ?thesis
    proof (cases ?batch)
      case None
      then have "scan_ports_loop t String W sch None None (batchPorts b) results = None"
        by (subst loop_None_acc) simp
      with None True show ?thesis
        unfolding split
        by (subst scan_all_loop.simps)
          (simp add: ScanPorts_def ScanPortsWithCallback_def)
    next
      case (Some y)
      then obtain br e c' where y: "?batch = Some ((br, e), c')"
        by (cases y) auto
      then have ec: "e = None" "c' = None"
        using loop_None_result by blast+
      have "scan_ports_loop t String W sch None None (batchPorts b) results =
          Some ((merge_results results br, None), None)"
        by (subst loop_None_acc) (simp add: y ec)
      with y ec True show ?thesis
        unfolding split
        by (subst scan_all_loop.simps)
          (simp add: ScanPorts_def ScanPortsWithCallback_def IH)
    qed
  qed
qed

lemma ScanAllPorts_None:
  "ScanAllPorts t String W sch None = ScanPorts t String W sch None [1..totalPorts]"
  by (simp add: ScanAllPorts_def ScanPorts_def ScanPortsWithCallback_def scan_all_loop_None)

subsection \<open>The batches of the delegated backend\<close>

lemma port_loop_append:
  "port_loop z E net c (xs @ ys) r =
     (case port_loop z E net c xs r of
        (r', c', returned) \<Rightarrow> if returned then (r', c', True) else port_loop z E net c' ys r')"
proof (induction xs arbitrary: c r)
  case Nil
  show ?case by simp
next
  case (Cons port xs)
  show ?case
    by (cases "scanNetworkPort z E (later c) net port") (auto simp: Cons.IH)
qed

lemma batch_loop_flat:
  "batch_loop z E net c b results =
     (case port_loop z E net c [b..totalPorts] results of
        (r, c', returned) \<Rightarrow> ((r, if returned then Some context_error else None), c'))"
proof (induction "nat (totalPorts + 1 - b)" arbitrary: b c results rule: less_induct)
  case less
  show ?case
  proof (cases "b \<le> totalPorts")
    case False
    then show ?thesis
      by (subst batch_loop.simps) simp
  next
    case True
    have IH: "batch_loop z E net c' (b + batchSize) r =
        (case port_loop z E net c' [b + batchSize..totalPorts] r of
           (r, c', returned) \<Rightarrow> ((r, if returned then Some context_error else None), c'))" for r c'
      using True by (intro less) (simp add: batchSize_def)
    obtain r' c' returned where
      p: "port_loop z E net c (batchPorts b) results = (r', c', returned)"
      by (cases "port_loop z E net c (batchPorts b) results") auto
    show ?thesis
      using True p
      by (subst batch_loop.simps) (simp add: all_ports_split [OF True] port_loop_append IH)
  qed
qed

lemma scanNetworkAllPorts_flat:
  "scanNetworkAllPorts z E c net =
     (case port_loop z E net c [1..totalPorts] Map.empty of
        (r, c', returned) \<Rightarrow> ((r, if returned then Some context_error else None), c'))"
  by (simp add: scanNetworkAllPorts_def batch_loop_flat)

lemma zmap_ScanPort_single:
  assumes "zmap_Networks z = [net]"
  shows "zmap_ScanPort z E c port =
     (case scanNetworkPort z E c net port of
        ((results, err), c') \<Rightarrow> ((if err \<noteq> None then [] else results, None), c'))"
  using assms
  by (cases "scanNetworkPort z E c net port") (auto simp: zmap_ScanPort_def)

lemma zmap_ScanPorts_loop_single:
  assumes "zmap_Networks z = [net]"
  shows "zmap_ScanPorts_loop z E c ports r =
     (case port_loop z E net c ports r of
        (r', c', returned) \<Rightarrow> ((r', if returned then Some context_error else None), c'))"
proof (induction ports arbitrary: c r)
  case Nil
  show ?case by simp
next
  case (Cons port ports)
  show ?case
    by (cases "scanNetworkPort z E (later c) net port")
      (auto simp: Cons.IH zmap_ScanPort_single [OF assms])
qed

lemma scanNetworkAllPorts_ScanPorts:
  assumes "zmap_Networks z = [net]"
  shows "scanNetworkAllPorts z E c net = zmap_ScanPorts z E c [1..totalPorts]"
  by (simp add: scanNetworkAllPorts_flat zmap_ScanPorts_def zmap_ScanPorts_loop_single [OF assms])

subsection \<open>The scan of a host with every port open\<close>

lemma collect_one_host: "collect_ips dotted (tcp_Networks one_host) = Some [''10.0.0.1'']"
proof -
  have "expandCIDR dotted \<lparr>addr = [10, 0, 0, 1], ones = 32\<rparr> = Some (Inr [''10.0.0.1''])"
    by code_simp
  then show ?thesis
    by (simp add: one_host_def NewTCPScanner_def)
qed

lemma ScanPort_one_host:
  "ScanPort one_host dotted all_open in_order c port =
     (if Done c then Some (([], Some context_error), c)
      else Some (([\<lparr>IP = ''10.0.0.1'', Port = port\<rparr>], None), later c))"
proof -
  have r: "tcp_Rate one_host \<noteq> 0"
    by (simp add: one_host_def NewTCPScanner_def)
  show ?thesis
    unfolding ScanPort_def collect_one_host
    using r by (simp add: all_open_def in_order_def)
qed

lemma add_result_mk:
  "add_result \<lparr>IP = ip, Port = p\<rparr> r =
     r(ip \<mapsto> (case r ip of None \<Rightarrow> [] | Some old \<Rightarrow> old) @ [p])"
  unfolding add_result_def by simp

lemma fold_add_result_ports:
  "fold add_result (map (\<lambda>port. \<lparr>IP = ip, Port = port\<rparr>) (p # ports)) r =
     r(ip \<mapsto> (case r ip of None \<Rightarrow> [] | Some old \<Rightarrow> old) @ p # ports)"
proof (induction ports arbitrary: p r)
  case Nil
  show ?case by (simp add: add_result_mk)
next
  case (Cons q ports)
  have "fold add_result (map (\<lambda>port. \<lparr>IP = ip, Port = port\<rparr>) (p # q # ports)) r =
      fold add_result (map (\<lambda>port. \<lparr>IP = ip, Port = port\<rparr>) (q # ports))
        (add_result \<lparr>IP = ip, Port = p\<rparr> r)"
    by simp
  also have "\<dots> = r(ip \<mapsto> (case r ip of None \<Rightarrow> [] | Some old \<Rightarrow> old) @ p # q # ports)"
    unfolding Cons.IH by (simp add: add_result_mk)
  finally show ?case .
qed

lemma loop_one_host:
  "scan_ports_loop one_host dotted all_open in_order None None ports r =
     Some ((fold add_result (map (\<lambda>port. \<lparr>IP = ''10.0.0.1'', Port = port\<rparr>) ports) r, None), None)"
proof (induction ports arbitrary: r)
  case Nil
  show ?case by simp
next
  case (Cons port ports)
  have n: "\<not> Done None" "later None = None"
    by (simp_all add: Done_def later_def)
  show ?case
    by (simp add: n ScanPort_one_host Cons.IH)
qed

lemma all_ports_Cons: "[1..totalPorts] = 1 # [1 + 1..totalPorts]"
  by (rule upto_rec1) (simp add: totalPorts_def)

lemma ScanPorts_one_host:
  "ScanPorts one_host dotted all_open in_order None [1..totalPorts] =
     Some (([''10.0.0.1'' \<mapsto> [1..totalPorts]], None), None)"
proof -
  have "ScanPorts one_host dotted all_open in_order None (1 # [1 + 1..totalPorts]) =
     Some (([''10.0.0.1'' \<mapsto> 1 # [1 + 1..totalPorts]], None), None)"
    unfolding ScanPorts_def ScanPortsWithCallback_def loop_one_host fold_add_result_ports
    by simp
  then show ?thesis
    by (simp only: all_ports_Cons [symmetric])
qed

lemma port_zero: "0 \<notin> set [1..totalPorts]" "length [1..totalPorts] = 65535"
  by (simp_all add: totalPorts_def)

lemma two_ports:
  assumes "b + 1 \<le> e"
  shows "[b..e] = b # (b + 1) # [b + 2..e]"
proof -
  have "[b..e] = b # [b + 1..e]"
    using assms by (intro upto_rec1) simp
  moreover have "[b + 1..e] = (b + 1) # [b + 1 + 1..e]"
    using assms by (intro upto_rec1) simp
  ultimately show ?thesis by (simp add: ac_simps)
qed

lemma loop_one_host_cancelled:
  "scan_ports_loop one_host dotted all_open in_order None (Some 2) (p # q # ports) Map.empty =
     Some (([''10.0.0.1'' \<mapsto> [p]], Some context_error), Some 0)"
  by (simp add: ScanPort_one_host Done_def later_def add_result_def)

lemma batchPorts_Cons:
  assumes "b \<le> totalPorts"
  shows "\<exists>ports. batchPorts b = b # ports"
proof -
  let ?e = "if b + batchSize - 1 > totalPorts then totalPorts else b + batchSize - 1"
  have 1: "batchPorts b = [b..?e]"
    by (simp add: batchPorts_def Let_def)
  have "b \<le> ?e"
    using assms by (simp add: batchSize_def)
  then have "[b..?e] = b # [b + 1..?e]"
    by (rule upto_rec1)
  with 1 show ?thesis
    by simp
qed

lemma scan_all_loop_Done:
  assumes "Done c"
  shows "scan_all_loop t String W sch c b results = Some ((results, None), c)"
proof (induction "nat (totalPorts + 1 - b)" arbitrary: b rule: less_induct)
  case less
  show ?case
  proof (cases "b \<le> totalPorts")
    case False
    then show ?thesis
      by (subst scan_all_loop.simps) simp
  next
    case True
    then obtain ports where p: "batchPorts b = b # ports"
      using batchPorts_Cons by blast
    have IH: "scan_all_loop t String W sch c (b + batchSize) results = Some ((results, None), c)"
      using True by (intro less) (simp add: batchSize_def)
    show ?thesis
      using True assms
      by (subst scan_all_loop.simps)
        (simp add: ScanPorts_def ScanPortsWithCallback_def p IH)
  qed
qed

lemma ScanAllPorts_one_host_cancelled:
  "ScanAllPorts one_host dotted all_open in_order (Some 2) = Some ((Map.empty, None), Some 0)"
proof -
  have b: "batchPorts 1 = 1 # (1 + 1) # [1 + 2..1 + batchSize - 1]"
    unfolding batchPorts_def Let_def
    by (subst two_ports) (simp_all add: batchSize_def totalPorts_def)
  have t: "(1::int) \<le> totalPorts"
    by (simp add: totalPorts_def)
  have d: "Done (Some 0)"
    by (simp add: Done_def)
  show ?thesis
    unfolding ScanAllPorts_def
    by (subst scan_all_loop.simps)
      (simp only: t if_True ScanPorts_def ScanPortsWithCallback_def b loop_one_host_cancelled
        option.case prod.case scan_all_loop_Done [OF d] option.distinct simp_thms)
qed

lemma ScanPorts_one_host_cancelled:
  "ScanPorts one_host dotted all_open in_order (Some 2) [1..totalPorts] =
     Some (([''10.0.0.1'' \<mapsto> [1]], Some context_error), Some 0)"
proof -
  have "[1..totalPorts] = 1 # (1 + 1) # [1 + 2..totalPorts]"
    by (rule two_ports) (simp add: totalPorts_def)
  then show ?thesis
    by (simp only: ScanPorts_def ScanPortsWithCallback_def loop_one_host_cancelled)
qed

lemma scanNetworkPort_killed:
  "scanNetworkPort z (\<lambda>net port. killed) None net port =
     (([\<lparr>IP = ''10.0.0.5'', Port = port\<rparr>], None), None)"
proof -
  have "TrimSpace ''10.0.0.5'' = ''10.0.0.5''"
    by code_simp
  then show ?thesis
    by (simp add: scanNetworkPort_def Done_def later_def killed_def)
qed

lemma port_loop_killed:
  "port_loop z (\<lambda>net port. killed) net None ports r =
     (fold add_result (map (\<lambda>port. \<lparr>IP = ''10.0.0.5'', Port = port\<rparr>) ports) r, None, False)"
proof (induction ports arbitrary: r)
  case Nil
  show ?case by simp
next
  case (Cons port ports)
  have n: "\<not> Done None" "later None = None"
    by (simp_all add: Done_def later_def)
  show ?case
    by (simp add: n scanNetworkPort_killed Cons.IH)
qed

subsection \<open>The errors of the scans of all ports, and the scan without batches\<close>

lemma scan_all_loop_no_error:
  assumes "scan_all_loop t String W sch c b results = Some ((r, e), c')"
  shows "e = None"
  using assms
proof (induction "nat (totalPorts + 1 - b)" arbitrary: b c results rule: less_induct)
  case less
  show ?case
  proof (cases "b \<le> totalPorts")
    case False
    with less.prems show ?thesis
      by (subst (asm) scan_all_loop.simps) simp
  next
    case True
    from less.prems True obtain br err c1 where
      s: "ScanPorts t String W sch c (batchPorts b) = Some ((br, err), c1)"
      by (subst (asm) scan_all_loop.simps) (auto split: option.splits)
    from less.prems True s have
      "scan_all_loop t String W sch c1 (b + batchSize)
         (if err \<noteq> None then results else merge_results results br) = Some ((r, e), c')"
      by (subst (asm) scan_all_loop.simps) (simp split: if_splits)
    moreover have "nat (totalPorts + 1 - (b + batchSize)) < nat (totalPorts + 1 - b)"
      using True by (simp add: batchSize_def)
    ultimately show ?thesis
      by (rule less.hyps [rotated])
  qed
qed

lemma ScanAllPorts_no_error:
  assumes "ScanAllPorts t String W sch c = Some ((r, e), c')"
  shows "e = None"
  using assms unfolding ScanAllPorts_def by (rule scan_all_loop_no_error)

lemma zmap_ScanAllPorts_loop_no_error:
  "snd (fst (zmap_ScanAllPorts_loop z E c nets results)) = None"
proof (induction nets arbitrary: c results)
  case Nil
  show ?case by simp
next
  case (Cons net nets)
  show ?case
    by (cases "scanNetworkAllPorts z E c net") (auto simp: Cons.IH)
qed

lemma zmap_ScanAllPorts_no_error: "snd (fst (zmap_ScanAllPorts z E c)) = None"
  by (simp add: zmap_ScanAllPorts_def zmap_ScanAllPorts_loop_no_error)

lemma scanNetworkAllPorts_one_by_one:
  "scanNetworkAllPorts z E c net = scan_network_one_by_one z E c net"
  by (simp add: scanNetworkAllPorts_flat scan_network_one_by_one_def totalPorts_def)

lemma zmap_ScanAllPorts_loop_one_by_one:
  "zmap_ScanAllPorts_loop z E c nets results = one_by_one_loop z E c nets results"
proof (induction nets arbitrary: c results)
  case Nil
  show ?case by simp
next
  case (Cons net nets)
  show ?case
    by (cases "scan_network_one_by_one z E c net")
      (auto simp: scanNetworkAllPorts_one_by_one Cons.IH)
qed

lemma zmap_ScanAllPorts_one_by_one:
  "zmap_ScanAllPorts z E c = scan_all_ports_one_by_one z E c"
  by (simp add: zmap_ScanAllPorts_def scan_all_ports_one_by_one_def
      zmap_ScanAllPorts_loop_one_by_one)

lemma scanNetworkPort_None: "snd (scanNetworkPort z E None net port) = None"
  by (simp add: scanNetworkPort_def Let_def later_def)

lemma port_loop_None: "snd (port_loop z E net None ports r) = (None, False)"
proof (induction ports arbitrary: r)
  case Nil
  show ?case by simp
next
  case (Cons port ports)
  obtain prs err c1 where s: "scanNetworkPort z E None net port = ((prs, err), c1)"
    by (cases "scanNetworkPort z E None net port") auto
  with scanNetworkPort_None [of z E net port] have "c1 = None"
    by simp
  with s show ?case
    by (simp add: Done_def later_def Cons.IH)
qed

lemma zmap_ScanAllPorts_single_None:
  assumes "zmap_Networks z = [net]"
  shows "zmap_ScanAllPorts z E None = zmap_ScanPorts z E None [1..totalPorts]"
proof -
  obtain r where p: "port_loop z E net None [1..totalPorts] Map.empty = (r, None, False)"
    using port_loop_None [of z E net "[1..totalPorts]" Map.empty]
    by (cases "port_loop z E net None [1..totalPorts] Map.empty") auto
  then have "scanNetworkAllPorts z E None net = ((r, None), None)"
    by (simp add: scanNetworkAllPorts_flat)
  then have "zmap_ScanAllPorts z E None = ((r, None), None)"
    by (simp add: zmap_ScanAllPorts_def assms merge_results_empty)
  moreover have "zmap_ScanPorts z E None [1..totalPorts] = ((r, None), None)"
    by (simp add: zmap_ScanPorts_def zmap_ScanPorts_loop_single [OF assms] p)
  ultimately show ?thesis by simp
qed

lemma scanNetworkPort_answered:
  "scanNetworkPort z (\<lambda>net port. answered) c net port =
     (([\<lparr>IP = ''10.0.0.5'', Port = port\<rparr>], None), c)"
proof -
  have "TrimSpace ''10.0.0.5'' = ''10.0.0.5''"
    by code_simp
  then show ?thesis
    by (simp add: scanNetworkPort_def answered_def killed_def)
qed

lemma port_loop_answered_cancelled:
  "port_loop z (\<lambda>net port. answered) net (Some 1) (p # q # ports) Map.empty =
     ([''10.0.0.5'' \<mapsto> [p]], Some 0, True)"
  by (simp add: scanNetworkPort_answered Done_def later_def add_result_def)

lemma all_ports_two: "[1..totalPorts] = 1 # (1 + 1) # [1 + 2..totalPorts]"
  by (rule two_ports) (simp add: totalPorts_def)

lemma networks_one_network: "zmap_Networks one_network = [''10.0.0.0/24'']"
  by (simp add: one_network_def NewZmapScanner_def)

lemma zmap_ScanAllPorts_cancelled:
  "zmap_ScanAllPorts one_network (\<lambda>net port. answered) (Some 1) = ((Map.empty, None), Some 0)"
proof -
  have "scanNetworkAllPorts one_network (\<lambda>net port. answered) (Some 1) ''10.0.0.0/24'' =
      (([''10.0.0.5'' \<mapsto> [1]], Some context_error), Some 0)"
    unfolding scanNetworkAllPorts_flat all_ports_two port_loop_answered_cancelled by simp
  then show ?thesis
    by (simp add: zmap_ScanAllPorts_def networks_one_network)
qed

lemma zmap_ScanPorts_cancelled:
  "zmap_ScanPorts one_network (\<lambda>net port. answered) (Some 1) [1..totalPorts] =
     (([''10.0.0.5'' \<mapsto> [1]], Some context_error), Some 0)"
  unfolding zmap_ScanPorts_def zmap_ScanPorts_loop_single [OF networks_one_network]
    all_ports_two port_loop_answered_cancelled
  by simp

text \<open>
  Claim C7. The scans of all ports cover the ports 1 to 65535. In the native backend,
  under a context that is never done, \<open>ScanAllPorts\<close> returns what \<open>ScanPorts\<close> returns
  on the list of these ports; under every context \<open>ScanAllPorts\<close> returns no error. In
  the delegated backend, under every context, \<open>scanNetworkAllPorts\<close> and \<open>ScanAllPorts\<close>
  return what they return without batches, with one loop over the ports 1 to 65535 for
  each network, and \<open>ScanAllPorts\<close> returns no error. For a scanner of one network,
  \<open>ScanAllPorts\<close> under a context that is never done, and \<open>scanNetworkAllPorts\<close> under
  every context, return what \<open>ScanPorts\<close> of that scanner returns on the ports 1 to
  65535.
\<close>

theorem all_ports_scan:
  "[1..totalPorts] = [1..65535] \<and>
   ScanAllPorts t String W sch None = ScanPorts t String W sch None [1..totalPorts] \<and>
   (\<forall>c results err c'. ScanAllPorts t String W sch c = Some ((results, err), c') \<longrightarrow> err = None) \<and>
   scanNetworkAllPorts z E c net = scan_network_one_by_one z E c net \<and>
   zmap_ScanAllPorts z E c = scan_all_ports_one_by_one z E c \<and>
   snd (fst (zmap_ScanAllPorts z E c)) = None \<and>
   zmap_ScanAllPorts (z\<lparr>zmap_Networks := [net]\<rparr>) E None =
     zmap_ScanPorts (z\<lparr>zmap_Networks := [net]\<rparr>) E None [1..totalPorts] \<and>
   scanNetworkAllPorts (z\<lparr>zmap_Networks := [net]\<rparr>) E c net =
     zmap_ScanPorts (z\<lparr>zmap_Networks := [net]\<rparr>) E c [1..totalPorts]"
proof -
  have 1: "[1..totalPorts] = [1..65535]"
    by (simp only: totalPorts_def)
  have 3: "\<forall>c results err c'.
      ScanAllPorts t String W sch c = Some ((results, err), c') \<longrightarrow> err = None"
    using ScanAllPorts_no_error by blast
  have 7: "zmap_ScanAllPorts (z\<lparr>zmap_Networks := [net]\<rparr>) E None =
     zmap_ScanPorts (z\<lparr>zmap_Networks := [net]\<rparr>) E None [1..totalPorts]"
    by (rule zmap_ScanAllPorts_single_None) simp
  have 8: "scanNetworkAllPorts (z\<lparr>zmap_Networks := [net]\<rparr>) E c net =
     zmap_ScanPorts (z\<lparr>zmap_Networks := [net]\<rparr>) E c [1..totalPorts]"
    by (rule scanNetworkAllPorts_ScanPorts) simp
  from 1 ScanAllPorts_None [of t String W sch] 3 scanNetworkAllPorts_one_by_one [of z E c net]
    zmap_ScanAllPorts_one_by_one [of z E c] zmap_ScanAllPorts_no_error [of z E c] 7 8
  show ?thesis
    by (intro conjI)
qed

theorem all_ports_scan_witness:
  "ScanAllPorts one_host dotted all_open in_order None =
     Some (([''10.0.0.1'' \<mapsto> [1..totalPorts]], None), None) \<and>
   ScanAllPorts one_host dotted all_open in_order (Some 2) = Some ((Map.empty, None), Some 0) \<and>
   scanNetworkAllPorts one_network (\<lambda>net port. killed) None ''10.0.0.0/24'' =
     (([''10.0.0.5'' \<mapsto> [1..totalPorts]], None), None)"
proof -
  note inst = all_ports_scan [of one_host dotted all_open in_order
      one_network "\<lambda>net port. killed" None "''10.0.0.0/24''"]
  from inst have "ScanAllPorts one_host dotted all_open in_order None =
      ScanPorts one_host dotted all_open in_order None [1..totalPorts]"
    by (rule conjunct2 [THEN conjunct1])
  then have 1: "ScanAllPorts one_host dotted all_open in_order None =
      Some (([''10.0.0.1'' \<mapsto> [1..totalPorts]], None), None)"
    by (simp only: ScanPorts_one_host)
  obtain r e c' where
    2: "ScanAllPorts one_host dotted all_open in_order (Some 2) = Some ((r, e), c')"
    and rc: "r = Map.empty" "c' = Some 0"
    using ScanAllPorts_one_host_cancelled by blast
  from inst [THEN conjunct2, THEN conjunct2, THEN conjunct1, THEN spec, THEN spec, THEN spec,
      THEN spec, THEN mp, OF 2]
  have "e = None" .
  with 2 rc have 3: "ScanAllPorts one_host dotted all_open in_order (Some 2) =
      Some ((Map.empty, None), Some 0)"
    by simp
  from inst have "scanNetworkAllPorts one_network (\<lambda>net port. killed) None ''10.0.0.0/24'' =
      scan_network_one_by_one one_network (\<lambda>net port. killed) None ''10.0.0.0/24''"
    by (rule conjunct2 [THEN conjunct2, THEN conjunct2, THEN conjunct1])
  also have "\<dots> = (case port_loop one_network (\<lambda>net port. killed) ''10.0.0.0/24'' None
      [1..totalPorts] Map.empty of
        (results, c', returned) \<Rightarrow>
          ((results, if returned then Some context_error else None), c'))"
    by (simp only: scan_network_one_by_one_def totalPorts_def)
  also have "\<dots> = ((fold add_result (map (\<lambda>port. \<lparr>IP = ''10.0.0.5'', Port = port\<rparr>)
      (1 # [1 + 1..totalPorts])) Map.empty, None), None)"
    by (simp only: all_ports_Cons port_loop_killed prod.case if_False)
  also have "\<dots> = (([''10.0.0.5'' \<mapsto> 1 # [1 + 1..totalPorts]], None), None)"
    unfolding fold_add_result_ports by simp
  finally have 4: "scanNetworkAllPorts one_network (\<lambda>net port. killed) None ''10.0.0.0/24'' =
      (([''10.0.0.5'' \<mapsto> [1..totalPorts]], None), None)"
    by (simp only: all_ports_Cons [symmetric])
  from 1 3 4 show ?thesis
    by (intro conjI)
qed

text \<open>
  Port 0 is not among the ports: the host 10.0.0.1 accepts on every port, port 0
  included, and the scan of all ports reports the 65535 ports from 1 on. Under a context
  that is done during the run the scan of all ports and the scan of the single ports can
  differ: with the context done after the first port, \<open>ScanAllPorts\<close> of either backend
  returns no result and no error, where \<open>ScanPorts\<close> on the ports 1 to 65535 returns the
  first port and the error of the context.
\<close>

theorem all_ports_scan_without_port_0:
  "dial all_open ''10.0.0.1'' 0 False \<noteq> None \<and>
   ScanAllPorts one_host dotted all_open in_order None =
     Some (([''10.0.0.1'' \<mapsto> [1..totalPorts]], None), None) \<and>
   0 \<notin> set [1..totalPorts] \<and> length [1..totalPorts] = 65535 \<and>
   ScanAllPorts one_host dotted all_open in_order (Some 2) = Some ((Map.empty, None), Some 0) \<and>
   ScanPorts one_host dotted all_open in_order (Some 2) [1..totalPorts] =
     Some (([''10.0.0.1'' \<mapsto> [1]], Some context_error), Some 0) \<and>
   zmap_ScanAllPorts one_network (\<lambda>net port. answered) (Some 1) = ((Map.empty, None), Some 0) \<and>
   zmap_ScanPorts one_network (\<lambda>net port. answered) (Some 1) [1..totalPorts] =
     (([''10.0.0.5'' \<mapsto> [1]], Some context_error), Some 0)"
proof -
  have 1: "dial all_open ''10.0.0.1'' 0 False \<noteq> None"
    by (simp add: all_open_def)
  have 2: "ScanAllPorts one_host dotted all_open in_order None =
     Some (([''10.0.0.1'' \<mapsto> [1..totalPorts]], None), None)"
    by (simp only: ScanAllPorts_None ScanPorts_one_host)
  from 1 2 port_zero ScanAllPorts_one_host_cancelled ScanPorts_one_host_cancelled
    zmap_ScanAllPorts_cancelled zmap_ScanPorts_cancelled
  show ?thesis
    by (intro conjI)
qed

end
